(* ===== verification/Prelude.thy ===== *)
theory Prelude
  imports
    Main
    "HOL-Library.AList"
    "HOL-Library.Multiset"
    "HOL-Library.Sublist"
    "HOL-Library.Char_ord"
    "HOL-Library.List_Lexorder"
    "HOL-Library.Product_Lexorder"
begin

text \<open>
  What the components share: Go's 64-bit integers (as \<open>int\<close> with the wrap-around
  written out), Go's \<open>time.Time\<close> (nanoseconds since the zero instant), Go maps
  (association lists whose order is one possible iteration order), the generic locales of
  a machine whose operations keep an invariant and of one whose states only evolve along a
  preorder, and the lemma collections the component proofs draw on.
\<close>

section \<open>Lemma collections\<close>

named_theorems i64_simps \<open>facts on 64-bit wrap-around\<close>
named_theorems gomap_simps \<open>lookup after insert and delete in a Go map\<close>
named_theorems store_defs \<open>definitions of the operations of the metadata store\<close>
named_theorems store_views \<open>what each store operation leaves of the stored entities\<close>

section \<open>64-bit integers\<close>

type_synonym int64 = int

definition wrap64 :: "int \<Rightarrow> int64" where
  "wrap64 x = (x + 2 ^ 63) mod 2 ^ 64 - 2 ^ 63"

definition in_i64 :: "int \<Rightarrow> bool" where
  "in_i64 x \<longleftrightarrow> - (2 ^ 63) \<le> x \<and> x < 2 ^ 63"

definition add64 :: "int64 \<Rightarrow> int64 \<Rightarrow> int64" where
  "add64 a b = wrap64 (a + b)"

definition sub64 :: "int64 \<Rightarrow> int64 \<Rightarrow> int64" where
  "sub64 a b = wrap64 (a - b)"

definition mul64 :: "int64 \<Rightarrow> int64 \<Rightarrow> int64" where
  "mul64 a b = wrap64 (a * b)"

text \<open>Clamping, as \<open>time.Time.Sub\<close> does with durations out of range.\<close>

definition sat64 :: "int \<Rightarrow> int64" where
  "sat64 x = (if x < - (2 ^ 63) then - (2 ^ 63) else if 2 ^ 63 - 1 < x then 2 ^ 63 - 1 else x)"

section \<open>Instants and durations\<close>

text \<open>
  A \<open>time.Time\<close> is the number of nanoseconds since Go's zero instant (January 1,
  year 1, UTC), so \<open>IsZero\<close> is equality with 0; a \<open>time.Duration\<close> is a number of
  nanoseconds of 64 bits. \<open>Unix\<close> counts seconds since 1970, rounding down.
\<close>

type_synonym gotime = int
type_synonym duration = int64

text \<open>The clock readings of one method call, by the place of the reading in the method.\<close>

type_synonym clock = "nat \<Rightarrow> gotime"

text \<open>
  What other goroutines and processes do to a shared state between two calls of a method, by
  the place in the method.
\<close>

type_synonym 's interference = "nat \<Rightarrow> 's \<Rightarrow> 's"

definition zero_time :: gotime where
  "zero_time = 0"

definition time_Unix :: "gotime \<Rightarrow> int64" where
  "time_Unix t = t div 1000000000 - 62135596800"

definition time_Sub :: "gotime \<Rightarrow> gotime \<Rightarrow> duration" where
  "time_Sub t u = sat64 (t - u)"

definition time_Add :: "gotime \<Rightarrow> duration \<Rightarrow> gotime" where
  "time_Add t d = t + d"

definition Millisecond :: duration where
  "Millisecond = 1000000"

definition Second :: duration where
  "Second = 1000000000"

definition Minute :: duration where
  "Minute = 60000000000"

definition Hour :: duration where
  "Hour = 3600000000000"

definition Milliseconds :: "duration \<Rightarrow> int64" where
  "Milliseconds d = sgn d * (\<bar>d\<bar> div 1000000)"

section \<open>Go maps\<close>

text \<open>
  A Go map is an association list with distinct keys. Iterating over the map visits its
  entries in the order of the list; Go leaves that order open, so a result that is
  invariant under permuting the list is one the program computes deterministically.
\<close>

type_synonym ('k, 'v) gomap = "('k \<times> 'v) list"

abbreviation gm_wf :: "('k, 'v) gomap \<Rightarrow> bool" where
  "gm_wf m \<equiv> distinct (map fst m)"

abbreviation gm_get :: "('k, 'v) gomap \<Rightarrow> 'k \<Rightarrow> 'v option" where
  "gm_get m k \<equiv> map_of m k"

abbreviation gm_put :: "'k \<Rightarrow> 'v \<Rightarrow> ('k, 'v) gomap \<Rightarrow> ('k, 'v) gomap" where
  "gm_put k v m \<equiv> AList.update k v m"

abbreviation gm_del :: "'k \<Rightarrow> ('k, 'v) gomap \<Rightarrow> ('k, 'v) gomap" where
  "gm_del k m \<equiv> AList.delete k m"

definition gm_has :: "('k, 'v) gomap \<Rightarrow> 'k \<Rightarrow> bool" where
  "gm_has m k \<longleftrightarrow> map_of m k \<noteq> None"

text \<open>One map grows into another: its keys stay and the values keep what \<open>f\<close> reads of them.\<close>

definition gm_grows :: "('v \<Rightarrow> 'i) \<Rightarrow> ('k, 'v) gomap \<Rightarrow> ('k, 'v) gomap \<Rightarrow> bool" where
  "gm_grows f m m' \<longleftrightarrow>
     (\<forall>k v. gm_get m k = Some v \<longrightarrow> map_option f (gm_get m' k) = Some (f v))"

section \<open>Lemmas\<close>

lemma wrap64_id [i64_simps]: "in_i64 x \<Longrightarrow> wrap64 x = x"
  by (simp add: in_i64_def wrap64_def)

lemma in_i64_wrap64 [simp]: "in_i64 (wrap64 x)"
proof -
  have "0 \<le> (x + 2 ^ 63) mod 2 ^ 64" "(x + 2 ^ 63) mod 2 ^ 64 < (2 ^ 64 :: int)"
    by simp_all
  then show ?thesis by (simp add: in_i64_def wrap64_def)
qed

lemma in_i64_add64 [simp]: "in_i64 (add64 a b)"
  by (simp add: add64_def)

lemma in_i64_sub64 [simp]: "in_i64 (sub64 a b)"
  by (simp add: sub64_def)

lemma wrap64_cong: "a mod 2 ^ 64 = b mod 2 ^ 64 \<Longrightarrow> wrap64 a = wrap64 b"
  unfolding wrap64_def by (metis mod_add_left_eq)

lemma wrap64_mod: "wrap64 x mod 2 ^ 64 = x mod 2 ^ 64"
proof -
  have "((x + 2 ^ 63) mod 2 ^ 64 - 2 ^ 63) mod 2 ^ 64 = (x + 2 ^ 63 - 2 ^ 63) mod (2 ^ 64 :: int)"
    by (rule mod_diff_left_eq)
  then show ?thesis by (simp add: wrap64_def)
qed

lemma wrap64_wrap64 [simp]: "wrap64 (wrap64 x) = wrap64 x"
  by (rule wrap64_cong) (rule wrap64_mod)

lemma wrap64_add_left [i64_simps]: "wrap64 (wrap64 a + b) = wrap64 (a + b)"
  by (rule wrap64_cong) (metis mod_add_left_eq wrap64_mod)

lemma wrap64_add_right [i64_simps]: "wrap64 (a + wrap64 b) = wrap64 (a + b)"
  using wrap64_add_left [of b a] by (simp add: add.commute)

lemma wrap64_diff_left [i64_simps]: "wrap64 (wrap64 a - b) = wrap64 (a - b)"
  by (rule wrap64_cong) (metis mod_diff_left_eq wrap64_mod)

lemma wrap64_diff_right [i64_simps]: "wrap64 (a - wrap64 b) = wrap64 (a - b)"
  by (rule wrap64_cong) (metis mod_diff_right_eq wrap64_mod)

lemma add64_exact [i64_simps]: "in_i64 (a + b) \<Longrightarrow> add64 a b = a + b"
  by (simp add: add64_def wrap64_id)

lemma sub64_exact [i64_simps]: "in_i64 (a - b) \<Longrightarrow> sub64 a b = a - b"
  by (simp add: sub64_def wrap64_id)

text \<open>Counting up below a 64-bit bound never wraps: the progress of every counting loop.\<close>

lemma add64_Suc_gt:
  assumes "i < b" and "in_i64 b"
  shows "i < add64 i 1"
proof (cases "in_i64 i")
  case True
  with assms show ?thesis
    by (auto simp: add64_exact in_i64_def)
next
  case False
  with assms have "i < - (2 ^ 63)" by (auto simp: in_i64_def)
  moreover have "- (2 ^ 63) \<le> add64 i 1"
    using in_i64_add64 [of i 1] by (simp add: in_i64_def)
  ultimately show ?thesis by linarith
qed

lemma sat64_ge_iff: "in_i64 d \<Longrightarrow> 0 < d \<Longrightarrow> d \<le> sat64 x \<longleftrightarrow> d \<le> x"
  by (auto simp: sat64_def in_i64_def)

lemma map_of_gm_put [gomap_simps]: "map_of (gm_put k v m) = (map_of m)(k \<mapsto> v)"
  by (rule update_conv')

lemma map_of_gm_del [gomap_simps]: "map_of (gm_del k m) = (map_of m)(k := None)"
  by (rule delete_conv')

lemma gm_wf_put [simp]: "gm_wf m \<Longrightarrow> gm_wf (gm_put k v m)"
  by (rule distinct_update)

lemma gm_wf_del [simp]: "gm_wf m \<Longrightarrow> gm_wf (gm_del k m)"
  by (rule distinct_delete)

lemma gm_has_put [gomap_simps]: "gm_has (gm_put k v m) k' \<longleftrightarrow> k' = k \<or> gm_has m k'"
  by (auto simp: gm_has_def map_of_gm_put)

lemma gm_has_del [gomap_simps]: "gm_has (gm_del k m) k' \<longleftrightarrow> k' \<noteq> k \<and> gm_has m k'"
  by (auto simp: gm_has_def map_of_gm_del)

lemma gm_has_conv_set: "gm_has m k \<longleftrightarrow> k \<in> fst ` set m"
  by (auto simp: gm_has_def map_of_eq_None_iff)

lemma gm_get_in_set: "gm_wf m \<Longrightarrow> (k, v) \<in> set m \<longleftrightarrow> gm_get m k = Some v"
  by simp

lemma set_gm_put:
  "gm_wf m \<Longrightarrow> set (gm_put k v m) = insert (k, v) {e \<in> set m. fst e \<noteq> k}"
  by (induction m) (auto simp: image_iff)

lemma set_gm_del: "set (gm_del k m) = {e \<in> set m. fst e \<noteq> k}"
  by (auto simp: AList.delete_eq)

lemma gm_grows_refl [simp]: "gm_grows f m m"
  by (simp add: gm_grows_def)

lemma gm_grows_trans: "gm_grows f m m' \<Longrightarrow> gm_grows f m' m'' \<Longrightarrow> gm_grows f m m''"
  by (auto simp: gm_grows_def) metis

lemma gm_grows_put_new: "\<not> gm_has m k \<Longrightarrow> gm_grows f m (gm_put k v m)"
  by (auto simp: gm_grows_def gm_has_def gomap_simps)

lemma gm_grows_put_same: "gm_get m k = Some v0 \<Longrightarrow> f v = f v0 \<Longrightarrow> gm_grows f m (gm_put k v m)"
  by (auto simp: gm_grows_def gomap_simps)

lemma gm_growsD: "gm_grows f m m' \<Longrightarrow> gm_get m k = Some v \<Longrightarrow> \<exists>v'. gm_get m' k = Some v' \<and> f v' = f v"
  by (auto simp: gm_grows_def)

text \<open>
  Sorting with a key that tells the elements apart does not depend on the order of the
  input: the listings of a map do not depend on its iteration order.
\<close>

lemma sort_key_mset_cong:
  assumes "mset xs = mset ys" and "inj_on f (set xs)"
  shows "sort_key f xs = sort_key f ys"
  using assms by (intro sort_key_inj_key_eq) simp_all

lemma gm_values_inj:
  "gm_wf m \<Longrightarrow> list_all (\<lambda>(k, v). g v = k) m \<Longrightarrow> inj_on g (snd ` set m)"
proof (rule inj_onI)
  fix v w
  assume wf: "gm_wf m" and keys: "list_all (\<lambda>(k, v). g v = k) m"
    and eq: "g v = g w" and in_m: "v \<in> snd ` set m" "w \<in> snd ` set m"
  have filed: "(g u, u) \<in> set m" if "u \<in> snd ` set m" for u
  proof -
    from that obtain k where k: "(k, u) \<in> set m" by auto
    then have "g u = k" using keys by (auto simp: list_all_iff)
    with k show ?thesis by simp
  qed
  have "map_of m (g v) = Some v" by (rule map_of_is_SomeI [OF wf filed [OF in_m(1)]])
  moreover have "map_of m (g v) = Some w"
    unfolding eq by (rule map_of_is_SomeI [OF wf filed [OF in_m(2)]])
  ultimately show "v = w" by (rule option.inject [THEN iffD1, OF trans [OF sym]])
qed

text \<open>In a strictly ordered list, what comes after an element is what lies above it.\<close>

lemma filter_above_nth:
  assumes "sorted_wrt (<) (map f xs)" and "i < length xs"
  shows "filter (\<lambda>x. f (xs ! i) < (f x :: int)) xs = drop (Suc i) xs"
proof -
  have below: "f x \<le> f (xs ! i)" if "x \<in> set (take (Suc i) xs)" for x
  proof -
    from that obtain j where "j < Suc i" "x = xs ! j" "j < length xs"
      by (auto simp: in_set_conv_nth)
    then show ?thesis
      using sorted_wrt_nth_less [OF assms(1), of j i] assms(2) by (cases "j = i") auto
  qed
  have above: "f (xs ! i) < f x" if "x \<in> set (drop (Suc i) xs)" for x
  proof -
    from that obtain j where "x = xs ! (Suc i + j)" "Suc i + j < length xs"
      by (auto simp: in_set_conv_nth)
    then show ?thesis
      using sorted_wrt_nth_less [OF assms(1), of i "Suc i + j"] assms(2) by simp
  qed
  have "filter (\<lambda>x. f (xs ! i) < f x) (take (Suc i) xs) = []"
    using below by (auto simp: filter_empty_conv not_less)
  moreover have "filter (\<lambda>x. f (xs ! i) < f x) (drop (Suc i) xs) = drop (Suc i) xs"
    using above by (simp add: filter_id_conv)
  moreover have "filter (\<lambda>x. f (xs ! i) < f x) xs
      = filter (\<lambda>x. f (xs ! i) < f x) (take (Suc i) xs) @ filter (\<lambda>x. f (xs ! i) < f x) (drop (Suc i) xs)"
    by (metis append_take_drop_id filter_append)
  ultimately show ?thesis by simp
qed

section \<open>Machines\<close>

text \<open>A machine whose admissible operations keep an invariant keeps it along every run.\<close>

locale machine =
  fixes step :: "'e \<Rightarrow> 's \<Rightarrow> 's"
    and inv :: "'s \<Rightarrow> bool"
    and ok :: "'e \<Rightarrow> bool"
  assumes inv_step: "inv s \<Longrightarrow> ok e \<Longrightarrow> inv (step e s)"
begin

lemma inv_run: "inv s \<Longrightarrow> list_all ok es \<Longrightarrow> inv (fold step es s)"
  by (induction es arbitrary: s) (simp_all add: inv_step)

end

text \<open>A machine whose states evolve along a preorder does so along every run.\<close>

locale evolution = machine +
  fixes le :: "'s \<Rightarrow> 's \<Rightarrow> bool"
  assumes le_refl: "le s s"
    and le_trans: "le s s' \<Longrightarrow> le s' s'' \<Longrightarrow> le s s''"
    and le_step: "inv s \<Longrightarrow> ok e \<Longrightarrow> le s (step e s)"
begin

lemma le_run: "inv s \<Longrightarrow> list_all ok es \<Longrightarrow> le s (fold step es s)"
proof (induction es arbitrary: s)
  case Nil
  show ?case by (simp add: le_refl)
next
  case (Cons e es)
  then have "le s (step e s)" "le (step e s) (fold step es (step e s))"
    by (simp_all add: le_step inv_step)
  then show ?case using le_trans by simp
qed

end

end
