(* ===== verification/GoStrings.thy ===== *)
theory GoStrings
  imports Prelude
begin

text \<open>
  The parts of Go's \<open>strings\<close>, \<open>strconv\<close>, \<open>unicode/utf8\<close> and \<open>fmt\<close> packages that the
  program uses. A Go string is a sequence of bytes, here a \<open>char list\<close> (a \<open>char\<close> is a
  byte). White space is Unicode white space in UTF-8; lower-casing is exact on ASCII and
  takes the Unicode case table as a parameter otherwise, as \<open>strings.ToLower\<close> does.
\<close>

section \<open>Process environment\<close>

text \<open>\<open>os.Getenv\<close> and Go's Unicode case table (used for strings that are not ASCII).\<close>

record goenv =
  Getenv :: "string \<Rightarrow> string"
  unicode_ToLower :: "string \<Rightarrow> string"

section \<open>White space\<close>

definition space_seqs :: "string list" where
  "space_seqs =
    [[CHR 0x20], [CHR 0x09], [CHR 0x0A], [CHR 0x0B], [CHR 0x0C], [CHR 0x0D],
     [CHR 0xC2, CHR 0x85], [CHR 0xC2, CHR 0xA0], [CHR 0xE1, CHR 0x9A, CHR 0x80],
     [CHR 0xE2, CHR 0x80, CHR 0x80], [CHR 0xE2, CHR 0x80, CHR 0x81],
     [CHR 0xE2, CHR 0x80, CHR 0x82], [CHR 0xE2, CHR 0x80, CHR 0x83],
     [CHR 0xE2, CHR 0x80, CHR 0x84], [CHR 0xE2, CHR 0x80, CHR 0x85],
     [CHR 0xE2, CHR 0x80, CHR 0x86], [CHR 0xE2, CHR 0x80, CHR 0x87],
     [CHR 0xE2, CHR 0x80, CHR 0x88], [CHR 0xE2, CHR 0x80, CHR 0x89],
     [CHR 0xE2, CHR 0x80, CHR 0x8A], [CHR 0xE2, CHR 0x80, CHR 0xA8],
     [CHR 0xE2, CHR 0x80, CHR 0xA9], [CHR 0xE2, CHR 0x80, CHR 0xAF],
     [CHR 0xE2, CHR 0x81, CHR 0x9F], [CHR 0xE3, CHR 0x80, CHR 0x80]]"

definition find_prefix :: "string list \<Rightarrow> string \<Rightarrow> string option" where
  "find_prefix ps s = find (\<lambda>p. p \<noteq> [] \<and> prefix p s) ps"

function trim_with :: "string list \<Rightarrow> string \<Rightarrow> string" where
  "trim_with ps s =
     (case find_prefix ps s of None \<Rightarrow> s | Some p \<Rightarrow> trim_with ps (drop (length p) s))"
  by pat_completeness auto
termination
  by (relation "measure (\<lambda>(ps, s). length s)")
    (auto simp: find_prefix_def find_Some_iff prefix_def)

declare trim_with.simps [simp del]

definition TrimSpace :: "string \<Rightarrow> string" where
  "TrimSpace s = rev (trim_with (map rev space_seqs) (rev (trim_with space_seqs s)))"

function fields_from :: "string \<Rightarrow> string \<Rightarrow> string list" where
  "fields_from cur s =
     (case find_prefix space_seqs s of
        Some p \<Rightarrow> (if cur = [] then [] else [cur]) @ fields_from [] (drop (length p) s)
      | None \<Rightarrow> (case s of
            [] \<Rightarrow> (if cur = [] then [] else [cur])
          | c # cs \<Rightarrow> fields_from (cur @ [c]) cs))"
  by pat_completeness auto
termination
  by (relation "measure (\<lambda>(cur, s). length s)")
    (auto simp: find_prefix_def find_Some_iff prefix_def)

declare fields_from.simps [simp del]

definition Fields :: "string \<Rightarrow> string list" where
  "Fields s = fields_from [] s"

section \<open>Case, substrings, splitting\<close>

definition ascii :: "char \<Rightarrow> bool" where
  "ascii c \<longleftrightarrow> (of_char c :: nat) < 128"

definition ascii_lower :: "char \<Rightarrow> char" where
  "ascii_lower c =
     (case map_of (zip ''ABCDEFGHIJKLMNOPQRSTUVWXYZ'' ''abcdefghijklmnopqrstuvwxyz'') c of
        Some l \<Rightarrow> l | None \<Rightarrow> c)"

definition ToLower :: "goenv \<Rightarrow> string \<Rightarrow> string" where
  "ToLower E s = (if list_all ascii s then map ascii_lower s else unicode_ToLower E s)"

fun Contains :: "string \<Rightarrow> string \<Rightarrow> bool" where
  "Contains [] sub = (sub = [])"
| "Contains (c # cs) sub = (prefix sub (c # cs) \<or> Contains cs sub)"

definition HasPrefix :: "string \<Rightarrow> string \<Rightarrow> bool" where
  "HasPrefix s p \<longleftrightarrow> prefix p s"

definition HasSuffix :: "string \<Rightarrow> string \<Rightarrow> bool" where
  "HasSuffix s p \<longleftrightarrow> suffix p s"

definition TrimPrefix :: "string \<Rightarrow> string \<Rightarrow> string" where
  "TrimPrefix s p = (if prefix p s then drop (length p) s else s)"

text \<open>\<open>strings.Split\<close> with a separator that is not empty.\<close>

function split_from :: "string \<Rightarrow> string \<Rightarrow> string \<Rightarrow> string list" where
  "split_from sep cur s =
     (if sep \<noteq> [] \<and> prefix sep s then cur # split_from sep [] (drop (length sep) s)
      else case s of [] \<Rightarrow> [cur] | c # cs \<Rightarrow> split_from sep (cur @ [c]) cs)"
  by pat_completeness auto
termination
  by (relation "measure (\<lambda>(sep, cur, s). length s)") (auto simp: prefix_def)

declare split_from.simps [simp del]

definition Split :: "string \<Rightarrow> string \<Rightarrow> string list" where
  "Split s sep = split_from sep [] s"

fun Join :: "string list \<Rightarrow> string \<Rightarrow> string" where
  "Join [] sep = []"
| "Join [x] sep = x"
| "Join (x # y # xs) sep = x @ sep @ Join (y # xs) sep"

section \<open>Decimal and hexadecimal text\<close>

definition digit_char :: "nat \<Rightarrow> char" where
  "digit_char d = ''0123456789'' ! d"

fun dec_nat :: "nat \<Rightarrow> string" where
  "dec_nat n = (if n < 10 then [digit_char n] else dec_nat (n div 10) @ [digit_char (n mod 10)])"

declare dec_nat.simps [simp del]

text \<open>The verbs \<open>%d\<close> and \<open>%08d\<close> of \<open>fmt.Sprintf\<close>.\<close>

definition fmt_d :: "int \<Rightarrow> string" where
  "fmt_d i = (if i < 0 then CHR ''-'' # dec_nat (nat (- i)) else dec_nat (nat i))"

definition fmt_08d :: "int \<Rightarrow> string" where
  "fmt_08d i =
     (if i < 0
      then CHR ''-'' # replicate (7 - length (dec_nat (nat (- i)))) CHR ''0'' @ dec_nat (nat (- i))
      else replicate (8 - length (dec_nat (nat i))) CHR ''0'' @ dec_nat (nat i))"

definition is_digit :: "char \<Rightarrow> bool" where
  "is_digit c \<longleftrightarrow> 48 \<le> (of_char c :: nat) \<and> (of_char c :: nat) \<le> 57"

definition digit_val :: "char \<Rightarrow> nat" where
  "digit_val c = of_char c - 48"

definition parse_digits :: "string \<Rightarrow> nat option" where
  "parse_digits s =
     (if s \<noteq> [] \<and> list_all is_digit s then Some (foldl (\<lambda>a c. 10 * a + digit_val c) 0 s)
      else None)"

text \<open>\<open>strconv.Atoi\<close>: an optional sign, digits, and a result that fits 64 bits.\<close>

definition Atoi :: "string \<Rightarrow> int64 option" where
  "Atoi s =
     (let (neg, ds) = (case s of
          [] \<Rightarrow> (False, [])
        | c # cs \<Rightarrow> if c = CHR ''-'' then (True, cs)
                     else if c = CHR ''+'' then (False, cs) else (False, s))
      in case parse_digits ds of
           None \<Rightarrow> None
         | Some n \<Rightarrow> (let i = (if neg then - int n else int n)
                       in if in_i64 i then Some i else None))"

definition hex_char :: "nat \<Rightarrow> char" where
  "hex_char d = ''0123456789abcdef'' ! d"

text \<open>\<open>%x\<close> of a byte slice.\<close>

definition fmt_x :: "nat list \<Rightarrow> string" where
  "fmt_x bs = concat (map (\<lambda>b. [hex_char (b div 16 mod 16), hex_char (b mod 16)]) bs)"

section \<open>UTF-8\<close>

definition cont_byte :: "nat \<Rightarrow> bool" where
  "cont_byte b \<longleftrightarrow> 0x80 \<le> b \<and> b \<le> 0xBF"

definition second_ok :: "nat \<Rightarrow> nat \<Rightarrow> bool" where
  "second_ok b0 b1 =
     (if b0 = 0xE0 then 0xA0 \<le> b1 \<and> b1 \<le> 0xBF
      else if b0 = 0xED then 0x80 \<le> b1 \<and> b1 \<le> 0x9F
      else if b0 = 0xF0 then 0x90 \<le> b1 \<and> b1 \<le> 0xBF
      else if b0 = 0xF4 then 0x80 \<le> b1 \<and> b1 \<le> 0x8F
      else cont_byte b1)"

definition rune_error :: nat where
  "rune_error = 0xFFFD"

text \<open>\<open>utf8.DecodeRune\<close>: the first code point and the number of bytes it takes.\<close>

fun decode_rune :: "nat list \<Rightarrow> nat \<times> nat" where
  "decode_rune [] = (rune_error, 0)"
| "decode_rune (b0 # bs) =
     (if b0 < 0x80 then (b0, 1)
      else if 0xC2 \<le> b0 \<and> b0 \<le> 0xDF \<and> 1 \<le> length bs \<and> cont_byte (bs ! 0)
        then (b0 mod 32 * 64 + bs ! 0 mod 64, 2)
      else if 0xE0 \<le> b0 \<and> b0 \<le> 0xEF \<and> 2 \<le> length bs \<and> second_ok b0 (bs ! 0) \<and> cont_byte (bs ! 1)
        then (b0 mod 16 * 4096 + bs ! 0 mod 64 * 64 + bs ! 1 mod 64, 3)
      else if 0xF0 \<le> b0 \<and> b0 \<le> 0xF4 \<and> 3 \<le> length bs \<and> second_ok b0 (bs ! 0)
           \<and> cont_byte (bs ! 1) \<and> cont_byte (bs ! 2)
        then (b0 mod 8 * 262144 + bs ! 0 mod 64 * 4096 + bs ! 1 mod 64 * 64 + bs ! 2 mod 64, 4)
      else (rune_error, 1))"

lemma decode_rune_size: "bs \<noteq> [] \<Longrightarrow> 1 \<le> snd (decode_rune bs)"
  by (cases bs) auto

function runes_of :: "nat list \<Rightarrow> nat list" where
  "runes_of [] = []"
| "runes_of (b # bs) =
     fst (decode_rune (b # bs)) # runes_of (drop (snd (decode_rune (b # bs))) (b # bs))"
  by pat_completeness auto
termination
proof (relation "measure length")
  fix b :: nat and bs :: "nat list"
  show "(drop (snd (decode_rune (b # bs))) (b # bs), b # bs) \<in> measure length"
    using decode_rune_size [of "b # bs"] by (simp del: decode_rune.simps)
qed simp

declare runes_of.simps [simp del]

definition valid_rune :: "nat \<Rightarrow> bool" where
  "valid_rune r \<longleftrightarrow> r < 0xD800 \<or> (0xE000 \<le> r \<and> r \<le> 0x10FFFF)"

text \<open>\<open>utf8.AppendRune\<close>; a value that is no code point is written as U+FFFD.\<close>

definition encode_rune :: "nat \<Rightarrow> nat list" where
  "encode_rune r0 =
     (let r = (if valid_rune r0 then r0 else rune_error)
      in if r \<le> 0x7F then [r]
         else if r \<le> 0x7FF then [0xC0 + r div 64, 0x80 + r mod 64]
         else if r \<le> 0xFFFF then [0xE0 + r div 4096, 0x80 + r div 64 mod 64, 0x80 + r mod 64]
         else [0xF0 + r div 262144, 0x80 + r div 4096 mod 64, 0x80 + r div 64 mod 64, 0x80 + r mod 64])"

text \<open>The conversions \<open>[]rune(s)\<close> and \<open>string(rs)\<close>.\<close>

definition runes :: "string \<Rightarrow> nat list" where
  "runes s = runes_of (map of_char s)"

definition string_of_runes :: "nat list \<Rightarrow> string" where
  "string_of_runes rs = map char_of (concat (map encode_rune rs))"

definition RuneCountInString :: "string \<Rightarrow> nat" where
  "RuneCountInString s = length (runes s)"

section \<open>Lemmas on trimming\<close>

lemma trim_with_None: "find_prefix ps (trim_with ps s) = None"
proof (induction ps s rule: trim_with.induct)
  case (1 ps s)
  then show ?case
    by (cases "find_prefix ps s") (simp_all add: trim_with.simps [of ps s])
qed

lemma trim_with_fix: "find_prefix ps s = None \<Longrightarrow> trim_with ps s = s"
  by (simp add: trim_with.simps [of ps s])

lemma trim_with_suffix: "suffix (trim_with ps s) s"
proof (induction ps s rule: trim_with.induct)
  case (1 ps s)
  show ?case
  proof (cases "find_prefix ps s")
    case None
    then show ?thesis by (simp add: trim_with_fix)
  next
    case (Some p)
    with "1" have "suffix (trim_with ps (drop (length p) s)) (drop (length p) s)"
      by simp
    then show ?thesis
      by (metis Some option.simps(5) suffix_drop suffix_order.trans trim_with.simps)
  qed
qed

lemma find_prefix_prefix:
  "find_prefix ps s = None \<Longrightarrow> prefix s' s \<Longrightarrow> find_prefix ps s' = None"
  unfolding find_prefix_def find_None_iff by (metis prefix_order.trans)

text \<open>Trimming twice is trimming once.\<close>

lemma TrimSpace_idem [simp]: "TrimSpace (TrimSpace s) = TrimSpace s"
proof -
  let ?l = "trim_with space_seqs s"
  let ?r = "trim_with (map rev space_seqs) (rev ?l)"
  have pre: "prefix (rev ?r) ?l"
    using trim_with_suffix [of "map rev space_seqs" "rev ?l"] by (simp add: suffix_to_prefix)
  have "find_prefix space_seqs (rev ?r) = None"
    by (rule find_prefix_prefix [OF trim_with_None pre])
  then have "trim_with space_seqs (rev ?r) = rev ?r"
    by (rule trim_with_fix)
  then show ?thesis
    by (simp add: TrimSpace_def trim_with_fix [OF trim_with_None])
qed

lemma length_TrimSpace: "length (TrimSpace s) \<le> length s"
  using suffix_length_le [OF trim_with_suffix [of space_seqs s]]
    suffix_length_le [OF trim_with_suffix [of "map rev space_seqs" "rev (trim_with space_seqs s)"]]
  by (simp add: TrimSpace_def)

section \<open>Lemmas on decimal text\<close>

lemma digit_char_props:
  assumes "d < 10"
  shows "is_digit (digit_char d)" and "digit_val (digit_char d) = d"
    and "digit_char d \<noteq> CHR ''#''" and "digit_char d \<noteq> CHR ''-''" and "digit_char d \<noteq> CHR ''+''"
proof -
  have "d \<in> {0, 1, 2, 3, 4, 5, 6, 7, 8, 9}" using assms by auto
  then show "is_digit (digit_char d)" and "digit_val (digit_char d) = d"
    and "digit_char d \<noteq> CHR ''#''" and "digit_char d \<noteq> CHR ''-''" and "digit_char d \<noteq> CHR ''+''"
    by (auto simp: is_digit_def digit_val_def digit_char_def)
qed

lemma dec_nat_digits: "list_all is_digit (dec_nat n)"
proof (induction n rule: dec_nat.induct)
  case (1 n)
  then show ?case by (subst dec_nat.simps) (auto simp: digit_char_props)
qed

lemma dec_nat_nonempty [simp]: "dec_nat n \<noteq> []"
  by (subst dec_nat.simps) simp

lemma foldl_dec_nat: "foldl (\<lambda>a c. 10 * a + digit_val c) 0 (dec_nat n) = n"
proof (induction n rule: dec_nat.induct)
  case (1 n)
  then show ?case
    by (subst dec_nat.simps) (auto simp: digit_char_props)
qed

lemma foldl_zeros:
  "foldl (\<lambda>a c. 10 * a + digit_val c) 0 (replicate k CHR ''0'' @ s) =
   foldl (\<lambda>a c. 10 * a + digit_val c) 0 s"
  by (induction k) (simp_all add: digit_val_def)

lemma parse_digits_padded: "parse_digits (replicate k CHR ''0'' @ dec_nat n) = Some n"
  using foldl_zeros [of k "dec_nat n"] dec_nat_digits [of n]
  by (auto simp: parse_digits_def foldl_dec_nat is_digit_def list_all_iff)

lemma digit_not_sign: "is_digit c \<Longrightarrow> c \<noteq> CHR ''-'' \<and> c \<noteq> CHR ''+'' \<and> c \<noteq> CHR ''#''"
  by (auto simp: is_digit_def)

lemma Atoi_digits:
  assumes "parse_digits s = Some n" and "in_i64 (int n)"
  shows "Atoi s = Some (int n)"
proof (cases s)
  case Nil
  with assms show ?thesis by (simp add: parse_digits_def)
next
  case (Cons c cs)
  with assms(1) have "is_digit c" by (auto simp: parse_digits_def split: if_splits)
  with Cons assms digit_not_sign [of c] show ?thesis by (simp add: Atoi_def)
qed

lemma Atoi_minus:
  "parse_digits s = Some n \<Longrightarrow> in_i64 (- int n) \<Longrightarrow> Atoi (CHR ''-'' # s) = Some (- int n)"
  by (simp add: Atoi_def)

text \<open>What \<open>%d\<close> and \<open>%08d\<close> print, \<open>strconv.Atoi\<close> reads back.\<close>

lemma Atoi_fmt_d: "in_i64 i \<Longrightarrow> Atoi (fmt_d i) = Some i"
  using parse_digits_padded [of 0] Atoi_digits [of "dec_nat (nat i)" "nat i"]
    Atoi_minus [of "dec_nat (nat (- i))" "nat (- i)"]
  by (auto simp: fmt_d_def)

lemma parse_fmt_08d:
  "0 \<le> i \<Longrightarrow> parse_digits (fmt_08d i) = Some (nat i)"
  "i < 0 \<Longrightarrow> \<exists>ds. fmt_08d i = CHR ''-'' # ds \<and> parse_digits ds = Some (nat (- i))"
  by (simp_all add: fmt_08d_def parse_digits_padded)

lemma fmt_08d_inj: "fmt_08d i = fmt_08d j \<longleftrightarrow> i = j"
proof
  assume eq: "fmt_08d i = fmt_08d j"
  have no_minus: "\<And>k ds. 0 \<le> k \<Longrightarrow> fmt_08d k \<noteq> CHR ''-'' # ds"
  proof
    fix k ds assume "0 \<le> (k::int)" and "fmt_08d k = CHR ''-'' # ds"
    with parse_fmt_08d(1) [of k] have "parse_digits (CHR ''-'' # ds) = Some (nat k)" by simp
    then show False by (simp add: parse_digits_def is_digit_def split: if_splits)
  qed
  show "i = j"
  proof (cases "0 \<le> i")
    case True
    with eq no_minus parse_fmt_08d(2) [of j] have "0 \<le> j" by force
    with True eq parse_fmt_08d(1) [of i] parse_fmt_08d(1) [of j] show ?thesis by simp
  next
    case False
    with eq no_minus [of j] parse_fmt_08d(2) [of i] have "j < 0" by force
    with False eq parse_fmt_08d(2) [of i] parse_fmt_08d(2) [of j] show ?thesis by force
  qed
qed simp

lemma hash_notin_fmt_08d: "CHR ''#'' \<notin> set (fmt_08d i)"
  using dec_nat_digits [of "nat i"] dec_nat_digits [of "nat (- i)"] digit_not_sign
  by (auto simp: fmt_08d_def list_all_iff)

section \<open>Lemmas on joined keys\<close>

lemma join_first_sep:
  "a @ c # b = a' @ c # b' \<Longrightarrow> c \<notin> set a \<Longrightarrow> c \<notin> set a' \<Longrightarrow> a = a' \<and> b = b'"
proof (induction a arbitrary: a')
  case Nil
  then show ?case by (cases a') auto
next
  case (Cons x a)
  then show ?case by (cases a') auto
qed

lemma join_last_sep:
  assumes "a @ c # b = a' @ c # b'" and "c \<notin> set b" and "c \<notin> set b'"
  shows "a = a' \<and> b = b'"
proof -
  from assms(1) have "rev (a @ c # b) = rev (a' @ c # b')" by simp
  then have "rev b @ c # rev a = rev b' @ c # rev a'" by simp
  with join_first_sep [of "rev b" c "rev a" "rev b'" "rev a'"] assms(2,3)
  show ?thesis by simp
qed

end
