(* ===== verification/GoFloat.thy ===== *)
theory GoFloat
  imports Complex_Main GoStrings
begin

text \<open>
  Go's \<open>float64\<close> on finite values: a value is the rational it denotes, and every
  operation rounds its exact result to the nearest double (ties to even, 53 bits of
  significand, gradual underflow at exponent -1074). Infinities and NaN are outside the
  model: the program's floats are read from JSON, which has neither, or computed from
  token counts and price rates far below the overflow threshold. Money is kept in these
  values, so the lemmas give what the cost accounting relies on: rounding is monotone,
  keeps signs, and leaves doubles alone.
\<close>

section \<open>Rounding to the nearest double\<close>

type_synonym float64 = rat

fun bit_length :: "nat \<Rightarrow> nat" where
  "bit_length n = (if n = 0 then 0 else Suc (bit_length (n div 2)))"

declare bit_length.simps [simp del]

text \<open>The exponent of the leading bit of a positive rational.\<close>

definition floor_log2 :: "rat \<Rightarrow> int" where
  "floor_log2 x =
     (let (n, d) = quotient_of x;
          k = int (bit_length (nat n)) - int (bit_length (nat d))
      in if 2 powi k \<le> x then k else k - 1)"

definition round_half_even :: "rat \<Rightarrow> int" where
  "round_half_even x =
     (let f = \<lfloor>x\<rfloor>; r = x - of_int f
      in if r < 1 / 2 then f else if 1 / 2 < r then f + 1 else if even f then f else f + 1)"

definition ulp_exp :: "rat \<Rightarrow> int" where
  "ulp_exp x = max (floor_log2 x - 52) (- 1074)"

definition f64_pos :: "rat \<Rightarrow> rat" where
  "f64_pos x = of_int (round_half_even (x / 2 powi ulp_exp x)) * 2 powi ulp_exp x"

definition f64 :: "rat \<Rightarrow> float64" where
  "f64 x = (if x = 0 then 0 else if 0 < x then f64_pos x else - f64_pos (- x))"

definition f64_add :: "float64 \<Rightarrow> float64 \<Rightarrow> float64" where
  "f64_add a b = f64 (a + b)"

definition f64_sub :: "float64 \<Rightarrow> float64 \<Rightarrow> float64" where
  "f64_sub a b = f64 (a - b)"

definition f64_mul :: "float64 \<Rightarrow> float64 \<Rightarrow> float64" where
  "f64_mul a b = f64 (a * b)"

definition f64_div :: "float64 \<Rightarrow> float64 \<Rightarrow> float64" where
  "f64_div a b = f64 (a / b)"

text \<open>The conversion \<open>float64(i)\<close> of an integer.\<close>

definition f64_of_int :: "int \<Rightarrow> float64" where
  "f64_of_int i = f64 (of_int i)"

text \<open>
  The verb \<open>%.nf\<close>: the exact value rounded to \<open>n\<close> decimals (half to even, as
  \<open>strconv\<close> does on the exact binary value), the sign of a value that rounds to zero kept.
\<close>

definition pad_zeros :: "nat \<Rightarrow> string \<Rightarrow> string" where
  "pad_zeros n ds = replicate (n - length ds) (CHR ''0'') @ ds"

definition fmt_f :: "nat \<Rightarrow> float64 \<Rightarrow> string" where
  "fmt_f n x =
     (let k = nat (round_half_even (\<bar>x\<bar> * 10 ^ n))
      in (if x < 0 then ''-'' else []) @ dec_nat (k div 10 ^ n)
         @ (if n = 0 then [] else CHR ''.'' # pad_zeros n (dec_nat (k mod 10 ^ n))))"

text \<open>
  \<open>strconv.ParseFloat\<close> on decimal numbers: a sign, digits with an optional fraction, an
  optional exponent; an error on other syntax and on values out of range. (Its hexadecimal
  syntax, and the texts for infinities and NaN, are outside the model.)
\<close>

definition read_sign :: "string \<Rightarrow> bool \<times> string" where
  "read_sign s = (case s of
       [] \<Rightarrow> (False, [])
     | c # cs \<Rightarrow> if c = CHR ''-'' then (True, cs) else if c = CHR ''+'' then (False, cs) else (False, s))"

definition ParseFloat :: "string \<Rightarrow> float64 option" where
  "ParseFloat s0 =
     (let (neg, s) = read_sign s0;
          ip = takeWhile is_digit s; r1 = dropWhile is_digit s;
          (fp, r2) = (case r1 of
              [] \<Rightarrow> ([], [])
            | c # cs \<Rightarrow> if c = CHR ''.'' then (takeWhile is_digit cs, dropWhile is_digit cs) else ([], r1));
          ex = (case r2 of
              [] \<Rightarrow> Some 0
            | c # cs \<Rightarrow> if c = CHR ''e'' \<or> c = CHR ''E''
                         then (let (eneg, ds) = read_sign cs
                               in map_option (\<lambda>n. if eneg then - int n else int n) (parse_digits ds))
                         else None)
      in case (parse_digits (ip @ fp), ex) of
           (Some n, Some e) \<Rightarrow>
             let x = f64 (of_nat n * 10 powi (e - int (length fp)))
             in if 2 ^ 1024 \<le> x then None else Some (if neg then - x else x)
         | _ \<Rightarrow> None)"

definition is_f64 :: "rat \<Rightarrow> bool" where
  "is_f64 x \<longleftrightarrow> f64 x = x"

section \<open>Lemmas\<close>

lemma bit_length_bounds:
  assumes "0 < n"
  shows "2 ^ (bit_length n - 1) \<le> n \<and> n < 2 ^ bit_length n \<and> 0 < bit_length n"
  using assms
proof (induction n rule: bit_length.induct)
  case (1 n)
  show ?case
  proof (cases "n div 2 = 0")
    case True
    with "1.prems" have "n = 1" by auto
    then show ?thesis by (simp add: bit_length.simps)
  next
    case False
    let ?k = "bit_length (n div 2)"
    have IH: "2 ^ (?k - 1) \<le> n div 2 \<and> n div 2 < 2 ^ ?k \<and> 0 < ?k"
      using "1.IH" "1.prems" False by simp
    have bl: "bit_length n = Suc ?k"
      using "1.prems" by (subst bit_length.simps) simp
    have dbl: "2 ^ ?k = 2 * (2 ^ (?k - 1) :: nat)"
      using IH by (metis Suc_diff_1 power_Suc)
    have "2 ^ ?k \<le> n" and "n < 2 * 2 ^ ?k"
      using IH dbl by linarith+
    with bl show ?thesis by simp
  qed
qed

lemma powi_step: "(2 :: rat) powi (k + 1) = 2 * 2 powi k"
  by (simp add: power_int_add)

lemma powi_add: "(2 :: rat) powi a * 2 powi b = 2 powi (a + b)"
  by (simp add: power_int_add)

lemma powi_nat: "0 \<le> k \<Longrightarrow> (2 :: rat) powi k = of_int (2 ^ nat k)"
  by (simp add: power_int_def)

lemma powi_quot: "(2 :: rat) powi (k + a) / 2 powi k = 2 powi a"
  by (simp add: power_int_add)

lemma powi_mono: "a \<le> b \<Longrightarrow> (2 :: rat) powi a \<le> 2 powi b"
  by (simp add: power_int_increasing)

lemma powi_less_iff: "(2 :: rat) powi a < 2 powi b \<longleftrightarrow> a < b"
proof
  assume "(2 :: rat) powi a < 2 powi b"
  then show "a < b" using powi_mono [of b a] by linarith
next
  assume "a < b"
  then have "(2 :: rat) powi (a + 1) \<le> 2 powi b" by (simp add: powi_mono)
  moreover have "(2 :: rat) powi a < 2 powi (a + 1)" by (simp add: powi_step)
  ultimately show "(2 :: rat) powi a < 2 powi b" by linarith
qed

lemma bit_length_powi:
  assumes "0 < n"
  shows "2 powi (int (bit_length (nat n)) - 1) \<le> (of_int n :: rat)"
    and "(of_int n :: rat) < 2 powi int (bit_length (nat n))"
proof -
  let ?b = "bit_length (nat n)"
  have b: "2 ^ (?b - 1) \<le> nat n \<and> nat n < 2 ^ ?b \<and> 0 < ?b"
    by (rule bit_length_bounds) (use assms in simp)
  then have "int (2 ^ (?b - 1)) \<le> int (nat n)" and "int (nat n) < int (2 ^ ?b)"
    by (simp_all only: of_nat_le_iff of_nat_less_iff)
  then have i: "2 ^ (?b - 1) \<le> n" "n < 2 ^ ?b" using assms by simp_all
  have "nat (int ?b - 1) = ?b - 1" and "0 \<le> int ?b - 1" using b by linarith+
  then have "2 powi (int ?b - 1) = (of_int (2 ^ (?b - 1)) :: rat)"
    using powi_nat [of "int ?b - 1"] by (simp only:)
  with i(1) show "2 powi (int ?b - 1) \<le> (of_int n :: rat)" by (simp only: of_int_le_iff)
  have "2 powi int ?b = (of_int (2 ^ ?b) :: rat)"
    using powi_nat [of "int ?b"] by (simp only: nat_int of_nat_0_le_iff)
  with i(2) show "(of_int n :: rat) < 2 powi int ?b" by (simp only: of_int_less_iff)
qed

lemma floor_log2_bounds:
  assumes "0 < x"
  shows "2 powi floor_log2 x \<le> x \<and> x < 2 powi (floor_log2 x + 1)"
proof -
  obtain n d where q: "quotient_of x = (n, d)" by fastforce
  have d: "0 < d" using q quotient_of_denom_pos by blast
  have x: "x = of_int n / of_int d" using q quotient_of_div by blast
  have n: "0 < n" using assms d x by (simp add: zero_less_divide_iff)
  let ?bn = "int (bit_length (nat n))" and ?bd = "int (bit_length (nat d))"
  have pos: "(0 :: rat) < of_int d" using d by simp
  have "(of_int n :: rat) < 2 powi ?bn" by (rule bit_length_powi(2) [OF n])
  also have "\<dots> = 2 powi (?bn - ?bd + 1) * 2 powi (?bd - 1)" by (simp only: powi_add) simp
  also have "\<dots> \<le> 2 powi (?bn - ?bd + 1) * of_int d"
    by (rule mult_left_mono [OF bit_length_powi(1) [OF d]]) simp
  finally have up: "x < 2 powi (?bn - ?bd + 1)" using pos x by (simp add: divide_less_eq)
  have "2 powi (?bn - ?bd - 1) * of_int d \<le> (2 powi (?bn - ?bd - 1) * 2 powi ?bd :: rat)"
    by (rule mult_left_mono) (use bit_length_powi(2) [OF d] in auto)
  also have "\<dots> = 2 powi (?bn - 1)" by (simp only: powi_add) simp
  also have "\<dots> \<le> of_int n" by (rule bit_length_powi(1) [OF n])
  finally have low: "2 powi (?bn - ?bd - 1) \<le> x" using pos x by (simp add: le_divide_eq)
  show ?thesis
    using up low q by (auto simp: floor_log2_def Let_def split: if_splits)
qed

lemma floor_log2_unique:
  assumes "2 powi k \<le> x" and "x < 2 powi (k + 1)"
  shows "floor_log2 x = k"
proof -
  have "(0 :: rat) < 2 powi k" by simp
  with assms(1) have "0 < x" by linarith
  note b = floor_log2_bounds [OF this]
  from b assms have "2 powi floor_log2 x < (2 :: rat) powi (k + 1)"
    and "2 powi k < (2 :: rat) powi (floor_log2 x + 1)"
    by linarith+
  then show ?thesis by (simp add: powi_less_iff)
qed

lemma floor_log2_mono:
  assumes "0 < x" and "x \<le> y"
  shows "floor_log2 x \<le> floor_log2 y"
proof -
  have "0 < y" using assms by linarith
  then have "2 powi floor_log2 x < (2 :: rat) powi (floor_log2 y + 1)"
    using floor_log2_bounds [OF assms(1)] floor_log2_bounds [of y] assms(2) by linarith
  then show ?thesis by (simp add: powi_less_iff)
qed

lemma round_half_even_of_int [simp]: "round_half_even (of_int i) = i"
  by (simp add: round_half_even_def)

lemma round_half_even_bounds: "\<lfloor>x\<rfloor> \<le> round_half_even x \<and> round_half_even x \<le> \<lfloor>x\<rfloor> + 1"
  by (simp add: round_half_even_def Let_def)

lemma round_half_even_mono:
  assumes "x \<le> y"
  shows "round_half_even x \<le> round_half_even y"
proof (cases "\<lfloor>x\<rfloor> = \<lfloor>y\<rfloor>")
  case True
  with assms show ?thesis by (auto simp: round_half_even_def Let_def)
next
  case False
  with assms have "\<lfloor>x\<rfloor> + 1 \<le> \<lfloor>y\<rfloor>" using floor_mono [OF assms] by linarith
  with round_half_even_bounds [of x] round_half_even_bounds [of y] show ?thesis by linarith
qed

lemma round_half_even_le_of_int: "x \<le> of_int i \<Longrightarrow> round_half_even x \<le> i"
  using round_half_even_mono [of x "of_int i"] by simp

lemma round_half_even_ge_of_int: "of_int i \<le> x \<Longrightarrow> i \<le> round_half_even x"
  using round_half_even_mono [of "of_int i" x] by simp

lemma f64_pos_nonneg: "0 < x \<Longrightarrow> 0 \<le> f64_pos x"
  unfolding f64_pos_def
  using round_half_even_ge_of_int [of 0 "x / 2 powi ulp_exp x"] by simp

lemma f64_pos_upper:
  assumes "0 < x"
  shows "f64_pos x \<le> 2 powi (ulp_exp x + 53)"
proof -
  have "x < 2 powi (floor_log2 x + 1)" using floor_log2_bounds [OF assms] by simp
  also have "\<dots> \<le> 2 powi (ulp_exp x + 53)" by (rule powi_mono) (simp add: ulp_exp_def)
  finally have "x / 2 powi ulp_exp x \<le> 2 powi (ulp_exp x + 53) / 2 powi ulp_exp x"
    by (intro divide_right_mono) auto
  also have "\<dots> = of_int (2 ^ 53)" by (simp only: powi_quot) (simp add: powi_nat)
  finally have "round_half_even (x / 2 powi ulp_exp x) \<le> 2 ^ 53"
    by (rule round_half_even_le_of_int)
  then have "of_int (round_half_even (x / 2 powi ulp_exp x)) \<le> (of_int (2 ^ 53) :: rat)"
    by (simp only: of_int_le_iff)
  then have "f64_pos x \<le> of_int (2 ^ 53) * 2 powi ulp_exp x"
    unfolding f64_pos_def by (intro mult_right_mono) auto
  then show ?thesis by (simp add: power_int_add mult.commute)
qed

lemma f64_pos_lower:
  assumes "0 < x" and "- 1074 < ulp_exp x"
  shows "2 powi (ulp_exp x + 52) \<le> f64_pos x"
proof -
  have e: "ulp_exp x + 52 = floor_log2 x" using assms(2) by (simp add: ulp_exp_def max_def split: if_splits)
  have "2 powi (ulp_exp x + 52) \<le> x" using floor_log2_bounds [OF assms(1)] e by simp
  then have "2 powi (ulp_exp x + 52) / 2 powi ulp_exp x \<le> x / 2 powi ulp_exp x"
    by (intro divide_right_mono) auto
  then have "of_int (2 ^ 52) \<le> x / 2 powi ulp_exp x" by (simp add: power_int_add)
  then have "2 ^ 52 \<le> round_half_even (x / 2 powi ulp_exp x)"
    by (rule round_half_even_ge_of_int)
  then have "(of_int (2 ^ 52) :: rat) \<le> of_int (round_half_even (x / 2 powi ulp_exp x))"
    by (simp only: of_int_le_iff)
  then have "of_int (2 ^ 52) * 2 powi ulp_exp x \<le> f64_pos x"
    unfolding f64_pos_def by (intro mult_right_mono) auto
  then show ?thesis by (simp add: power_int_add)
qed

lemma f64_pos_mono:
  assumes "0 < x" and "x \<le> y"
  shows "f64_pos x \<le> f64_pos y"
proof (cases "ulp_exp x = ulp_exp y")
  case True
  have "x / 2 powi ulp_exp y \<le> y / 2 powi ulp_exp y" by (rule divide_right_mono [OF assms(2)]) simp
  then show ?thesis
    unfolding f64_pos_def True by (intro mult_right_mono) (simp_all add: round_half_even_mono)
next
  case False
  have y: "0 < y" using assms by linarith
  have less: "ulp_exp x < ulp_exp y"
    using False floor_log2_mono [OF assms] by (auto simp: ulp_exp_def)
  then have "- 1074 < ulp_exp y" by (simp add: ulp_exp_def)
  then have "2 powi (ulp_exp y + 52) \<le> f64_pos y" by (rule f64_pos_lower [OF y])
  moreover have "(2 :: rat) powi (ulp_exp x + 53) \<le> 2 powi (ulp_exp y + 52)"
    by (rule powi_mono) (use less in simp)
  ultimately show ?thesis using f64_pos_upper [OF assms(1)] by linarith
qed

text \<open>Rounding is monotone, so it keeps signs and every comparison up to equality.\<close>

lemma f64_zero [simp]: "f64 0 = 0"
  by (simp add: f64_def)

lemma f64_mono:
  assumes "x \<le> y"
  shows "f64 x \<le> f64 y"
proof -
  consider "0 < x" | "x \<le> 0" "0 \<le> y" | "y < 0" using assms by linarith
  then show ?thesis
  proof cases
    case 1
    with assms show ?thesis by (simp add: f64_def f64_pos_mono)
  next
    case 2
    then show ?thesis
      using f64_pos_nonneg [of y] f64_pos_nonneg [of "- x"] by (auto simp: f64_def)
  next
    case 3
    with assms show ?thesis using f64_pos_mono [of "- y" "- x"] by (auto simp: f64_def)
  qed
qed

lemma f64_nonneg: "0 \<le> x \<Longrightarrow> 0 \<le> f64 x"
  using f64_mono [of 0 x] by simp

lemma f64_add_ge: "is_f64 a \<Longrightarrow> 0 \<le> b \<Longrightarrow> a \<le> f64_add a b"
  using f64_mono [of a "a + b"] by (simp add: f64_add_def is_f64_def)

text \<open>A significand of at most 53 bits is kept as it is.\<close>

lemma scaled_int: "d \<le> e \<Longrightarrow> of_int m * 2 powi e / (2 powi d :: rat) = of_int (m * 2 ^ nat (e - d))"
  using powi_quot [of d "e - d"] by (simp add: powi_nat flip: times_divide_eq_right)

lemma ulp_exp_le:
  assumes "0 < x" and "x < 2 powi (e + 53)" and "- 1074 \<le> e"
  shows "ulp_exp x \<le> e"
proof -
  have "(2 :: rat) powi floor_log2 x < 2 powi (e + 53)"
    using floor_log2_bounds [OF assms(1)] assms(2) by linarith
  then have "floor_log2 x < e + 53" by (simp only: powi_less_iff)
  with assms(3) show ?thesis by (simp add: ulp_exp_def)
qed

lemma f64_pos_int: "x / 2 powi ulp_exp x = of_int j \<Longrightarrow> f64_pos x = x"
  unfolding f64_pos_def by (simp only: round_half_even_of_int) (simp add: field_simps)

lemma f64_pos_exact:
  assumes "0 < m" and "m \<le> 2 ^ 53" and "- 1074 \<le> e"
  shows "f64_pos (of_int m * 2 powi e) = of_int m * 2 powi e"
proof (cases "m = 2 ^ 53")
  case True
  have eq: "of_int m * 2 powi e = (2 powi (e + 53) :: rat)"
    by (simp add: True power_int_add)
  have "floor_log2 (2 powi (e + 53)) = e + 53"
    by (rule floor_log2_unique) (simp_all add: powi_less_iff)
  with assms(3) have "ulp_exp (2 powi (e + 53)) = e + 1" by (simp add: ulp_exp_def)
  moreover have "2 powi (e + 53) / 2 powi (e + 1) = (of_int (2 ^ 52) :: rat)"
    using scaled_int [of "e + 1" "e + 53" 1] by simp
  ultimately show ?thesis unfolding eq by (metis f64_pos_int)
next
  case False
  let ?x = "of_int m * 2 powi e :: rat"
  from False assms(2) have "m < 2 ^ 53" by simp
  then have "(of_int m :: rat) < of_int (2 ^ 53)" by (simp only: of_int_less_iff)
  then have "?x < of_int (2 ^ 53) * 2 powi e" by (rule mult_strict_right_mono) simp
  also have "\<dots> = 2 powi (e + 53)" by (simp add: power_int_add)
  finally have "ulp_exp ?x \<le> e" using assms(1,3) by (intro ulp_exp_le) auto
  then show ?thesis by (rule f64_pos_int [OF scaled_int])
qed

lemma f64_pos_idem:
  assumes "0 < x"
  shows "f64 (f64_pos x) = f64_pos x"
proof (cases "round_half_even (x / 2 powi ulp_exp x) = 0")
  case True
  then show ?thesis by (simp add: f64_pos_def)
next
  case False
  let ?m = "round_half_even (x / 2 powi ulp_exp x)"
  have "0 \<le> ?m" using round_half_even_ge_of_int [of 0 "x / 2 powi ulp_exp x"] assms by simp
  with False have m: "0 < ?m" by simp
  have "of_int ?m * 2 powi ulp_exp x \<le> of_int (2 ^ 53) * (2 powi ulp_exp x :: rat)"
    using f64_pos_upper [OF assms] by (simp add: f64_pos_def power_int_add)
  then have "(of_int ?m :: rat) \<le> of_int (2 ^ 53)" by (simp add: mult_le_cancel_right)
  then have "?m \<le> 2 ^ 53" by (simp only: of_int_le_iff)
  then have "f64_pos (f64_pos x) = f64_pos x"
    using f64_pos_exact [OF m, of "ulp_exp x"] by (simp add: f64_pos_def [of x] ulp_exp_def)
  moreover have "0 < f64_pos x" using m by (simp add: f64_pos_def)
  ultimately show ?thesis by (simp add: f64_def)
qed

lemma f64_minus: "f64 (- x) = - f64 x"
  by (simp add: f64_def)

text \<open>The result of every operation is a double.\<close>

lemma is_f64_f64 [simp]: "is_f64 (f64 x)"
proof -
  consider "x = 0" | "0 < x" | "x < 0" by linarith
  then show ?thesis
  proof cases
    case 1
    then show ?thesis by (simp add: is_f64_def)
  next
    case 2
    then have "f64 x = f64_pos x" by (simp add: f64_def)
    with 2 show ?thesis by (simp add: is_f64_def f64_pos_idem)
  next
    case 3
    then have "f64 x = - f64_pos (- x)" by (simp add: f64_def)
    with 3 show ?thesis by (simp add: is_f64_def f64_minus f64_pos_idem)
  qed
qed

lemma is_f64_ops [simp]:
  "is_f64 (f64_add a b)" "is_f64 (f64_sub a b)" "is_f64 (f64_mul a b)" "is_f64 (f64_div a b)"
  "is_f64 (f64_of_int i)" "is_f64 0"
  by (simp_all add: f64_add_def f64_sub_def f64_mul_def f64_div_def f64_of_int_def)
    (simp add: is_f64_def)

text \<open>Integers up to $2^{53}$ and small powers of two are doubles.\<close>

lemma f64_int_exact: "0 \<le> i \<Longrightarrow> i \<le> 2 ^ 53 \<Longrightarrow> f64 (of_int i) = of_int i"
  using f64_pos_exact [of i 0] by (auto simp: f64_def)

lemma f64_half_power: "k \<le> 1074 \<Longrightarrow> f64 (1 / 2 ^ k) = 1 / 2 ^ k"
  using f64_pos_exact [of 1 "- int k"] by (simp add: f64_def power_int_minus field_simps)

end
