(* ===== verification/Model.thy ===== *)
theory Model
  imports GoStrings GoFloat
begin

text \<open>
  The domain types of \<open>pkg/model\<close> (\<open>task.go\<close>, \<open>memory.go\<close>, \<open>stream.go\<close>): each struct
  is a record whose fields carry the Go field name behind a prefix for the struct, each
  string enumeration is a datatype, a pointer that may be nil is an option. JSON values
  (\<open>interface{}\<close> in Go) are a datatype of their own.
\<close>

section \<open>Status enumerations\<close>

datatype TaskStatus =
    TaskStatusQueued | TaskStatusRunning | TaskStatusSucceeded | TaskStatusFailed | TaskStatusAborted

datatype RunStatus =
    RunStatusQueued | RunStatusRunning | RunStatusSucceeded | RunStatusFailed | RunStatusAborted

datatype StepType = StepTypeLLMCall | StepTypeToolCall | StepTypeObservation | StepTypeFinal

datatype StepStatus = StepStatusOK | StepStatusError

datatype StreamEventType =
    StreamEventTokenChunk | StreamEventStepStart | StreamEventStepEnd | StreamEventToolCall
  | StreamEventToolResult | StreamEventComplete | StreamEventError

datatype MessageRole =
    MessageRoleSystem | MessageRoleUser | MessageRoleAssistant | MessageRoleTool

fun TaskStatus_str :: "TaskStatus \<Rightarrow> string" where
  "TaskStatus_str TaskStatusQueued = ''QUEUED''"
| "TaskStatus_str TaskStatusRunning = ''RUNNING''"
| "TaskStatus_str TaskStatusSucceeded = ''SUCCEEDED''"
| "TaskStatus_str TaskStatusFailed = ''FAILED''"
| "TaskStatus_str TaskStatusAborted = ''ABORTED''"

fun RunStatus_str :: "RunStatus \<Rightarrow> string" where
  "RunStatus_str RunStatusQueued = ''RUN_QUEUED''"
| "RunStatus_str RunStatusRunning = ''RUNNING''"
| "RunStatus_str RunStatusSucceeded = ''SUCCEEDED''"
| "RunStatus_str RunStatusFailed = ''FAILED''"
| "RunStatus_str RunStatusAborted = ''ABORTED''"

fun StepType_str :: "StepType \<Rightarrow> string" where
  "StepType_str StepTypeLLMCall = ''llm_call''"
| "StepType_str StepTypeToolCall = ''tool_call''"
| "StepType_str StepTypeObservation = ''observation''"
| "StepType_str StepTypeFinal = ''final''"

section \<open>JSON values\<close>

datatype json =
    JNull
  | JBool bool
  | JNum rat
  | JStr string
  | JArr "json list"
  | JObj "(string \<times> json) list"

section \<open>Tasks, runs and steps\<close>

record ModelConfig =
  mc_ModelID :: string
  mc_Temperature :: float64
  mc_MaxTokens :: int64
  mc_PolicyMode :: string
  mc_CostCapUSD :: float64
  mc_FallbackModelIDs :: "string list"

record TokenUsage =
  tu_Input :: int64
  tu_Output :: int64
  tu_Total :: int64

record ArtifactRef =
  ar_S3Key :: string
  ar_SHA256 :: string
  ar_Size :: int64

record CheckpointRef =
  cr_Memory :: "ArtifactRef option"
  cr_Workspace :: "ArtifactRef option"

record Task =
  t_TaskID :: string
  t_TenantID :: string
  t_UserID :: string
  t_Status :: TaskStatus
  t_ActiveRunID :: string
  t_AbortRequested :: bool
  t_AbortReason :: string
  t_AbortTS :: "gotime option"
  t_IdempotencyKey :: string
  t_Prompt :: string
  t_ModelConfig :: "ModelConfig option"
  t_CreatedAt :: gotime
  t_UpdatedAt :: gotime

record Run =
  r_TaskID :: string
  r_RunID :: string
  r_TenantID :: string
  r_Status :: RunStatus
  r_QueuedAt :: "gotime option"
  r_ParentRunID :: string
  r_ResumeFromStepIndex :: "int64 option"
  r_ModelConfig :: "ModelConfig option"
  r_StartedAt :: "gotime option"
  r_EndedAt :: "gotime option"
  r_LastStepIndex :: int64
  r_TotalTokenUsage :: "TokenUsage option"
  r_TotalCostUSD :: float64

record Step =
  s_RunID :: string
  s_StepIndex :: int64
  s_Type :: StepType
  s_Status :: StepStatus
  s_Input :: string
  s_Output :: string
  s_TSStart :: gotime
  s_TSEnd :: gotime
  s_LatencyMS :: int64
  s_TokenUsage :: "TokenUsage option"
  s_CheckpointRef :: "CheckpointRef option"
  s_ErrorCode :: string
  s_ErrorMessage :: string

record Connection =
  c_ConnectionID :: string
  c_TenantID :: string
  c_UserID :: string
  c_TaskID :: string
  c_RunID :: string
  c_ConnectedAt :: gotime
  c_TTL :: int64

record SQSMessage =
  m_TenantID :: string
  m_TaskID :: string
  m_RunID :: string
  m_TaskType :: string
  m_SubmittedAt :: int64
  m_Attempt :: int64
  m_DedupeKey :: string
  m_EstimatedTokens :: int64
  m_EstimatedCost :: float64

section \<open>Stream events and agent memory\<close>

record StreamEvent =
  e_TaskID :: string
  e_RunID :: string
  e_Seq :: int64
  e_TS :: int64
  e_Type :: StreamEventType
  e_Data :: json

record MemoryToolCall =
  tc_ID :: string
  tc_Name :: string
  tc_Args :: string

record MemoryMessage =
  mm_Role :: MessageRole
  mm_Content :: string
  mm_ToolCallID :: string
  mm_ToolCalls :: "MemoryToolCall list"

record MemorySnapshot =
  ms_RunID :: string
  ms_StepIndex :: int64
  ms_Messages :: "MemoryMessage list"
  ms_Scratchpad :: string
  ms_ToolState :: "(string, json) gomap"

section \<open>Terminal states\<close>

definition run_terminal :: "RunStatus \<Rightarrow> bool" where
  "run_terminal st \<longleftrightarrow> st \<in> {RunStatusSucceeded, RunStatusFailed, RunStatusAborted}"

definition task_terminal :: "TaskStatus \<Rightarrow> bool" where
  "task_terminal st \<longleftrightarrow> st \<in> {TaskStatusSucceeded, TaskStatusFailed, TaskStatusAborted}"

end
