(* ===== verification/StateStore.thy ===== *)
theory StateStore
  imports Model
begin

text \<open>
  The metadata store: the interface \<open>state.Store\<close> (\<open>pkg/state/store.go\<close>), its in-memory
  implementation (\<open>pkg/state/memory_store.go\<close>, \<open>run_defaults.go\<close>) operation by operation,
  and what every operation and every sequence of operations keeps. Each method runs under
  the store's mutex, so a method is one atomic transition; \<open>time.Now()\<close> is an argument
  of the methods that read the clock. Stored values are values here, so the clone
  functions, which only separate pointers, leave no trace in the model.
\<close>

section \<open>Errors and the interface\<close>

datatype StateErr = ErrNotFound | ErrConflict | ErrAlreadyExists | ErrOther string

text \<open>
  \<open>state.Store\<close> as a record of its methods, over the state type of the implementation.
  A method that changes the state returns the new state and the error (\<open>None\<close> is nil).
\<close>

record 's Store =
  Store_ApplyCreateTransition :: "gotime \<Rightarrow> 's \<Rightarrow> Task \<Rightarrow> Run \<Rightarrow> 's \<times> StateErr option"
  Store_PutTask :: "'s \<Rightarrow> Task \<Rightarrow> 's \<times> StateErr option"
  Store_GetTask :: "'s \<Rightarrow> string \<Rightarrow> StateErr + Task"
  Store_IsAbortRequested :: "'s \<Rightarrow> string \<Rightarrow> StateErr + bool \<times> string"
  Store_UpdateTaskStatus ::
    "gotime \<Rightarrow> 's \<Rightarrow> string \<Rightarrow> TaskStatus list \<Rightarrow> TaskStatus \<Rightarrow> 's \<times> StateErr option"
  Store_UpdateTaskStatusForRun ::
    "gotime \<Rightarrow> 's \<Rightarrow> string \<Rightarrow> string \<Rightarrow> TaskStatus list \<Rightarrow> TaskStatus \<Rightarrow> 's \<times> StateErr option"
  Store_SetAbortRequested :: "gotime \<Rightarrow> 's \<Rightarrow> string \<Rightarrow> string \<Rightarrow> 's \<times> StateErr option"
  Store_ClearAbortRequested :: "gotime \<Rightarrow> 's \<Rightarrow> string \<Rightarrow> 's \<times> StateErr option"
  Store_SetActiveRun :: "gotime \<Rightarrow> 's \<Rightarrow> string \<Rightarrow> string \<Rightarrow> 's \<times> StateErr option"
  Store_ApplyResumeTransition ::
    "gotime \<Rightarrow> gotime \<Rightarrow> 's \<Rightarrow> string \<Rightarrow> Run \<Rightarrow> TaskStatus list \<Rightarrow> TaskStatus \<Rightarrow> 's \<times> StateErr option"
  Store_GetTaskByIdempotencyKey :: "'s \<Rightarrow> string \<Rightarrow> string \<Rightarrow> StateErr + Task"
  Store_ListTasks :: "'s \<Rightarrow> string \<Rightarrow> TaskStatus list \<Rightarrow> int64 \<Rightarrow> StateErr + Task list"
  Store_PutRun :: "gotime \<Rightarrow> 's \<Rightarrow> Run \<Rightarrow> 's \<times> StateErr option"
  Store_GetRun :: "'s \<Rightarrow> string \<Rightarrow> string \<Rightarrow> StateErr + Run"
  Store_ClaimRun :: "gotime \<Rightarrow> 's \<Rightarrow> string \<Rightarrow> string \<Rightarrow> 's \<times> StateErr option"
  Store_CompleteRun :: "gotime \<Rightarrow> 's \<Rightarrow> string \<Rightarrow> string \<Rightarrow> RunStatus \<Rightarrow> 's \<times> StateErr option"
  Store_UpdateLastStepIndex :: "'s \<Rightarrow> string \<Rightarrow> string \<Rightarrow> int64 \<Rightarrow> 's \<times> StateErr option"
  Store_AddRunUsage ::
    "'s \<Rightarrow> string \<Rightarrow> string \<Rightarrow> TokenUsage option \<Rightarrow> float64 \<Rightarrow> 's \<times> StateErr option"
  Store_ResetRunToQueued :: "gotime \<Rightarrow> 's \<Rightarrow> string \<Rightarrow> string \<Rightarrow> 's \<times> StateErr option"
  Store_ListRuns :: "'s \<Rightarrow> string \<Rightarrow> RunStatus list \<Rightarrow> int64 \<Rightarrow> StateErr + Run list"
  Store_PutStep :: "'s \<Rightarrow> Step \<Rightarrow> 's \<times> StateErr option"
  Store_GetStep :: "'s \<Rightarrow> string \<Rightarrow> int64 \<Rightarrow> StateErr + Step"
  Store_ListSteps :: "'s \<Rightarrow> string \<Rightarrow> int64 \<Rightarrow> int64 \<Rightarrow> StateErr + Step list"
  Store_PutConnection :: "'s \<Rightarrow> Connection \<Rightarrow> 's \<times> StateErr option"
  Store_GetConnection :: "'s \<Rightarrow> string \<Rightarrow> StateErr + Connection"
  Store_DeleteConnection :: "'s \<Rightarrow> string \<Rightarrow> 's \<times> StateErr option"
  Store_GetConnectionsByTask :: "'s \<Rightarrow> string \<Rightarrow> StateErr + Connection list"
  Store_PutEvent :: "gotime \<Rightarrow> gotime \<Rightarrow> 's \<Rightarrow> StreamEvent \<Rightarrow> 's \<times> StreamEvent \<times> StateErr option"
  Store_ReplayEvents ::
    "'s \<Rightarrow> string \<Rightarrow> string \<Rightarrow> int64 \<Rightarrow> int64 \<Rightarrow> int64 \<Rightarrow> StateErr + StreamEvent list"
  Store_CompactEvents :: "'s \<Rightarrow> string \<Rightarrow> string \<Rightarrow> int64 \<Rightarrow> 's \<times> (StateErr + int64)"

section \<open>The in-memory store\<close>

record MemoryStore =
  db_tasks :: "(string, Task) gomap"
  db_runs :: "(string, Run) gomap"
  db_steps :: "(string, Step) gomap"
  db_connections :: "(string, Connection) gomap"
  db_events :: "(string, StreamEvent list) gomap"
  db_eventRetention :: duration
  db_idempotency :: "(string, string) gomap"

definition NewMemoryStore :: MemoryStore where
  "NewMemoryStore =
     \<lparr>db_tasks = [], db_runs = [], db_steps = [], db_connections = [], db_events = [],
      db_eventRetention = 24 * Hour, db_idempotency = []\<rparr>"

definition runKey :: "string \<Rightarrow> string \<Rightarrow> string" where
  "runKey taskID runID = taskID @ ''#'' @ runID"

definition stepKey :: "string \<Rightarrow> int64 \<Rightarrow> string" where
  "stepKey runID idx = runID @ ''#'' @ fmt_08d idx"

definition idempKey :: "string \<Rightarrow> string \<Rightarrow> string" where
  "idempKey tenantID key = tenantID @ ''#'' @ key"

definition eventKey :: "string \<Rightarrow> string \<Rightarrow> string" where
  "eventKey taskID runID = taskID @ ''#'' @ runID"

text \<open>\<open>ensureQueuedAt\<close>: a queued run gets a queue time when it has none.\<close>

definition ensureQueuedAt :: "Run option \<Rightarrow> gotime \<Rightarrow> Run option" where
  "ensureQueuedAt run now =
     (case run of
        None \<Rightarrow> None
      | Some r \<Rightarrow>
          if r_Status r \<noteq> RunStatusQueued \<or> r_QueuedAt r \<noteq> None then Some r
          else Some (r\<lparr>r_QueuedAt := Some now\<rparr>))"

subsection \<open>Tasks\<close>

definition ApplyCreateTransition ::
  "gotime \<Rightarrow> MemoryStore \<Rightarrow> Task option \<Rightarrow> Run option \<Rightarrow> MemoryStore \<times> StateErr option" where
  "ApplyCreateTransition now s task run0 =
     (case (task, ensureQueuedAt run0 now) of
        (Some t, Some r) \<Rightarrow>
          if t_TaskID t = [] \<or> r_TaskID r = [] \<or> r_RunID r = [] then (s, Some ErrConflict)
          else if r_TaskID r \<noteq> t_TaskID t then (s, Some ErrConflict)
          else if gm_has (db_tasks s) (t_TaskID t) then (s, Some ErrAlreadyExists)
          else if gm_has (db_runs s) (runKey (r_TaskID r) (r_RunID r)) then (s, Some ErrAlreadyExists)
          else if t_IdempotencyKey t \<noteq> []
                  \<and> gm_has (db_idempotency s) (idempKey (t_TenantID t) (t_IdempotencyKey t))
            then (s, Some ErrAlreadyExists)
          else
            (s\<lparr>db_idempotency :=
                 (if t_IdempotencyKey t \<noteq> []
                  then gm_put (idempKey (t_TenantID t) (t_IdempotencyKey t)) (t_TaskID t) (db_idempotency s)
                  else db_idempotency s),
               db_tasks := gm_put (t_TaskID t) t (db_tasks s),
               db_runs := gm_put (runKey (r_TaskID r) (r_RunID r)) r (db_runs s)\<rparr>, None)
      | _ \<Rightarrow> (s, Some ErrConflict))"

definition PutTask :: "MemoryStore \<Rightarrow> Task \<Rightarrow> MemoryStore \<times> StateErr option" where
  "PutTask s task =
     (let ik = idempKey (t_TenantID task) (t_IdempotencyKey task)
      in if t_IdempotencyKey task \<noteq> [] \<and> gm_has (db_idempotency s) ik then (s, Some ErrAlreadyExists)
         else
           let s1 = (if t_IdempotencyKey task \<noteq> []
                     then s\<lparr>db_idempotency := gm_put ik (t_TaskID task) (db_idempotency s)\<rparr> else s)
           in if gm_has (db_tasks s1) (t_TaskID task) then (s1, Some ErrAlreadyExists)
              else (s1\<lparr>db_tasks := gm_put (t_TaskID task) task (db_tasks s1)\<rparr>, None))"

definition GetTask :: "MemoryStore \<Rightarrow> string \<Rightarrow> StateErr + Task" where
  "GetTask s taskID =
     (case gm_get (db_tasks s) taskID of None \<Rightarrow> Inl ErrNotFound | Some t \<Rightarrow> Inr t)"

definition IsAbortRequested :: "MemoryStore \<Rightarrow> string \<Rightarrow> StateErr + bool \<times> string" where
  "IsAbortRequested s taskID =
     (case gm_get (db_tasks s) taskID of
        None \<Rightarrow> Inl ErrNotFound
      | Some t \<Rightarrow> Inr (t_AbortRequested t, t_AbortReason t))"

definition UpdateTaskStatus ::
  "gotime \<Rightarrow> MemoryStore \<Rightarrow> string \<Rightarrow> TaskStatus list \<Rightarrow> TaskStatus \<Rightarrow> MemoryStore \<times> StateErr option" where
  "UpdateTaskStatus now s taskID from to =
     (case gm_get (db_tasks s) taskID of
        None \<Rightarrow> (s, Some ErrNotFound)
      | Some t \<Rightarrow>
          if t_Status t \<notin> set from then (s, Some ErrConflict)
          else (s\<lparr>db_tasks := gm_put taskID (t\<lparr>t_Status := to, t_UpdatedAt := now\<rparr>) (db_tasks s)\<rparr>, None))"

definition UpdateTaskStatusForRun ::
  "gotime \<Rightarrow> MemoryStore \<Rightarrow> string \<Rightarrow> string \<Rightarrow> TaskStatus list \<Rightarrow> TaskStatus \<Rightarrow> MemoryStore \<times> StateErr option" where
  "UpdateTaskStatusForRun now s taskID runID from to =
     (case gm_get (db_tasks s) taskID of
        None \<Rightarrow> (s, Some ErrNotFound)
      | Some t \<Rightarrow>
          if t_ActiveRunID t \<noteq> runID then (s, Some ErrConflict)
          else if t_Status t \<notin> set from then (s, Some ErrConflict)
          else (s\<lparr>db_tasks := gm_put taskID (t\<lparr>t_Status := to, t_UpdatedAt := now\<rparr>) (db_tasks s)\<rparr>, None))"

definition SetAbortRequested ::
  "gotime \<Rightarrow> MemoryStore \<Rightarrow> string \<Rightarrow> string \<Rightarrow> MemoryStore \<times> StateErr option" where
  "SetAbortRequested now s taskID reason =
     (case gm_get (db_tasks s) taskID of
        None \<Rightarrow> (s, Some ErrNotFound)
      | Some t \<Rightarrow>
          (s\<lparr>db_tasks := gm_put taskID
               (t\<lparr>t_AbortRequested := True, t_AbortReason := reason, t_AbortTS := Some now,
                  t_UpdatedAt := now\<rparr>) (db_tasks s)\<rparr>, None))"

definition ClearAbortRequested ::
  "gotime \<Rightarrow> MemoryStore \<Rightarrow> string \<Rightarrow> MemoryStore \<times> StateErr option" where
  "ClearAbortRequested now s taskID =
     (case gm_get (db_tasks s) taskID of
        None \<Rightarrow> (s, Some ErrNotFound)
      | Some t \<Rightarrow>
          (s\<lparr>db_tasks := gm_put taskID
               (t\<lparr>t_AbortRequested := False, t_AbortReason := [], t_AbortTS := None,
                  t_UpdatedAt := now\<rparr>) (db_tasks s)\<rparr>, None))"

definition SetActiveRun ::
  "gotime \<Rightarrow> MemoryStore \<Rightarrow> string \<Rightarrow> string \<Rightarrow> MemoryStore \<times> StateErr option" where
  "SetActiveRun now s taskID runID =
     (case gm_get (db_tasks s) taskID of
        None \<Rightarrow> (s, Some ErrNotFound)
      | Some t \<Rightarrow>
          (s\<lparr>db_tasks := gm_put taskID (t\<lparr>t_ActiveRunID := runID, t_UpdatedAt := now\<rparr>) (db_tasks s)\<rparr>, None))"

definition ApplyResumeTransition ::
  "gotime \<Rightarrow> gotime \<Rightarrow> MemoryStore \<Rightarrow> string \<Rightarrow> Run option \<Rightarrow> TaskStatus list \<Rightarrow> TaskStatus
   \<Rightarrow> MemoryStore \<times> StateErr option" where
  "ApplyResumeTransition now1 now2 s taskID run0 from to =
     (case ensureQueuedAt run0 now1 of
        None \<Rightarrow> (s, Some ErrConflict)
      | Some run \<Rightarrow>
          if r_TaskID run = [] \<or> r_RunID run = [] \<or> r_TaskID run \<noteq> taskID then (s, Some ErrConflict)
          else case gm_get (db_tasks s) taskID of
            None \<Rightarrow> (s, Some ErrNotFound)
          | Some t \<Rightarrow>
              if gm_has (db_runs s) (runKey (r_TaskID run) (r_RunID run)) then (s, Some ErrAlreadyExists)
              else if t_Status t \<notin> set from then (s, Some ErrConflict)
              else
                (s\<lparr>db_runs := gm_put (runKey (r_TaskID run) (r_RunID run)) run (db_runs s),
                   db_tasks := gm_put taskID
                     (t\<lparr>t_ActiveRunID := r_RunID run, t_AbortRequested := False, t_AbortReason := [],
                        t_AbortTS := None, t_Status := to, t_UpdatedAt := now2\<rparr>) (db_tasks s)\<rparr>, None))"

definition GetTaskByIdempotencyKey :: "MemoryStore \<Rightarrow> string \<Rightarrow> string \<Rightarrow> StateErr + Task" where
  "GetTaskByIdempotencyKey s tenantID idempotencyKey =
     (case gm_get (db_idempotency s) (idempKey tenantID idempotencyKey) of
        None \<Rightarrow> Inl ErrNotFound
      | Some taskID \<Rightarrow>
          (case gm_get (db_tasks s) taskID of None \<Rightarrow> Inl ErrNotFound | Some t \<Rightarrow> Inr t))"

text \<open>The cut \<open>if limit > 0 && len(out) > limit\<close> of the listings.\<close>

definition take_limit :: "int64 \<Rightarrow> 'a list \<Rightarrow> 'a list" where
  "take_limit limit xs = (if 0 < limit \<and> limit < int (length xs) then take (nat limit) xs else xs)"

definition ListTasks ::
  "MemoryStore \<Rightarrow> string \<Rightarrow> TaskStatus list \<Rightarrow> int64 \<Rightarrow> StateErr + Task list" where
  "ListTasks s tenantID statuses limit =
     Inr (take_limit limit
       (sort_key (\<lambda>t. (t_CreatedAt t, t_TaskID t))
         (filter (\<lambda>t. (tenantID = [] \<or> t_TenantID t = tenantID)
                     \<and> (statuses = [] \<or> t_Status t \<in> set statuses))
           (map snd (db_tasks s)))))"

subsection \<open>Runs\<close>

definition PutRun :: "gotime \<Rightarrow> MemoryStore \<Rightarrow> Run \<Rightarrow> MemoryStore \<times> StateErr option" where
  "PutRun now s run0 =
     (let run = the (ensureQueuedAt (Some run0) now); key = runKey (r_TaskID run) (r_RunID run)
      in if gm_has (db_runs s) key then (s, Some ErrAlreadyExists)
         else (s\<lparr>db_runs := gm_put key run (db_runs s)\<rparr>, None))"

definition GetRun :: "MemoryStore \<Rightarrow> string \<Rightarrow> string \<Rightarrow> StateErr + Run" where
  "GetRun s taskID runID =
     (case gm_get (db_runs s) (runKey taskID runID) of None \<Rightarrow> Inl ErrNotFound | Some r \<Rightarrow> Inr r)"

definition ClaimRun ::
  "gotime \<Rightarrow> MemoryStore \<Rightarrow> string \<Rightarrow> string \<Rightarrow> MemoryStore \<times> StateErr option" where
  "ClaimRun now s taskID runID =
     (case gm_get (db_runs s) (runKey taskID runID) of
        None \<Rightarrow> (s, Some ErrNotFound)
      | Some r \<Rightarrow>
          if r_Status r \<noteq> RunStatusQueued then (s, Some ErrConflict)
          else (s\<lparr>db_runs := gm_put (runKey taskID runID)
                    (r\<lparr>r_Status := RunStatusRunning, r_StartedAt := Some now\<rparr>) (db_runs s)\<rparr>, None))"

definition CompleteRun ::
  "gotime \<Rightarrow> MemoryStore \<Rightarrow> string \<Rightarrow> string \<Rightarrow> RunStatus \<Rightarrow> MemoryStore \<times> StateErr option" where
  "CompleteRun now s taskID runID status =
     (case gm_get (db_runs s) (runKey taskID runID) of
        None \<Rightarrow> (s, Some ErrNotFound)
      | Some r \<Rightarrow>
          (s\<lparr>db_runs := gm_put (runKey taskID runID)
               (r\<lparr>r_Status := status, r_EndedAt := Some now\<rparr>) (db_runs s)\<rparr>, None))"

definition UpdateLastStepIndex ::
  "MemoryStore \<Rightarrow> string \<Rightarrow> string \<Rightarrow> int64 \<Rightarrow> MemoryStore \<times> StateErr option" where
  "UpdateLastStepIndex s taskID runID stepIndex =
     (case gm_get (db_runs s) (runKey taskID runID) of
        None \<Rightarrow> (s, Some ErrNotFound)
      | Some r \<Rightarrow>
          (s\<lparr>db_runs := gm_put (runKey taskID runID) (r\<lparr>r_LastStepIndex := stepIndex\<rparr>) (db_runs s)\<rparr>, None))"

definition add_usage :: "TokenUsage option \<Rightarrow> TokenUsage \<Rightarrow> TokenUsage" where
  "add_usage old u =
     (let o' = (case old of None \<Rightarrow> \<lparr>tu_Input = 0, tu_Output = 0, tu_Total = 0\<rparr> | Some o' \<Rightarrow> o')
      in \<lparr>tu_Input = add64 (tu_Input o') (tu_Input u),
          tu_Output = add64 (tu_Output o') (tu_Output u),
          tu_Total = add64 (tu_Total o') (tu_Total u)\<rparr>)"

definition AddRunUsage ::
  "MemoryStore \<Rightarrow> string \<Rightarrow> string \<Rightarrow> TokenUsage option \<Rightarrow> float64 \<Rightarrow> MemoryStore \<times> StateErr option" where
  "AddRunUsage s taskID runID usage costUSD =
     (case gm_get (db_runs s) (runKey taskID runID) of
        None \<Rightarrow> (s, Some ErrNotFound)
      | Some r \<Rightarrow>
          (let r1 = (case usage of
                 None \<Rightarrow> r
               | Some u \<Rightarrow> r\<lparr>r_TotalTokenUsage := Some (add_usage (r_TotalTokenUsage r) u)\<rparr>);
               r2 = (if 0 < costUSD then r1\<lparr>r_TotalCostUSD := f64_add (r_TotalCostUSD r1) costUSD\<rparr> else r1)
           in (s\<lparr>db_runs := gm_put (runKey taskID runID) r2 (db_runs s)\<rparr>, None)))"

definition ResetRunToQueued ::
  "gotime \<Rightarrow> MemoryStore \<Rightarrow> string \<Rightarrow> string \<Rightarrow> MemoryStore \<times> StateErr option" where
  "ResetRunToQueued now s taskID runID =
     (case gm_get (db_runs s) (runKey taskID runID) of
        None \<Rightarrow> (s, Some ErrNotFound)
      | Some r \<Rightarrow>
          (s\<lparr>db_runs := gm_put (runKey taskID runID)
               (r\<lparr>r_Status := RunStatusQueued, r_QueuedAt := Some now, r_StartedAt := None,
                  r_EndedAt := None\<rparr>) (db_runs s)\<rparr>, None))"

definition ListRuns ::
  "MemoryStore \<Rightarrow> string \<Rightarrow> RunStatus list \<Rightarrow> int64 \<Rightarrow> StateErr + Run list" where
  "ListRuns s tenantID statuses limit =
     Inr (take_limit limit
       (sort_key (\<lambda>r. (case r_StartedAt r of None \<Rightarrow> zero_time | Some t \<Rightarrow> t,
                        runKey (r_TaskID r) (r_RunID r)))
         (filter (\<lambda>r. (tenantID = [] \<or> r_TenantID r = tenantID)
                     \<and> (statuses = [] \<or> r_Status r \<in> set statuses))
           (map snd (db_runs s)))))"

subsection \<open>Steps\<close>

definition PutStep :: "MemoryStore \<Rightarrow> Step \<Rightarrow> MemoryStore \<times> StateErr option" where
  "PutStep s step =
     (let key = stepKey (s_RunID step) (s_StepIndex step)
      in if gm_has (db_steps s) key then (s, Some ErrConflict)
         else (s\<lparr>db_steps := gm_put key step (db_steps s)\<rparr>, None))"

definition GetStep :: "MemoryStore \<Rightarrow> string \<Rightarrow> int64 \<Rightarrow> StateErr + Step" where
  "GetStep s runID stepIndex =
     (case gm_get (db_steps s) (stepKey runID stepIndex) of None \<Rightarrow> Inl ErrNotFound | Some st \<Rightarrow> Inr st)"

definition ListSteps :: "MemoryStore \<Rightarrow> string \<Rightarrow> int64 \<Rightarrow> int64 \<Rightarrow> StateErr + Step list" where
  "ListSteps s runID from limit =
     Inr (take_limit limit
       (sort_key s_StepIndex
         (filter (\<lambda>st. s_RunID st = runID \<and> from \<le> s_StepIndex st) (map snd (db_steps s)))))"

subsection \<open>Connections\<close>

definition PutConnection :: "MemoryStore \<Rightarrow> Connection \<Rightarrow> MemoryStore \<times> StateErr option" where
  "PutConnection s conn =
     (s\<lparr>db_connections := gm_put (c_ConnectionID conn) conn (db_connections s)\<rparr>, None)"

definition GetConnection :: "MemoryStore \<Rightarrow> string \<Rightarrow> StateErr + Connection" where
  "GetConnection s connectionID =
     (case gm_get (db_connections s) connectionID of None \<Rightarrow> Inl ErrNotFound | Some c \<Rightarrow> Inr c)"

definition DeleteConnection :: "MemoryStore \<Rightarrow> string \<Rightarrow> MemoryStore \<times> StateErr option" where
  "DeleteConnection s connectionID =
     (s\<lparr>db_connections := gm_del connectionID (db_connections s)\<rparr>, None)"

definition GetConnectionsByTask :: "MemoryStore \<Rightarrow> string \<Rightarrow> StateErr + Connection list" where
  "GetConnectionsByTask s taskID =
     Inr (filter (\<lambda>c. c_TaskID c = taskID) (map snd (db_connections s)))"

subsection \<open>Events\<close>

definition events_of :: "MemoryStore \<Rightarrow> string \<Rightarrow> StreamEvent list" where
  "events_of s key = (case gm_get (db_events s) key of None \<Rightarrow> [] | Some evs \<Rightarrow> evs)"

definition PutEvent ::
  "gotime \<Rightarrow> gotime \<Rightarrow> MemoryStore \<Rightarrow> StreamEvent option
   \<Rightarrow> MemoryStore \<times> StreamEvent option \<times> StateErr option" where
  "PutEvent now1 now2 s event =
     (case event of
        None \<Rightarrow> (s, None, None)
      | Some ev0 \<Rightarrow>
          if e_TaskID ev0 = [] \<or> e_RunID ev0 = [] then (s, Some ev0, Some ErrConflict)
          else
            let ev = (if e_TS ev0 = 0 then ev0\<lparr>e_TS := time_Unix now1\<rparr> else ev0);
                key = eventKey (e_TaskID ev) (e_RunID ev);
                runEvents = events_of s key
            in if \<exists>x \<in> set runEvents. e_Seq x = e_Seq ev then (s, Some ev, None)
               else
                 let sorted = sort_key (\<lambda>e. (e_Seq e, e_TS e)) (runEvents @ [ev]);
                     kept = (if 0 < db_eventRetention s
                             then filter (\<lambda>e. time_Unix (time_Add now2 (- db_eventRetention s)) \<le> e_TS e) sorted
                             else sorted)
                 in (s\<lparr>db_events := gm_put key kept (db_events s)\<rparr>, Some ev, None))"

definition ReplayEvents ::
  "MemoryStore \<Rightarrow> string \<Rightarrow> string \<Rightarrow> int64 \<Rightarrow> int64 \<Rightarrow> int64 \<Rightarrow> StateErr + StreamEvent list" where
  "ReplayEvents s taskID runID fromSeq fromTS limit0 =
     (let limit = (if limit0 \<le> 0 then 200 else limit0);
          primary = events_of s (eventKey taskID runID);
          runEvents =
            (if primary = [] \<and> taskID = []
             then sort_key (\<lambda>e. (e_Seq e, e_TS e))
                    (concat (map snd (filter (\<lambda>(key, _). HasSuffix key (''#'' @ runID)) (db_events s))))
             else primary)
      in Inr (take (nat limit)
           (filter (\<lambda>ev. \<not> (taskID \<noteq> [] \<and> e_TaskID ev \<noteq> taskID)
                       \<and> \<not> (0 < fromSeq \<and> e_Seq ev \<le> fromSeq)
                       \<and> \<not> (0 < fromTS \<and> e_TS ev < fromTS)) runEvents)))"

definition CompactEvents ::
  "MemoryStore \<Rightarrow> string \<Rightarrow> string \<Rightarrow> int64 \<Rightarrow> MemoryStore \<times> (StateErr + int64)" where
  "CompactEvents s taskID runID beforeTS =
     (let runEvents = events_of s (eventKey taskID runID);
          keep = (\<lambda>ev. (taskID \<noteq> [] \<and> e_TaskID ev \<noteq> taskID) \<or> \<not> e_TS ev < beforeTS)
      in if beforeTS \<le> 0 then (s, Inr 0)
         else if runEvents = [] then (s, Inr 0)
         else
           (s\<lparr>db_events := gm_put (eventKey taskID runID) (filter keep runEvents) (db_events s)\<rparr>,
            Inr (int (length (filter (\<lambda>ev. \<not> keep ev) runEvents)))))"

subsection \<open>The implementation behind the interface\<close>

definition memory_store :: "MemoryStore Store" where
  "memory_store =
     \<lparr>Store_ApplyCreateTransition = (\<lambda>now s t r. ApplyCreateTransition now s (Some t) (Some r)),
      Store_PutTask = PutTask,
      Store_GetTask = GetTask,
      Store_IsAbortRequested = IsAbortRequested,
      Store_UpdateTaskStatus = UpdateTaskStatus,
      Store_UpdateTaskStatusForRun = UpdateTaskStatusForRun,
      Store_SetAbortRequested = SetAbortRequested,
      Store_ClearAbortRequested = ClearAbortRequested,
      Store_SetActiveRun = SetActiveRun,
      Store_ApplyResumeTransition =
        (\<lambda>now1 now2 s taskID r from to. ApplyResumeTransition now1 now2 s taskID (Some r) from to),
      Store_GetTaskByIdempotencyKey = GetTaskByIdempotencyKey,
      Store_ListTasks = ListTasks,
      Store_PutRun = PutRun,
      Store_GetRun = GetRun,
      Store_ClaimRun = ClaimRun,
      Store_CompleteRun = CompleteRun,
      Store_UpdateLastStepIndex = UpdateLastStepIndex,
      Store_AddRunUsage = AddRunUsage,
      Store_ResetRunToQueued = ResetRunToQueued,
      Store_ListRuns = ListRuns,
      Store_PutStep = PutStep,
      Store_GetStep = GetStep,
      Store_ListSteps = ListSteps,
      Store_PutConnection = PutConnection,
      Store_GetConnection = GetConnection,
      Store_DeleteConnection = DeleteConnection,
      Store_GetConnectionsByTask = GetConnectionsByTask,
      Store_PutEvent =
        (\<lambda>now1 now2 s ev. case PutEvent now1 now2 s (Some ev) of
           (s', ev', err) \<Rightarrow> (s', (case ev' of None \<Rightarrow> ev | Some e \<Rightarrow> e), err)),
      Store_ReplayEvents = ReplayEvents,
      Store_CompactEvents = CompactEvents\<rparr>"

section \<open>Histories of the store\<close>

text \<open>
  Every mutating method as an operation, so that a history of the store (the calls of all
  its clients in the order the mutex admits them) is a list of operations.
\<close>

datatype StoreOp =
    OpApplyCreateTransition gotime "Task option" "Run option"
  | OpPutTask Task
  | OpUpdateTaskStatus gotime string "TaskStatus list" TaskStatus
  | OpUpdateTaskStatusForRun gotime string string "TaskStatus list" TaskStatus
  | OpSetAbortRequested gotime string string
  | OpClearAbortRequested gotime string
  | OpSetActiveRun gotime string string
  | OpApplyResumeTransition gotime gotime string "Run option" "TaskStatus list" TaskStatus
  | OpPutRun gotime Run
  | OpClaimRun gotime string string
  | OpCompleteRun gotime string string RunStatus
  | OpUpdateLastStepIndex string string int64
  | OpAddRunUsage string string "TokenUsage option" float64
  | OpResetRunToQueued gotime string string
  | OpPutStep Step
  | OpPutConnection Connection
  | OpDeleteConnection string
  | OpPutEvent gotime gotime "StreamEvent option"
  | OpCompactEvents string string int64

fun apply_op :: "StoreOp \<Rightarrow> MemoryStore \<Rightarrow> MemoryStore" where
  "apply_op (OpApplyCreateTransition now t r) s = fst (ApplyCreateTransition now s t r)"
| "apply_op (OpPutTask t) s = fst (PutTask s t)"
| "apply_op (OpUpdateTaskStatus now t from to) s = fst (UpdateTaskStatus now s t from to)"
| "apply_op (OpUpdateTaskStatusForRun now t r from to) s = fst (UpdateTaskStatusForRun now s t r from to)"
| "apply_op (OpSetAbortRequested now t reason) s = fst (SetAbortRequested now s t reason)"
| "apply_op (OpClearAbortRequested now t) s = fst (ClearAbortRequested now s t)"
| "apply_op (OpSetActiveRun now t r) s = fst (SetActiveRun now s t r)"
| "apply_op (OpApplyResumeTransition now1 now2 t r from to) s =
     fst (ApplyResumeTransition now1 now2 s t r from to)"
| "apply_op (OpPutRun now r) s = fst (PutRun now s r)"
| "apply_op (OpClaimRun now t r) s = fst (ClaimRun now s t r)"
| "apply_op (OpCompleteRun now t r st) s = fst (CompleteRun now s t r st)"
| "apply_op (OpUpdateLastStepIndex t r i) s = fst (UpdateLastStepIndex s t r i)"
| "apply_op (OpAddRunUsage t r u c) s = fst (AddRunUsage s t r u c)"
| "apply_op (OpResetRunToQueued now t r) s = fst (ResetRunToQueued now s t r)"
| "apply_op (OpPutStep st) s = fst (PutStep s st)"
| "apply_op (OpPutConnection c) s = fst (PutConnection s c)"
| "apply_op (OpDeleteConnection c) s = fst (DeleteConnection s c)"
| "apply_op (OpPutEvent now1 now2 e) s = fst (PutEvent now1 now2 s e)"
| "apply_op (OpCompactEvents t r ts) s = fst (CompactEvents s t r ts)"

text \<open>The error an operation reports.\<close>

fun op_error :: "StoreOp \<Rightarrow> MemoryStore \<Rightarrow> StateErr option" where
  "op_error (OpApplyCreateTransition now t r) s = snd (ApplyCreateTransition now s t r)"
| "op_error (OpPutTask t) s = snd (PutTask s t)"
| "op_error (OpUpdateTaskStatus now t from to) s = snd (UpdateTaskStatus now s t from to)"
| "op_error (OpUpdateTaskStatusForRun now t r from to) s = snd (UpdateTaskStatusForRun now s t r from to)"
| "op_error (OpSetAbortRequested now t reason) s = snd (SetAbortRequested now s t reason)"
| "op_error (OpClearAbortRequested now t) s = snd (ClearAbortRequested now s t)"
| "op_error (OpSetActiveRun now t r) s = snd (SetActiveRun now s t r)"
| "op_error (OpApplyResumeTransition now1 now2 t r from to) s =
     snd (ApplyResumeTransition now1 now2 s t r from to)"
| "op_error (OpPutRun now r) s = snd (PutRun now s r)"
| "op_error (OpClaimRun now t r) s = snd (ClaimRun now s t r)"
| "op_error (OpCompleteRun now t r st) s = snd (CompleteRun now s t r st)"
| "op_error (OpUpdateLastStepIndex t r i) s = snd (UpdateLastStepIndex s t r i)"
| "op_error (OpAddRunUsage t r u c) s = snd (AddRunUsage s t r u c)"
| "op_error (OpResetRunToQueued now t r) s = snd (ResetRunToQueued now s t r)"
| "op_error (OpPutStep st) s = snd (PutStep s st)"
| "op_error (OpPutConnection c) s = snd (PutConnection s c)"
| "op_error (OpDeleteConnection c) s = snd (DeleteConnection s c)"
| "op_error (OpPutEvent now1 now2 e) s = snd (snd (PutEvent now1 now2 s e))"
| "op_error (OpCompactEvents t r ts) s =
     (case snd (CompactEvents s t r ts) of Inl e \<Rightarrow> Some e | Inr _ \<Rightarrow> None)"

fun is_PutTask :: "StoreOp \<Rightarrow> bool" where
  "is_PutTask (OpPutTask _) = True"
| "is_PutTask _ = False"

definition run_ops :: "StoreOp list \<Rightarrow> MemoryStore \<Rightarrow> MemoryStore" where
  "run_ops ops s = fold apply_op ops s"

text \<open>
  The representation invariant: maps have distinct keys, every entry is filed under its own
  key, the events of a run are strictly ordered by sequence number and belong to that run,
  and every idempotency entry names a stored task.
\<close>

definition events_wf :: "string \<Rightarrow> StreamEvent list \<Rightarrow> bool" where
  "events_wf k evs \<longleftrightarrow>
     sorted_wrt (<) (map e_Seq evs)
     \<and> list_all (\<lambda>e. eventKey (e_TaskID e) (e_RunID e) = k \<and> e_TaskID e \<noteq> [] \<and> e_RunID e \<noteq> []) evs"

definition store_wf :: "MemoryStore \<Rightarrow> bool" where
  "store_wf s \<longleftrightarrow>
     gm_wf (db_tasks s) \<and> gm_wf (db_runs s) \<and> gm_wf (db_steps s) \<and> gm_wf (db_connections s)
     \<and> gm_wf (db_events s) \<and> gm_wf (db_idempotency s)
     \<and> list_all (\<lambda>(k, t). t_TaskID t = k) (db_tasks s)
     \<and> list_all (\<lambda>(k, r). runKey (r_TaskID r) (r_RunID r) = k) (db_runs s)
     \<and> list_all (\<lambda>(k, st). stepKey (s_RunID st) (s_StepIndex st) = k) (db_steps s)
     \<and> list_all (\<lambda>(k, c). c_ConnectionID c = k) (db_connections s)
     \<and> list_all (\<lambda>(k, evs). events_wf k evs) (db_events s)
     \<and> list_all (\<lambda>(k, tid). gm_has (db_tasks s) tid) (db_idempotency s)"

text \<open>
  What no operation changes of a stored task: its identity, tenant, user, prompt, model
  configuration, idempotency key and creation time.
\<close>

definition task_identity ::
  "Task \<Rightarrow> string \<times> string \<times> string \<times> string \<times> string \<times> ModelConfig option \<times> gotime" where
  "task_identity t =
     (t_TaskID t, t_TenantID t, t_UserID t, t_IdempotencyKey t, t_Prompt t, t_ModelConfig t, t_CreatedAt t)"

text \<open>Likewise for a run: its identity, tenant, lineage and model configuration.\<close>

definition run_identity ::
  "Run \<Rightarrow> string \<times> string \<times> string \<times> string \<times> int64 option \<times> ModelConfig option" where
  "run_identity r =
     (r_TaskID r, r_RunID r, r_TenantID r, r_ParentRunID r, r_ResumeFromStepIndex r, r_ModelConfig r)"

text \<open>
  How a store evolves: stored tasks and runs stay and keep their identity, stored steps and
  idempotency entries stay unchanged.
\<close>

definition store_extends :: "MemoryStore \<Rightarrow> MemoryStore \<Rightarrow> bool" where
  "store_extends s s' \<longleftrightarrow>
     gm_grows task_identity (db_tasks s) (db_tasks s')
     \<and> gm_grows run_identity (db_runs s) (db_runs s')
     \<and> gm_grows (\<lambda>st. st) (db_steps s) (db_steps s')
     \<and> gm_grows (\<lambda>tid. tid) (db_idempotency s) (db_idempotency s')"

text \<open>The run filed under a key has been claimed, and the operations that may unclaim it.\<close>

definition claimed :: "string \<Rightarrow> MemoryStore \<Rightarrow> bool" where
  "claimed k s \<longleftrightarrow>
     (case gm_get (db_runs s) k of None \<Rightarrow> False | Some r \<Rightarrow> r_Status r \<noteq> RunStatusQueued)"

fun keeps_claim :: "string \<Rightarrow> StoreOp \<Rightarrow> bool" where
  "keeps_claim k (OpResetRunToQueued _ t r) = (runKey t r \<noteq> k)"
| "keeps_claim k (OpCompleteRun _ t r st) = (runKey t r \<noteq> k \<or> st \<noteq> RunStatusQueued)"
| "keeps_claim k _ = True"

text \<open>Every queued run carries the time it was queued at.\<close>

definition queued_stamped :: "MemoryStore \<Rightarrow> bool" where
  "queued_stamped s \<longleftrightarrow>
     list_all (\<lambda>(k, r). r_Status r = RunStatusQueued \<longrightarrow> r_QueuedAt r \<noteq> None) (db_runs s)"

fun completes_terminally :: "StoreOp \<Rightarrow> bool" where
  "completes_terminally (OpCompleteRun _ _ _ st) = run_terminal st"
| "completes_terminally _ = True"

section \<open>Lemmas on the representation\<close>

lemmas store_op_defs =
  ApplyCreateTransition_def PutTask_def UpdateTaskStatus_def UpdateTaskStatusForRun_def
  SetAbortRequested_def ClearAbortRequested_def SetActiveRun_def ApplyResumeTransition_def
  PutRun_def ClaimRun_def CompleteRun_def UpdateLastStepIndex_def AddRunUsage_def
  ResetRunToQueued_def PutStep_def PutConnection_def DeleteConnection_def PutEvent_def
  CompactEvents_def

lemma stepKey_inj [simp]: "stepKey r i = stepKey r' i' \<longleftrightarrow> r = r' \<and> i = i'"
  using join_last_sep [of r "CHR ''#''" "fmt_08d i" r' "fmt_08d i'"]
  by (auto simp: stepKey_def fmt_08d_inj hash_notin_fmt_08d)

lemma runKey_inj:
  "CHR ''#'' \<notin> set t \<Longrightarrow> CHR ''#'' \<notin> set t' \<Longrightarrow> runKey t r = runKey t' r' \<longleftrightarrow> t = t' \<and> r = r'"
  using join_first_sep [of t "CHR ''#''" r t' r'] by (auto simp: runKey_def)

lemma wf_task_key: "store_wf s \<Longrightarrow> gm_get (db_tasks s) k = Some t \<Longrightarrow> t_TaskID t = k"
  unfolding store_wf_def list_all_iff by (auto dest: map_of_SomeD)

lemma wf_run_key:
  "store_wf s \<Longrightarrow> gm_get (db_runs s) k = Some r \<Longrightarrow> runKey (r_TaskID r) (r_RunID r) = k"
  unfolding store_wf_def list_all_iff by (auto dest: map_of_SomeD)

lemma wf_step_key:
  "store_wf s \<Longrightarrow> gm_get (db_steps s) k = Some st \<Longrightarrow> stepKey (s_RunID st) (s_StepIndex st) = k"
  unfolding store_wf_def list_all_iff by (auto dest: map_of_SomeD)

lemma wf_events: "store_wf s \<Longrightarrow> events_wf k (events_of s k)"
  unfolding store_wf_def list_all_iff events_of_def
  by (auto simp: events_wf_def split: option.splits dest: map_of_SomeD)

lemma wf_idempotency:
  "store_wf s \<Longrightarrow> gm_get (db_idempotency s) k = Some tid \<Longrightarrow> gm_has (db_tasks s) tid"
  unfolding store_wf_def list_all_iff by (auto dest: map_of_SomeD)

lemma wf_put_task:
  assumes "store_wf s" and "t_TaskID t = k"
  shows "store_wf (s\<lparr>db_tasks := gm_put k t (db_tasks s)\<rparr>)"
  using assms by (auto simp: store_wf_def list_all_iff set_gm_put gomap_simps)

lemma wf_put_run:
  assumes "store_wf s" and "runKey (r_TaskID r) (r_RunID r) = k"
  shows "store_wf (s\<lparr>db_runs := gm_put k r (db_runs s)\<rparr>)"
  using assms by (auto simp: store_wf_def list_all_iff set_gm_put)

lemma wf_put_events:
  assumes "store_wf s" and "events_wf k evs"
  shows "store_wf (s\<lparr>db_events := gm_put k evs (db_events s)\<rparr>)"
  using assms by (auto simp: store_wf_def list_all_iff set_gm_put)

lemma wf_put_idempotency:
  assumes "store_wf s" and "gm_has (db_tasks s) tid"
  shows "store_wf (s\<lparr>db_idempotency := gm_put k tid (db_idempotency s)\<rparr>)"
  using assms by (auto simp: store_wf_def list_all_iff set_gm_put)

section \<open>Every operation keeps the representation invariant\<close>

lemma ensureQueuedAt_None [simp]: "ensureQueuedAt None now = None"
  by (simp add: ensureQueuedAt_def)

lemma ensureQueuedAt_identity:
  "ensureQueuedAt r0 now = Some r \<Longrightarrow> run_identity r = run_identity (the r0)"
  by (auto simp: ensureQueuedAt_def run_identity_def split: option.splits if_splits)

lemma ensureQueuedAt_eq_None [simp]: "ensureQueuedAt r now = None \<longleftrightarrow> r = None"
  by (auto simp: ensureQueuedAt_def split: option.splits)

lemma ensureQueuedAt_Some:
  obtains r where "ensureQueuedAt (Some r0) now = Some r" "r_TaskID r = r_TaskID r0" "r_RunID r = r_RunID r0"
  by (cases "r_Status r0 \<noteq> RunStatusQueued \<or> r_QueuedAt r0 \<noteq> None") (auto simp: ensureQueuedAt_def)

lemma ensureQueuedAt_stamped:
  "ensureQueuedAt r0 now = Some r \<Longrightarrow> r_Status r = RunStatusQueued \<Longrightarrow> r_QueuedAt r \<noteq> None"
  by (auto simp: ensureQueuedAt_def split: option.splits if_splits)

lemma wf_NewMemoryStore: "store_wf NewMemoryStore"
  by (simp add: store_wf_def NewMemoryStore_def)

lemma wf_ApplyCreateTransition:
  assumes "store_wf s"
  shows "store_wf (fst (ApplyCreateTransition now s t r))"
proof -
  have put: "store_wf (s\<lparr>db_tasks := gm_put (t_TaskID t) t (db_tasks s),
               db_runs := gm_put k' r (db_runs s)\<rparr>)"
    if "runKey (r_TaskID r) (r_RunID r) = k'" for t r k'
    using wf_put_run [OF wf_put_task [OF assms refl] that] by simp
  have "store_wf (s\<lparr>db_idempotency := gm_put k (t_TaskID t) (db_idempotency s),
               db_tasks := gm_put (t_TaskID t) t (db_tasks s),
               db_runs := gm_put k' r (db_runs s)\<rparr>)"
    if "runKey (r_TaskID r) (r_RunID r) = k'" for t r k k'
    using wf_put_idempotency [OF put [OF that, where t = t], of "t_TaskID t" k]
    by (simp add: gomap_simps store_wf_def)
  with put show ?thesis
    using assms by (simp add: ApplyCreateTransition_def split: option.split)
qed

lemma wf_PutTask:
  assumes "store_wf s"
  shows "store_wf (fst (PutTask s t))"
proof -
  have put: "store_wf (s\<lparr>db_tasks := gm_put (t_TaskID t) t (db_tasks s)\<rparr>)"
    using wf_put_task [OF assms refl] .
  have "store_wf (s\<lparr>db_idempotency := gm_put k (t_TaskID t) (db_idempotency s),
               db_tasks := gm_put (t_TaskID t) t (db_tasks s)\<rparr>)" for k
    using wf_put_idempotency [OF put, of "t_TaskID t" k] by (simp add: gomap_simps store_wf_def)
  with put show ?thesis
    using assms wf_put_idempotency [OF assms] by (simp add: PutTask_def Let_def)
qed

lemma wf_task_updates:
  assumes "store_wf s"
  shows "store_wf (fst (UpdateTaskStatus now s taskID from to))"
    and "store_wf (fst (UpdateTaskStatusForRun now s taskID runID from to))"
    and "store_wf (fst (SetAbortRequested now s taskID reason))"
    and "store_wf (fst (ClearAbortRequested now s taskID))"
    and "store_wf (fst (SetActiveRun now s taskID runID))"
  using assms wf_task_key [OF assms]
  by (auto simp: store_op_defs wf_put_task split: option.split)

lemma wf_ApplyResumeTransition:
  assumes "store_wf s"
  shows "store_wf (fst (ApplyResumeTransition now1 now2 s taskID r from to))"
proof -
  have "store_wf (s\<lparr>db_runs := gm_put (runKey (r_TaskID r) (r_RunID r)) r (db_runs s),
          db_tasks := gm_put taskID t (db_tasks s)\<rparr>)" if "t_TaskID t = taskID" for t r
    using wf_put_task [OF wf_put_run [OF assms refl] that] by simp
  then show ?thesis
    using assms wf_task_key [OF assms]
    by (auto simp: ApplyResumeTransition_def split: option.split)
qed

lemma wf_run_updates:
  assumes "store_wf s"
  shows "store_wf (fst (PutRun now s run0))"
    and "store_wf (fst (ClaimRun now s taskID runID))"
    and "store_wf (fst (CompleteRun now s taskID runID st))"
    and "store_wf (fst (UpdateLastStepIndex s taskID runID idx))"
    and "store_wf (fst (AddRunUsage s taskID runID usage cost))"
    and "store_wf (fst (ResetRunToQueued now s taskID runID))"
  using assms wf_run_key [OF assms]
  by (auto simp: store_op_defs Let_def wf_put_run split: option.split)

lemma wf_PutStep: "store_wf s \<Longrightarrow> store_wf (fst (PutStep s st))"
  by (auto simp: PutStep_def Let_def store_wf_def list_all_iff set_gm_put)

lemma wf_connection_updates:
  assumes "store_wf s"
  shows "store_wf (fst (PutConnection s c))"
    and "store_wf (fst (DeleteConnection s cid))"
  using assms
  by (auto simp: PutConnection_def DeleteConnection_def store_wf_def list_all_iff set_gm_put
      set_gm_del)

text \<open>Inserting an unseen sequence number into a strictly ordered event list.\<close>

lemma sorted_events_insert:
  assumes "sorted_wrt (<) (map e_Seq evs)" and "e_Seq ev \<notin> e_Seq ` set evs"
  shows "sorted_wrt (<) (map e_Seq (sort_key (\<lambda>e. (e_Seq e, e_TS e)) (evs @ [ev])))"
proof -
  let ?xs = "sort_key (\<lambda>e. (e_Seq e, e_TS e)) (evs @ [ev])"
  have "sorted (map (\<lambda>e. (e_Seq e, e_TS e)) ?xs)" by (rule sorted_sort_key)
  then have "sorted (map e_Seq ?xs)"
    by (auto simp: sorted_wrt_map intro: sorted_wrt_mono_rel [rotated])
  moreover have "distinct (map e_Seq ?xs)"
  proof -
    have "distinct (map e_Seq (evs @ [ev]))"
      using assms by (auto simp: strict_sorted_iff)
    moreover have "mset (map e_Seq ?xs) = mset (map e_Seq (evs @ [ev]))" by simp
    ultimately show ?thesis by (metis mset_eq_imp_distinct_iff)
  qed
  ultimately show ?thesis by (simp add: strict_sorted_iff)
qed

lemma sorted_wrt_map_filter:
  "sorted_wrt R (map f xs) \<Longrightarrow> sorted_wrt R (map f (filter P xs))"
  by (induction xs) auto

lemma events_wf_filter: "events_wf k evs \<Longrightarrow> events_wf k (filter P evs)"
  by (simp add: events_wf_def sorted_wrt_map_filter list_all_iff)

lemma events_wf_insert:
  assumes "events_wf k evs" and "eventKey (e_TaskID ev) (e_RunID ev) = k"
    and "e_TaskID ev \<noteq> []" and "e_RunID ev \<noteq> []" and "e_Seq ev \<notin> e_Seq ` set evs"
  shows "events_wf k (sort_key (\<lambda>e. (e_Seq e, e_TS e)) (evs @ [ev]))"
  using assms sorted_events_insert [of evs ev] by (auto simp: events_wf_def list_all_iff)

lemma wf_event_updates:
  assumes "store_wf s"
  shows "store_wf (fst (PutEvent now1 now2 s ev))"
    and "store_wf (fst (CompactEvents s taskID runID beforeTS))"
proof -
  show "store_wf (fst (PutEvent now1 now2 s ev))"
  proof (cases ev)
    case None
    then show ?thesis using assms by (simp add: PutEvent_def)
  next
    case (Some e)
    then show ?thesis
      using assms wf_events [OF assms, of "eventKey (e_TaskID e) (e_RunID e)"]
      by (auto simp: PutEvent_def Let_def intro!: wf_put_events events_wf_filter events_wf_insert)
  qed
  show "store_wf (fst (CompactEvents s taskID runID beforeTS))"
    using assms wf_events [OF assms]
    by (auto simp: CompactEvents_def Let_def intro!: wf_put_events events_wf_filter)
qed

lemma wf_apply_op: "store_wf s \<Longrightarrow> store_wf (apply_op op s)"
  by (cases op)
    (simp_all add: wf_ApplyCreateTransition wf_PutTask wf_task_updates wf_ApplyResumeTransition
      wf_run_updates wf_PutStep wf_connection_updates wf_event_updates)

section \<open>How histories evolve\<close>

lemma store_extends_refl [simp]: "store_extends s s"
  by (simp add: store_extends_def)

lemma store_extends_trans: "store_extends s s' \<Longrightarrow> store_extends s' s'' \<Longrightarrow> store_extends s s''"
  unfolding store_extends_def by (blast intro: gm_grows_trans)

lemma extends_ApplyCreateTransition: "store_extends s (fst (ApplyCreateTransition now s t r))"
  by (simp add: ApplyCreateTransition_def store_extends_def gm_grows_put_new split: option.split)

lemma extends_PutTask: "store_extends s (fst (PutTask s t))"
  by (simp add: PutTask_def Let_def store_extends_def gm_grows_put_new)

lemma extends_task_updates:
  "store_extends s (fst (UpdateTaskStatus now s taskID from to))"
  "store_extends s (fst (UpdateTaskStatusForRun now s taskID runID from to))"
  "store_extends s (fst (SetAbortRequested now s taskID reason))"
  "store_extends s (fst (ClearAbortRequested now s taskID))"
  "store_extends s (fst (SetActiveRun now s taskID runID))"
  by (auto simp: store_op_defs store_extends_def task_identity_def
      intro!: gm_grows_put_same split: option.split)

lemma extends_ApplyResumeTransition:
  "store_extends s (fst (ApplyResumeTransition now1 now2 s taskID r from to))"
  by (auto simp: ApplyResumeTransition_def store_extends_def gm_grows_put_new task_identity_def
      intro!: gm_grows_put_same [where f = task_identity] split: option.split)

lemma extends_run_updates:
  "store_extends s (fst (PutRun now s run0))"
  "store_extends s (fst (ClaimRun now s taskID runID))"
  "store_extends s (fst (CompleteRun now s taskID runID st))"
  "store_extends s (fst (UpdateLastStepIndex s taskID runID idx))"
  "store_extends s (fst (AddRunUsage s taskID runID usage cost))"
  "store_extends s (fst (ResetRunToQueued now s taskID runID))"
  by (auto simp: store_op_defs Let_def store_extends_def gm_grows_put_new run_identity_def
      intro!: gm_grows_put_same [where f = run_identity] split: option.split)

lemma extends_other_updates:
  "store_extends s (fst (PutStep s st))"
  "store_extends s (fst (PutConnection s c))"
  "store_extends s (fst (DeleteConnection s cid))"
  "store_extends s (fst (PutEvent now1 now2 s ev))"
  "store_extends s (fst (CompactEvents s taskID runID beforeTS))"
  by (simp_all add: store_op_defs Let_def store_extends_def gm_grows_put_new split: option.split)

lemma extends_apply_op: "store_extends s (apply_op op s)"
  by (cases op)
    (simp_all add: extends_ApplyCreateTransition extends_PutTask extends_task_updates
      extends_ApplyResumeTransition extends_run_updates extends_other_updates)

interpretation history: evolution apply_op store_wf "\<lambda>_. True" store_extends
  by unfold_locales (auto simp: wf_apply_op extends_apply_op elim: store_extends_trans)

text \<open>A claim, once made, stays until the run is explicitly put back to the queue.\<close>

lemma same_runs:
  "db_runs (fst (PutTask s t)) = db_runs s"
  "db_runs (fst (UpdateTaskStatus now s taskID from to)) = db_runs s"
  "db_runs (fst (UpdateTaskStatusForRun now s taskID runID from to)) = db_runs s"
  "db_runs (fst (SetAbortRequested now s taskID reason)) = db_runs s"
  "db_runs (fst (ClearAbortRequested now s taskID)) = db_runs s"
  "db_runs (fst (SetActiveRun now s taskID runID)) = db_runs s"
  "db_runs (fst (PutStep s st)) = db_runs s"
  "db_runs (fst (PutConnection s c)) = db_runs s"
  "db_runs (fst (DeleteConnection s cid)) = db_runs s"
  "db_runs (fst (PutEvent now1 now2 s ev)) = db_runs s"
  "db_runs (fst (CompactEvents s taskID runID beforeTS)) = db_runs s"
  by (simp_all add: store_op_defs Let_def split: option.split)

text \<open>The operations that create a run add one under an unused key, stamped when queued.\<close>

definition adds_run :: "MemoryStore \<Rightarrow> MemoryStore \<Rightarrow> bool" where
  "adds_run s s' \<longleftrightarrow>
     db_runs s' = db_runs s
     \<or> (\<exists>k r. gm_get (db_runs s) k = None \<and> db_runs s' = gm_put k r (db_runs s)
          \<and> (r_Status r = RunStatusQueued \<longrightarrow> r_QueuedAt r \<noteq> None))"

lemma adds_runI:
  "ensureQueuedAt r0 now = Some r \<Longrightarrow> \<not> gm_has (db_runs s) k \<Longrightarrow> db_runs s' = gm_put k r (db_runs s)
   \<Longrightarrow> adds_run s s'"
  unfolding adds_run_def gm_has_def by (metis ensureQueuedAt_stamped)

lemma adds_run_refl [simp]: "adds_run s s"
  by (simp add: adds_run_def)

lemma adds_run_ApplyCreateTransition: "adds_run s (fst (ApplyCreateTransition now s t r))"
proof (cases "\<exists>t' r'. t = Some t' \<and> ensureQueuedAt r now = Some r'")
  case True
  then obtain t' r' where [simp]: "t = Some t'" and eq: "ensureQueuedAt r now = Some r'" by blast
  show ?thesis
    by (simp add: ApplyCreateTransition_def eq) (auto intro: adds_runI [OF eq])
next
  case False
  then show ?thesis by (auto simp: ApplyCreateTransition_def split: option.split)
qed

lemma adds_run_ApplyResumeTransition:
  "adds_run s (fst (ApplyResumeTransition now1 now2 s taskID r from to))"
proof (cases "ensureQueuedAt r now1")
  case None
  then show ?thesis by (simp add: ApplyResumeTransition_def)
next
  case (Some r')
  then show ?thesis
    by (auto simp: ApplyResumeTransition_def split: option.split intro: adds_runI [OF Some])
qed

lemma adds_run_PutRun: "adds_run s (fst (PutRun now s r))"
proof -
  obtain r' where "ensureQueuedAt (Some r) now = Some r'"
    by (cases "ensureQueuedAt (Some r) now") simp_all
  then show ?thesis by (simp add: PutRun_def Let_def adds_runI)
qed

lemma claimed_adds_run: "claimed k s \<Longrightarrow> adds_run s s' \<Longrightarrow> claimed k s'"
  by (auto simp: claimed_def adds_run_def gomap_simps split: option.splits if_splits)

lemma claimed_run_updates:
  assumes "claimed k s"
  shows "claimed k (fst (ClaimRun now s taskID runID))"
    and "runKey taskID runID = k \<longrightarrow> st \<noteq> RunStatusQueued \<Longrightarrow> claimed k (fst (CompleteRun now s taskID runID st))"
    and "claimed k (fst (UpdateLastStepIndex s taskID runID idx))"
    and "claimed k (fst (AddRunUsage s taskID runID usage cost))"
    and "runKey taskID runID \<noteq> k \<Longrightarrow> claimed k (fst (ResetRunToQueued now s taskID runID))"
  using assms
  by (auto simp: ClaimRun_def CompleteRun_def UpdateLastStepIndex_def AddRunUsage_def
      ResetRunToQueued_def Let_def claimed_def gomap_simps split: option.splits)

lemma claimed_same_runs: "claimed k s \<Longrightarrow> db_runs s' = db_runs s \<Longrightarrow> claimed k s'"
  by (simp add: claimed_def)

lemma claimed_apply_op: "claimed k s \<Longrightarrow> keeps_claim k op \<Longrightarrow> claimed k (apply_op op s)"
  by (cases op)
    (simp_all add: claimed_run_updates claimed_same_runs same_runs
      claimed_adds_run [OF _ adds_run_ApplyCreateTransition]
      claimed_adds_run [OF _ adds_run_ApplyResumeTransition] claimed_adds_run [OF _ adds_run_PutRun])

interpretation claim: machine apply_op "claimed k" "keeps_claim k" for k
  by unfold_locales (rule claimed_apply_op)

lemma stamped_iff:
  "store_wf s \<Longrightarrow> queued_stamped s \<longleftrightarrow>
     (\<forall>k r. gm_get (db_runs s) k = Some r \<longrightarrow> r_Status r = RunStatusQueued \<longrightarrow> r_QueuedAt r \<noteq> None)"
  by (auto simp: queued_stamped_def list_all_iff store_wf_def)

lemma stamped_put_run:
  "store_wf s \<Longrightarrow> queued_stamped s \<Longrightarrow> (r_Status r = RunStatusQueued \<longrightarrow> r_QueuedAt r \<noteq> None)
   \<Longrightarrow> db_runs s' = gm_put k r (db_runs s) \<Longrightarrow> queued_stamped s'"
  by (auto simp: queued_stamped_def list_all_iff store_wf_def set_gm_put)

lemma stamped_upd_run:
  "store_wf s \<Longrightarrow> queued_stamped s \<Longrightarrow> (r_Status r = RunStatusQueued \<longrightarrow> r_QueuedAt r \<noteq> None)
   \<Longrightarrow> queued_stamped (s\<lparr>db_runs := gm_put k r (db_runs s)\<rparr>)"
  by (rule stamped_put_run) simp_all

lemma stamped_same_runs: "queued_stamped s \<Longrightarrow> db_runs s' = db_runs s \<Longrightarrow> queued_stamped s'"
  by (simp add: queued_stamped_def)

lemma stamped_adds_run: "store_wf s \<Longrightarrow> queued_stamped s \<Longrightarrow> adds_run s s' \<Longrightarrow> queued_stamped s'"
  unfolding adds_run_def by (blast intro: stamped_same_runs stamped_put_run)

lemma stamped_run_updates:
  assumes "store_wf s" and "queued_stamped s"
  shows "queued_stamped (fst (ClaimRun now s taskID runID))"
    and "run_terminal st \<Longrightarrow> queued_stamped (fst (CompleteRun now s taskID runID st))"
    and "queued_stamped (fst (UpdateLastStepIndex s taskID runID idx))"
    and "queued_stamped (fst (AddRunUsage s taskID runID usage cost))"
    and "queued_stamped (fst (ResetRunToQueued now s taskID runID))"
  using assms stamped_iff [OF assms(1)]
  by (auto simp: ClaimRun_def CompleteRun_def UpdateLastStepIndex_def AddRunUsage_def
      ResetRunToQueued_def Let_def run_terminal_def intro!: stamped_upd_run [OF assms]
      split: option.split)

lemma stamped_apply_op:
  "store_wf s \<Longrightarrow> queued_stamped s \<Longrightarrow> completes_terminally op \<Longrightarrow> queued_stamped (apply_op op s)"
  by (cases op)
    (simp_all add: stamped_run_updates stamped_same_runs same_runs
      stamped_adds_run [OF _ _ adds_run_ApplyCreateTransition]
      stamped_adds_run [OF _ _ adds_run_ApplyResumeTransition]
      stamped_adds_run [OF _ _ adds_run_PutRun])

interpretation stamp: machine apply_op "\<lambda>s. store_wf s \<and> queued_stamped s" completes_terminally
  by unfold_locales (simp add: wf_apply_op stamped_apply_op)

lemma wf_run_ops: "store_wf (run_ops ops NewMemoryStore)"
  unfolding run_ops_def by (rule history.inv_run [OF wf_NewMemoryStore]) (simp add: list_all_iff)

end
