(* ===== verification/StateContract.thy ===== *)
theory StateContract
  imports StateStore
begin

text \<open>
  The contract the services have with a \<open>state.Store\<close> (\<open>pkg/state/store.go\<close>), as a
  locale over the record of its methods, its extension for a store that lives in the process
  itself, and the interpretation of both on the in-memory store.
\<close>

section \<open>The contract of a store\<close>

text \<open>
  What the services rely on, for any implementation of \<open>state.Store\<close>: the stored tasks,
  runs (under \<open>runKey\<close>) and steps (under \<open>stepKey\<close>) are views of its state; a
  successful call has exactly its documented effect on the views, a failed one has none.
  A call may still fail for reasons of its own (a remote store).
\<close>

locale state_store =
  fixes S :: "'s Store"
    and inv :: "'s \<Rightarrow> bool"
    and tasks :: "'s \<Rightarrow> string \<Rightarrow> Task option"
    and runs :: "'s \<Rightarrow> string \<Rightarrow> Run option"
    and steps :: "'s \<Rightarrow> string \<Rightarrow> Step option"
  assumes get_task_ok: "inv s \<Longrightarrow> Store_GetTask S s t = Inr x \<Longrightarrow> tasks s t = Some x"
    and task_id: "inv s \<Longrightarrow> tasks s t = Some x \<Longrightarrow> t_TaskID x = t"
    and get_run_ok: "inv s \<Longrightarrow> Store_GetRun S s t r = Inr y \<Longrightarrow> runs s (runKey t r) = Some y"
    and get_step_ok: "inv s \<Longrightarrow> Store_GetStep S s r i = Inr z \<Longrightarrow> steps s (stepKey r i) = Some z"
    and abort_requested_ok:
      "inv s \<Longrightarrow> Store_IsAbortRequested S s t = Inr (b, why)
       \<Longrightarrow> \<exists>x. tasks s t = Some x \<and> b = t_AbortRequested x \<and> why = t_AbortReason x"
    and create_ok:
      "inv s \<Longrightarrow> Store_ApplyCreateTransition S now s x y = (s', None)
       \<Longrightarrow> inv s' \<and> tasks s (t_TaskID x) = None \<and> runs s (runKey (r_TaskID y) (r_RunID y)) = None
           \<and> tasks s' = (tasks s)(t_TaskID x \<mapsto> x)
           \<and> runs s' = (runs s)(runKey (r_TaskID y) (r_RunID y) \<mapsto> the (ensureQueuedAt (Some y) now))
           \<and> steps s' = steps s"
    and create_err:
      "inv s \<Longrightarrow> Store_ApplyCreateTransition S now s x y = (s', Some e) \<Longrightarrow> s' = s"
    and update_task_ok:
      "inv s \<Longrightarrow> Store_UpdateTaskStatus S now s t from to = (s', None)
       \<Longrightarrow> \<exists>x. tasks s t = Some x \<and> t_Status x \<in> set from
           \<and> inv s' \<and> tasks s' = (tasks s)(t \<mapsto> x\<lparr>t_Status := to, t_UpdatedAt := now\<rparr>)
           \<and> runs s' = runs s \<and> steps s' = steps s"
    and update_task_err:
      "inv s \<Longrightarrow> Store_UpdateTaskStatus S now s t from to = (s', Some e) \<Longrightarrow> s' = s"
    and update_for_run_ok:
      "inv s \<Longrightarrow> Store_UpdateTaskStatusForRun S now s t r from to = (s', None)
       \<Longrightarrow> \<exists>x. tasks s t = Some x \<and> t_ActiveRunID x = r \<and> t_Status x \<in> set from
           \<and> inv s' \<and> tasks s' = (tasks s)(t \<mapsto> x\<lparr>t_Status := to, t_UpdatedAt := now\<rparr>)
           \<and> runs s' = runs s \<and> steps s' = steps s"
    and update_for_run_err:
      "inv s \<Longrightarrow> Store_UpdateTaskStatusForRun S now s t r from to = (s', Some e) \<Longrightarrow> s' = s"
    and set_abort_ok:
      "inv s \<Longrightarrow> Store_SetAbortRequested S now s t why = (s', None)
       \<Longrightarrow> \<exists>x. tasks s t = Some x \<and> inv s'
           \<and> tasks s' = (tasks s)(t \<mapsto> x\<lparr>t_AbortRequested := True, t_AbortReason := why,
                t_AbortTS := Some now, t_UpdatedAt := now\<rparr>)
           \<and> runs s' = runs s \<and> steps s' = steps s"
    and set_abort_err:
      "inv s \<Longrightarrow> Store_SetAbortRequested S now s t why = (s', Some e) \<Longrightarrow> s' = s"
    and resume_ok:
      "inv s \<Longrightarrow> Store_ApplyResumeTransition S now1 now2 s t y from to = (s', None)
       \<Longrightarrow> \<exists>x. tasks s t = Some x \<and> t_Status x \<in> set from \<and> r_TaskID y = t
           \<and> runs s (runKey t (r_RunID y)) = None \<and> inv s'
           \<and> tasks s' = (tasks s)(t \<mapsto> x\<lparr>t_ActiveRunID := r_RunID y, t_AbortRequested := False,
                t_AbortReason := [], t_AbortTS := None, t_Status := to, t_UpdatedAt := now2\<rparr>)
           \<and> runs s' = (runs s)(runKey t (r_RunID y) \<mapsto> the (ensureQueuedAt (Some y) now1))
           \<and> steps s' = steps s"
    and resume_err:
      "inv s \<Longrightarrow> Store_ApplyResumeTransition S now1 now2 s t y from to = (s', Some e) \<Longrightarrow> s' = s"
    and claim_ok:
      "inv s \<Longrightarrow> Store_ClaimRun S now s t r = (s', None)
       \<Longrightarrow> \<exists>y. runs s (runKey t r) = Some y \<and> r_Status y = RunStatusQueued \<and> inv s'
           \<and> runs s' = (runs s)(runKey t r \<mapsto> y\<lparr>r_Status := RunStatusRunning, r_StartedAt := Some now\<rparr>)
           \<and> tasks s' = tasks s \<and> steps s' = steps s"
    and claim_err: "inv s \<Longrightarrow> Store_ClaimRun S now s t r = (s', Some e) \<Longrightarrow> s' = s"
    and complete_ok:
      "inv s \<Longrightarrow> Store_CompleteRun S now s t r st = (s', None)
       \<Longrightarrow> \<exists>y. runs s (runKey t r) = Some y \<and> inv s'
           \<and> runs s' = (runs s)(runKey t r \<mapsto> y\<lparr>r_Status := st, r_EndedAt := Some now\<rparr>)
           \<and> tasks s' = tasks s \<and> steps s' = steps s"
    and complete_err: "inv s \<Longrightarrow> Store_CompleteRun S now s t r st = (s', Some e) \<Longrightarrow> s' = s"
    and reset_ok:
      "inv s \<Longrightarrow> Store_ResetRunToQueued S now s t r = (s', None)
       \<Longrightarrow> \<exists>y. runs s (runKey t r) = Some y \<and> inv s'
           \<and> runs s' = (runs s)(runKey t r \<mapsto> y\<lparr>r_Status := RunStatusQueued, r_QueuedAt := Some now,
                r_StartedAt := None, r_EndedAt := None\<rparr>)
           \<and> tasks s' = tasks s \<and> steps s' = steps s"
    and reset_err: "inv s \<Longrightarrow> Store_ResetRunToQueued S now s t r = (s', Some e) \<Longrightarrow> s' = s"
    and last_step_ok:
      "inv s \<Longrightarrow> Store_UpdateLastStepIndex S s t r i = (s', None)
       \<Longrightarrow> \<exists>y. runs s (runKey t r) = Some y \<and> inv s'
           \<and> runs s' = (runs s)(runKey t r \<mapsto> y\<lparr>r_LastStepIndex := i\<rparr>)
           \<and> tasks s' = tasks s \<and> steps s' = steps s"
    and last_step_err: "inv s \<Longrightarrow> Store_UpdateLastStepIndex S s t r i = (s', Some e) \<Longrightarrow> s' = s"
    and usage_ok:
      "inv s \<Longrightarrow> Store_AddRunUsage S s t r u c = (s', None)
       \<Longrightarrow> \<exists>y. runs s (runKey t r) = Some y \<and> inv s'
           \<and> runs s' = (runs s)(runKey t r \<mapsto> y\<lparr>
                r_TotalTokenUsage := (case u of None \<Rightarrow> r_TotalTokenUsage y
                  | Some u' \<Rightarrow> Some (add_usage (r_TotalTokenUsage y) u')),
                r_TotalCostUSD := (if 0 < c then f64_add (r_TotalCostUSD y) c else r_TotalCostUSD y)\<rparr>)
           \<and> tasks s' = tasks s \<and> steps s' = steps s"
    and usage_err: "inv s \<Longrightarrow> Store_AddRunUsage S s t r u c = (s', Some e) \<Longrightarrow> s' = s"
    and put_step_ok:
      "inv s \<Longrightarrow> Store_PutStep S s z = (s', None)
       \<Longrightarrow> steps s (stepKey (s_RunID z) (s_StepIndex z)) = None \<and> inv s'
           \<and> steps s' = (steps s)(stepKey (s_RunID z) (s_StepIndex z) \<mapsto> z)
           \<and> tasks s' = tasks s \<and> runs s' = runs s"
    and put_step_err: "inv s \<Longrightarrow> Store_PutStep S s z = (s', Some e) \<Longrightarrow> s' = s"
    and put_event_frame:
      "inv s \<Longrightarrow> Store_PutEvent S now1 now2 s ev = (s', ev', err)
       \<Longrightarrow> inv s' \<and> tasks s' = tasks s \<and> runs s' = runs s \<and> steps s' = steps s"
    and put_connection_frame:
      "inv s \<Longrightarrow> Store_PutConnection S s conn = (s', err)
       \<Longrightarrow> inv s' \<and> tasks s' = tasks s \<and> runs s' = runs s \<and> steps s' = steps s"
    and delete_connection_frame:
      "inv s \<Longrightarrow> Store_DeleteConnection S s cid = (s', err)
       \<Longrightarrow> inv s' \<and> tasks s' = tasks s \<and> runs s' = runs s \<and> steps s' = steps s"
    and compact_frame:
      "inv s \<Longrightarrow> Store_CompactEvents S s t r ts = (s', res)
       \<Longrightarrow> inv s' \<and> tasks s' = tasks s \<and> runs s' = runs s \<and> steps s' = steps s"

text \<open>
  A store in the process itself: a call fails only for the reason the state gives. Listings
  hold exactly the matching entities, up to the limit.
\<close>

locale local_store = state_store +
  assumes get_task: "inv s \<Longrightarrow> tasks s t = Some x \<Longrightarrow> Store_GetTask S s t = Inr x"
    and get_task_none: "inv s \<Longrightarrow> tasks s t = None \<Longrightarrow> Store_GetTask S s t = Inl ErrNotFound"
    and get_run: "inv s \<Longrightarrow> runs s (runKey t r) = Some y \<Longrightarrow> Store_GetRun S s t r = Inr y"
    and get_run_none: "inv s \<Longrightarrow> runs s (runKey t r) = None \<Longrightarrow> Store_GetRun S s t r = Inl ErrNotFound"
    and is_abort:
      "inv s \<Longrightarrow> tasks s t = Some x \<Longrightarrow> Store_IsAbortRequested S s t = Inr (t_AbortRequested x, t_AbortReason x)"
    and claim_succeeds:
      "inv s \<Longrightarrow> runs s (runKey t r) = Some y \<Longrightarrow> r_Status y = RunStatusQueued
       \<Longrightarrow> snd (Store_ClaimRun S now s t r) = None"
    and claim_conflict:
      "inv s \<Longrightarrow> runs s (runKey t r) = Some y \<Longrightarrow> r_Status y \<noteq> RunStatusQueued
       \<Longrightarrow> snd (Store_ClaimRun S now s t r) = Some ErrConflict"
    and claim_missing:
      "inv s \<Longrightarrow> runs s (runKey t r) = None \<Longrightarrow> snd (Store_ClaimRun S now s t r) = Some ErrNotFound"
    and update_succeeds:
      "inv s \<Longrightarrow> tasks s t = Some x \<Longrightarrow> t_Status x \<in> set from
       \<Longrightarrow> snd (Store_UpdateTaskStatus S now s t from to) = None"
    and update_for_run_succeeds:
      "inv s \<Longrightarrow> tasks s t = Some x \<Longrightarrow> t_ActiveRunID x = r \<Longrightarrow> t_Status x \<in> set from
       \<Longrightarrow> snd (Store_UpdateTaskStatusForRun S now s t r from to) = None"
    and update_for_run_fails:
      "inv s \<Longrightarrow> snd (Store_UpdateTaskStatusForRun S now s t r from to) \<in> {None, Some ErrConflict, Some ErrNotFound}"
    and set_abort_succeeds:
      "inv s \<Longrightarrow> tasks s t = Some x \<Longrightarrow> snd (Store_SetAbortRequested S now s t why) = None"
    and complete_succeeds:
      "inv s \<Longrightarrow> runs s (runKey t r) = Some y \<Longrightarrow> snd (Store_CompleteRun S now s t r st) = None"
    and reset_succeeds:
      "inv s \<Longrightarrow> runs s (runKey t r) = Some y \<Longrightarrow> snd (Store_ResetRunToQueued S now s t r) = None"

definition task_view :: "MemoryStore \<Rightarrow> string \<Rightarrow> Task option" where
  "task_view s t = gm_get (db_tasks s) t"

definition run_view :: "MemoryStore \<Rightarrow> string \<Rightarrow> Run option" where
  "run_view s k = gm_get (db_runs s) k"

definition step_view :: "MemoryStore \<Rightarrow> string \<Rightarrow> Step option" where
  "step_view s k = gm_get (db_steps s) k"

lemmas view_defs = task_view_def run_view_def step_view_def

lemma view_put [simp]:
  "task_view (s\<lparr>db_tasks := gm_put k t (db_tasks s)\<rparr>) = (task_view s)(k \<mapsto> t)"
  "task_view (s\<lparr>db_runs := rs\<rparr>) = task_view s"
  "task_view (s\<lparr>db_steps := ss\<rparr>) = task_view s"
  "task_view (s\<lparr>db_events := es\<rparr>) = task_view s"
  "task_view (s\<lparr>db_connections := cs\<rparr>) = task_view s"
  "run_view (s\<lparr>db_runs := gm_put k r (db_runs s)\<rparr>) = (run_view s)(k \<mapsto> r)"
  "run_view (s\<lparr>db_tasks := ts\<rparr>) = run_view s"
  "run_view (s\<lparr>db_steps := ss\<rparr>) = run_view s"
  "run_view (s\<lparr>db_events := es\<rparr>) = run_view s"
  "run_view (s\<lparr>db_connections := cs\<rparr>) = run_view s"
  "step_view (s\<lparr>db_steps := gm_put k st (db_steps s)\<rparr>) = (step_view s)(k \<mapsto> st)"
  "step_view (s\<lparr>db_tasks := ts\<rparr>) = step_view s"
  "step_view (s\<lparr>db_runs := rs\<rparr>) = step_view s"
  "step_view (s\<lparr>db_events := es\<rparr>) = step_view s"
  "step_view (s\<lparr>db_connections := cs\<rparr>) = step_view s"
  by (auto simp: view_defs gomap_simps fun_eq_iff)

lemma mem_reads:
  assumes "store_wf s"
  shows "GetTask s t = Inr x \<longleftrightarrow> task_view s t = Some x"
    and "GetTask s t = Inl e \<longleftrightarrow> task_view s t = None \<and> e = ErrNotFound"
    and "GetRun s t r = Inr y \<longleftrightarrow> run_view s (runKey t r) = Some y"
    and "GetRun s t r = Inl e \<longleftrightarrow> run_view s (runKey t r) = None \<and> e = ErrNotFound"
    and "GetStep s r i = Inr z \<longleftrightarrow> step_view s (stepKey r i) = Some z"
    and "IsAbortRequested s t = Inr (b, why) \<longleftrightarrow>
      (\<exists>x. task_view s t = Some x \<and> b = t_AbortRequested x \<and> why = t_AbortReason x)"
  by (auto simp: GetTask_def GetRun_def GetStep_def IsAbortRequested_def view_defs split: option.split)

lemma mem_create:
  assumes wf: "store_wf s" and res: "ApplyCreateTransition now s (Some x) (Some y) = (s', err)"
  shows "err = None \<Longrightarrow> task_view s (t_TaskID x) = None"
    and "err = None \<Longrightarrow> run_view s (runKey (r_TaskID y) (r_RunID y)) = None"
    and "err = None \<Longrightarrow> task_view s' = (task_view s)(t_TaskID x \<mapsto> x)"
    and "err = None \<Longrightarrow> run_view s' = (run_view s)(runKey (r_TaskID y) (r_RunID y) \<mapsto> the (ensureQueuedAt (Some y) now))"
    and "err = None \<Longrightarrow> step_view s' = step_view s"
    and "err = Some e \<Longrightarrow> s' = s"
proof -
  obtain y' where y': "ensureQueuedAt (Some y) now = Some y'" "r_TaskID y' = r_TaskID y" "r_RunID y' = r_RunID y"
    by (rule ensureQueuedAt_Some)
  show "err = None \<Longrightarrow> task_view s (t_TaskID x) = None"
    and "err = None \<Longrightarrow> run_view s (runKey (r_TaskID y) (r_RunID y)) = None"
    and "err = None \<Longrightarrow> task_view s' = (task_view s)(t_TaskID x \<mapsto> x)"
    and "err = None \<Longrightarrow> run_view s' = (run_view s)(runKey (r_TaskID y) (r_RunID y) \<mapsto> the (ensureQueuedAt (Some y) now))"
    and "err = None \<Longrightarrow> step_view s' = step_view s"
    and "err = Some e \<Longrightarrow> s' = s"
    using res
    by (auto simp: ApplyCreateTransition_def y' gm_has_def view_defs gomap_simps fun_eq_iff split: if_splits)
qed

lemma mem_resume:
  assumes wf: "store_wf s" and res: "ApplyResumeTransition now1 now2 s t (Some y) from to = (s', err)"
  shows "err = None \<Longrightarrow> \<exists>x. task_view s t = Some x \<and> t_Status x \<in> set from \<and> r_TaskID y = t
           \<and> run_view s (runKey t (r_RunID y)) = None
           \<and> task_view s' = (task_view s)(t \<mapsto> x\<lparr>t_ActiveRunID := r_RunID y, t_AbortRequested := False,
                t_AbortReason := [], t_AbortTS := None, t_Status := to, t_UpdatedAt := now2\<rparr>)
           \<and> run_view s' = (run_view s)(runKey t (r_RunID y) \<mapsto> the (ensureQueuedAt (Some y) now1))
           \<and> step_view s' = step_view s"
    and "err = Some e \<Longrightarrow> s' = s"
proof -
  obtain y' where y': "ensureQueuedAt (Some y) now1 = Some y'" "r_TaskID y' = r_TaskID y" "r_RunID y' = r_RunID y"
    by (rule ensureQueuedAt_Some)
  show "err = None \<Longrightarrow> \<exists>x. task_view s t = Some x \<and> t_Status x \<in> set from \<and> r_TaskID y = t
           \<and> run_view s (runKey t (r_RunID y)) = None
           \<and> task_view s' = (task_view s)(t \<mapsto> x\<lparr>t_ActiveRunID := r_RunID y, t_AbortRequested := False,
                t_AbortReason := [], t_AbortTS := None, t_Status := to, t_UpdatedAt := now2\<rparr>)
           \<and> run_view s' = (run_view s)(runKey t (r_RunID y) \<mapsto> the (ensureQueuedAt (Some y) now1))
           \<and> step_view s' = step_view s"
    and "err = Some e \<Longrightarrow> s' = s"
    using res
    by (auto simp: ApplyResumeTransition_def y' gm_has_def view_defs gomap_simps fun_eq_iff
        split: option.splits if_splits)
qed

lemma mem_task_updates:
  assumes "store_wf s"
  shows "UpdateTaskStatus now s t from to = (s', None) \<longleftrightarrow>
      (\<exists>x. task_view s t = Some x \<and> t_Status x \<in> set from
         \<and> s' = s\<lparr>db_tasks := gm_put t (x\<lparr>t_Status := to, t_UpdatedAt := now\<rparr>) (db_tasks s)\<rparr>)"
    and "UpdateTaskStatusForRun now s t r from to = (s', None) \<longleftrightarrow>
      (\<exists>x. task_view s t = Some x \<and> t_ActiveRunID x = r \<and> t_Status x \<in> set from
         \<and> s' = s\<lparr>db_tasks := gm_put t (x\<lparr>t_Status := to, t_UpdatedAt := now\<rparr>) (db_tasks s)\<rparr>)"
    and "SetAbortRequested now s t why = (s', None) \<longleftrightarrow>
      (\<exists>x. task_view s t = Some x
         \<and> s' = s\<lparr>db_tasks := gm_put t (x\<lparr>t_AbortRequested := True, t_AbortReason := why,
              t_AbortTS := Some now, t_UpdatedAt := now\<rparr>) (db_tasks s)\<rparr>)"
    and "UpdateTaskStatus now s t from to = (s', Some e) \<Longrightarrow> s' = s"
    and "UpdateTaskStatusForRun now s t r from to = (s', Some e) \<Longrightarrow> s' = s \<and> e \<in> {ErrConflict, ErrNotFound}"
    and "SetAbortRequested now s t why = (s', Some e) \<Longrightarrow> s' = s"
  by (auto simp: store_op_defs view_defs split: option.splits if_splits)

lemma mem_run_updates:
  assumes "store_wf s"
  shows "ClaimRun now s t r = (s', None) \<longleftrightarrow>
      (\<exists>y. run_view s (runKey t r) = Some y \<and> r_Status y = RunStatusQueued
         \<and> s' = s\<lparr>db_runs := gm_put (runKey t r)
              (y\<lparr>r_Status := RunStatusRunning, r_StartedAt := Some now\<rparr>) (db_runs s)\<rparr>)"
    and "CompleteRun now s t r st = (s', None) \<longleftrightarrow>
      (\<exists>y. run_view s (runKey t r) = Some y
         \<and> s' = s\<lparr>db_runs := gm_put (runKey t r) (y\<lparr>r_Status := st, r_EndedAt := Some now\<rparr>) (db_runs s)\<rparr>)"
    and "ResetRunToQueued now s t r = (s', None) \<longleftrightarrow>
      (\<exists>y. run_view s (runKey t r) = Some y
         \<and> s' = s\<lparr>db_runs := gm_put (runKey t r) (y\<lparr>r_Status := RunStatusQueued, r_QueuedAt := Some now,
              r_StartedAt := None, r_EndedAt := None\<rparr>) (db_runs s)\<rparr>)"
    and "UpdateLastStepIndex s t r i = (s', None) \<longleftrightarrow>
      (\<exists>y. run_view s (runKey t r) = Some y
         \<and> s' = s\<lparr>db_runs := gm_put (runKey t r) (y\<lparr>r_LastStepIndex := i\<rparr>) (db_runs s)\<rparr>)"
    and "ClaimRun now s t r = (s', Some e) \<Longrightarrow> s' = s"
    and "CompleteRun now s t r st = (s', Some e) \<Longrightarrow> s' = s"
    and "ResetRunToQueued now s t r = (s', Some e) \<Longrightarrow> s' = s"
    and "UpdateLastStepIndex s t r i = (s', Some e) \<Longrightarrow> s' = s"
  by (auto simp: store_op_defs view_defs split: option.splits if_splits)

lemma mem_usage:
  assumes "store_wf s"
  shows "AddRunUsage s t r u c = (s', None) \<longleftrightarrow>
      (\<exists>y. run_view s (runKey t r) = Some y
         \<and> s' = s\<lparr>db_runs := gm_put (runKey t r) (y\<lparr>
              r_TotalTokenUsage := (case u of None \<Rightarrow> r_TotalTokenUsage y
                | Some u' \<Rightarrow> Some (add_usage (r_TotalTokenUsage y) u')),
              r_TotalCostUSD := (if 0 < c then f64_add (r_TotalCostUSD y) c else r_TotalCostUSD y)\<rparr>) (db_runs s)\<rparr>)"
    and "AddRunUsage s t r u c = (s', Some e) \<Longrightarrow> s' = s"
  by (auto simp: AddRunUsage_def Let_def view_defs split: option.splits if_splits)

lemma mem_put_step:
  assumes "store_wf s"
  shows "PutStep s z = (s', None) \<longleftrightarrow>
      step_view s (stepKey (s_RunID z) (s_StepIndex z)) = None
      \<and> s' = s\<lparr>db_steps := gm_put (stepKey (s_RunID z) (s_StepIndex z)) z (db_steps s)\<rparr>"
    and "PutStep s z = (s', Some e) \<Longrightarrow> s' = s"
  by (auto simp: PutStep_def Let_def gm_has_def view_defs split: if_splits)

lemma mem_put_event_views:
  "task_view (fst (PutEvent now1 now2 s ev)) = task_view s"
  "run_view (fst (PutEvent now1 now2 s ev)) = run_view s"
  "step_view (fst (PutEvent now1 now2 s ev)) = step_view s"
  by (simp_all add: PutEvent_def Let_def split: option.split)

text \<open>Invariant preservation in the form the laws have it.\<close>

lemma mem_wf:
  assumes "store_wf s"
  shows "ApplyCreateTransition now s x y = (s', err) \<Longrightarrow> store_wf s'"
    and "UpdateTaskStatus now s t from to = (s', err) \<Longrightarrow> store_wf s'"
    and "UpdateTaskStatusForRun now s t r from to = (s', err) \<Longrightarrow> store_wf s'"
    and "SetAbortRequested now s t why = (s', err) \<Longrightarrow> store_wf s'"
    and "ApplyResumeTransition now now' s t y from to = (s', err) \<Longrightarrow> store_wf s'"
    and "ClaimRun now s t r = (s', err) \<Longrightarrow> store_wf s'"
    and "CompleteRun now s t r st = (s', err) \<Longrightarrow> store_wf s'"
    and "ResetRunToQueued now s t r = (s', err) \<Longrightarrow> store_wf s'"
    and "UpdateLastStepIndex s t r i = (s', err) \<Longrightarrow> store_wf s'"
    and "AddRunUsage s t r u c = (s', err) \<Longrightarrow> store_wf s'"
    and "PutStep s z = (s', err) \<Longrightarrow> store_wf s'"
    and "CompactEvents s t r ts = (s', res) \<Longrightarrow> store_wf s'"
  by (metis assms fst_conv wf_ApplyCreateTransition wf_task_updates wf_ApplyResumeTransition
      wf_run_updates wf_PutStep wf_event_updates)+

lemma wf_view_put:
  "store_wf s \<Longrightarrow> task_view s k = Some x0 \<Longrightarrow> t_TaskID x = t_TaskID x0
   \<Longrightarrow> store_wf (s\<lparr>db_tasks := gm_put k x (db_tasks s)\<rparr>)"
  "store_wf s \<Longrightarrow> run_view s k = Some y0 \<Longrightarrow> r_TaskID y = r_TaskID y0 \<Longrightarrow> r_RunID y = r_RunID y0
   \<Longrightarrow> store_wf (s\<lparr>db_runs := gm_put k y (db_runs s)\<rparr>)"
  using wf_task_key wf_run_key by (auto simp: view_defs intro!: wf_put_task wf_put_run)

interpretation mem: state_store memory_store store_wf task_view run_view step_view
proof (unfold_locales, goal_cases)
  case 2
  then show ?case by (simp add: task_view_def wf_task_key)
next
  case (6 s now x y s')
  then have res: "ApplyCreateTransition now s (Some x) (Some y) = (s', None)"
    by (simp add: memory_store_def)
  show ?case using mem_create [OF 6(1) res] mem_wf(1) [OF 6(1) res] by blast
next
  case (7 s now x y s' e)
  then show ?case using mem_create(6) [OF 7(1)] by (simp add: memory_store_def)
next
  case (14 s now1 now2 t y fr dst s')
  then have res: "ApplyResumeTransition now1 now2 s t (Some y) fr dst = (s', None)"
    by (simp add: memory_store_def)
  show ?case using mem_resume(1) [OF 14(1) res] mem_wf(5) [OF 14(1) res] by blast
next
  case (15 s now1 now2 t y fr dst s' e)
  then show ?case using mem_resume(2) [OF 15(1)] by (simp add: memory_store_def)
next
  case (24 s t r u c s')
  then have res: "AddRunUsage s t r u c = (s', None)" by (simp add: memory_store_def)
  show ?case
    using mem_wf(10) [OF 24(1) res] res unfolding mem_usage(1) [OF 24(1)] by auto
next
  case (26 s z s')
  then have res: "PutStep s z = (s', None)" by (simp add: memory_store_def)
  show ?case
    using mem_wf(11) [OF 26(1) res] res unfolding mem_put_step(1) [OF 26(1)] by auto
next
  case (28 s now1 now2 ev s' ev' err)
  then have "s' = fst (PutEvent now1 now2 s (Some ev))"
    by (auto simp: memory_store_def split: prod.splits)
  then show ?case using 28(1) by (simp add: mem_put_event_views wf_event_updates)
next
  case (29 s conn s' err)
  then show ?case using wf_connection_updates(1) [OF 29(1), of conn]
    by (auto simp: memory_store_def PutConnection_def)
next
  case (30 s cid s' err)
  then show ?case using wf_connection_updates(2) [OF 30(1), of cid]
    by (auto simp: memory_store_def DeleteConnection_def)
next
  case (31 s t r ts s' res)
  then show ?case using mem_wf(12) [OF 31(1), of t r ts s' res]
    by (auto simp: memory_store_def CompactEvents_def Let_def split: if_splits)
qed (auto simp: memory_store_def mem_reads mem_task_updates mem_run_updates mem_usage mem_put_step
  intro!: wf_view_put dest: mem_task_updates(4-6) mem_run_updates(5-8) mem_usage(2) mem_put_step(2))

interpretation mem: local_store memory_store store_wf task_view run_view step_view
proof (unfold_locales, goal_cases)
qed (auto simp: memory_store_def mem_reads view_defs store_op_defs GetTask_def GetRun_def IsAbortRequested_def
    split: option.splits)

end
