(* ===== verification/StateProps.thy ===== *)
theory StateProps
  imports StateContract
begin

text \<open>
  The properties of the in-memory store (\<open>pkg/state/memory_store.go\<close>): its invariant along
  every history, exclusive claims, atomicity of failing methods, the listings and the
  event log.
\<close>

section \<open>Properties of the in-memory store\<close>


text \<open>
  C2. A claim is exclusive: once a worker's ClaimRun on a run has succeeded, no later
  ClaimRun on it succeeds (it returns ErrConflict and leaves the store alone), whatever is
  called in between, until the run is explicitly put back to the queue.
\<close>

theorem claim_exclusive:
  assumes "ClaimRun now s taskID runID = (s1, None)"
    and "list_all (keeps_claim (runKey taskID runID)) ops"
  shows "ClaimRun now' (run_ops ops s1) taskID runID = (run_ops ops s1, Some ErrConflict)"
proof -
  have "claimed (runKey taskID runID) s1"
    using assms(1) by (auto simp: ClaimRun_def claimed_def gomap_simps split: option.splits if_splits)
  then have "claimed (runKey taskID runID) (run_ops ops s1)"
    unfolding run_ops_def using assms(2) by (rule claim.inv_run)
  then show ?thesis
    by (auto simp: ClaimRun_def claimed_def split: option.splits)
qed

text \<open>A task and a run of it, the concrete values the witnesses evaluate on.\<close>

definition sample_env :: goenv where
  "sample_env = \<lparr>Getenv = (\<lambda>_. []), unicode_ToLower = (\<lambda>s. s)\<rparr>"

definition sample_task :: Task where
  "sample_task =
     \<lparr>t_TaskID = ''task_1'', t_TenantID = ''acme'', t_UserID = ''u1'', t_Status = TaskStatusQueued,
      t_ActiveRunID = ''run_1'', t_AbortRequested = False, t_AbortReason = [], t_AbortTS = None,
      t_IdempotencyKey = ''k1'', t_Prompt = ''hi'', t_ModelConfig = None, t_CreatedAt = 5, t_UpdatedAt = 5\<rparr>"

definition sample_run :: Run where
  "sample_run =
     \<lparr>r_TaskID = ''task_1'', r_RunID = ''run_1'', r_TenantID = ''acme'', r_Status = RunStatusQueued,
      r_QueuedAt = None, r_ParentRunID = [], r_ResumeFromStepIndex = None, r_ModelConfig = None,
      r_StartedAt = None, r_EndedAt = None, r_LastStepIndex = - 1, r_TotalTokenUsage = None,
      r_TotalCostUSD = 0\<rparr>"

definition sample_store :: MemoryStore where
  "sample_store = fst (ApplyCreateTransition 5 NewMemoryStore (Some sample_task) (Some sample_run))"

lemma sample_store_eval:
  "sample_store =
     NewMemoryStore\<lparr>db_tasks := [(''task_1'', sample_task)],
       db_runs := [(''task_1#run_1'', sample_run\<lparr>r_QueuedAt := Some 5\<rparr>)],
       db_idempotency := [(''acme#k1'', ''task_1'')]\<rparr>"
  by (simp add: sample_store_def sample_task_def sample_run_def ApplyCreateTransition_def
      ensureQueuedAt_def NewMemoryStore_def gm_has_def runKey_def idempKey_def)

theorem claim_exclusive_witness:
  "ClaimRun 9 (run_ops [OpCompleteRun 8 ''task_1'' ''run_1'' RunStatusFailed]
      (fst (ClaimRun 7 sample_store ''task_1'' ''run_1''))) ''task_1'' ''run_1''
   = (run_ops [OpCompleteRun 8 ''task_1'' ''run_1'' RunStatusFailed]
      (fst (ClaimRun 7 sample_store ''task_1'' ''run_1'')), Some ErrConflict)"
proof (rule claim_exclusive)
  show "ClaimRun 7 sample_store ''task_1'' ''run_1'' = (fst (ClaimRun 7 sample_store ''task_1'' ''run_1''), None)"
    by (simp add: sample_store_eval sample_run_def ClaimRun_def runKey_def)
qed simp

text \<open>
  C26. A method that reports an error has not touched the store: this holds for the create
  and resume transitions, which write several entities, and for every other mutating method
  but PutTask.
\<close>

theorem errors_leave_store:
  assumes "op_error op s \<noteq> None" and "\<not> is_PutTask op"
  shows "apply_op op s = s"
proof -
  have "op_error op s \<noteq> None \<longrightarrow> apply_op op s = s"
    using assms(2) by (cases op) (simp_all add: store_op_defs Let_def split: option.split)
  with assms(1) show ?thesis by blast
qed

theorem errors_leave_store_witness:
  "apply_op (OpApplyResumeTransition 7 7 ''task_1'' (Some sample_run) [TaskStatusFailed] TaskStatusQueued) sample_store
   = sample_store"
  by (rule errors_leave_store)
    (simp_all add: sample_store_eval sample_run_def ApplyResumeTransition_def ensureQueuedAt_def
      gm_has_def runKey_def)

text \<open>
  PutTask is not atomic: when the task id is taken but the idempotency key is new, it
  returns ErrAlreadyExists and has nevertheless recorded the key, which from then on
  resolves to the old task.
\<close>

theorem PutTask_partial:
  assumes "gm_get (db_tasks s) (t_TaskID t) = Some old" and "t_IdempotencyKey t \<noteq> []"
    and "\<not> gm_has (db_idempotency s) (idempKey (t_TenantID t) (t_IdempotencyKey t))"
  shows "snd (PutTask s t) = Some ErrAlreadyExists \<and> fst (PutTask s t) \<noteq> s
     \<and> GetTaskByIdempotencyKey s (t_TenantID t) (t_IdempotencyKey t) = Inl ErrNotFound
     \<and> GetTaskByIdempotencyKey (fst (PutTask s t)) (t_TenantID t) (t_IdempotencyKey t) = Inr old"
proof -
  let ?s' = "fst (PutTask s t)"
  have s': "?s' = s\<lparr>db_idempotency := gm_put (idempKey (t_TenantID t) (t_IdempotencyKey t)) (t_TaskID t) (db_idempotency s)\<rparr>"
    and err: "snd (PutTask s t) = Some ErrAlreadyExists"
    using assms by (simp_all add: PutTask_def Let_def gm_has_def)
  have get: "GetTaskByIdempotencyKey s (t_TenantID t) (t_IdempotencyKey t) = Inl ErrNotFound"
    "GetTaskByIdempotencyKey ?s' (t_TenantID t) (t_IdempotencyKey t) = Inr old"
    using assms by (simp_all add: s' GetTaskByIdempotencyKey_def gomap_simps gm_has_def)
  then have "?s' \<noteq> s" by auto
  with err get show ?thesis by blast
qed

theorem PutTask_partial_witness:
  "snd (PutTask sample_store (sample_task\<lparr>t_IdempotencyKey := ''k2''\<rparr>)) = Some ErrAlreadyExists
   \<and> GetTaskByIdempotencyKey (fst (PutTask sample_store (sample_task\<lparr>t_IdempotencyKey := ''k2''\<rparr>))) ''acme'' ''k2''
     = Inr sample_task"
  using PutTask_partial [of sample_store "sample_task\<lparr>t_IdempotencyKey := ''k2''\<rparr>" sample_task]
  by (simp add: sample_store_eval sample_task_def gm_has_def idempKey_def)

section \<open>Listings\<close>

lemma in_values_iff: "gm_wf m \<Longrightarrow> v \<in> set (map snd m) \<longleftrightarrow> (\<exists>k. gm_get m k = Some v)"
proof -
  assume "gm_wf m"
  then have "(\<exists>k. gm_get m k = Some v) \<longleftrightarrow> (\<exists>k. (k, v) \<in> set m)"
    by (simp only: map_of_eq_Some_iff)
  also have "\<dots> \<longleftrightarrow> v \<in> set (map snd m)"
    by (auto intro: rev_image_eqI)
  finally show ?thesis ..
qed

lemma values_perm: "mset m = mset m' \<Longrightarrow> mset (filter P (map snd m)) = mset (filter P (map snd m'))"
  by (metis mset_filter mset_map)

lemma listing_perm:
  assumes "mset m = mset m'" and "gm_wf m" and "list_all (\<lambda>(k, v). g v = k) m"
    and "\<And>v w. f v = f w \<Longrightarrow> g v = g w"
  shows "sort_key f (filter P (map snd m)) = sort_key f (filter P (map snd m'))"
proof (rule sort_key_mset_cong [OF values_perm [OF assms(1)]])
  have "inj_on g (set (filter P (map snd m)))"
    by (rule inj_on_subset [OF gm_values_inj [OF assms(2,3)]]) auto
  then show "inj_on f (set (filter P (map snd m)))"
    unfolding inj_on_def using assms(4) by blast
qed

lemma set_take_limit: "set (take_limit n xs) \<subseteq> set xs"
  by (auto simp: take_limit_def dest: in_set_takeD)

lemma length_take_limit: "0 < n \<Longrightarrow> int (length (take_limit n xs)) \<le> n"
  by (auto simp: take_limit_def)

lemma take_limit_all: "n \<le> 0 \<or> int (length xs) \<le> n \<Longrightarrow> take_limit n xs = xs"
  by (auto simp: take_limit_def)

lemma sorted_take_limit: "sorted (map f xs) \<Longrightarrow> sorted (map f (take_limit n xs))"
  by (auto simp: take_limit_def take_map [symmetric] sorted_wrt_take)

lemma listing_spec:
  assumes "gm_wf m" and "rs = take_limit limit (sort_key f (filter P (map snd m)))"
  shows "set rs \<subseteq> {v. (\<exists>k. gm_get m k = Some v) \<and> P v}"
    and "sorted (map f rs)"
    and "0 < limit \<Longrightarrow> int (length rs) \<le> limit"
    and "limit \<le> 0 \<or> int (length m) \<le> limit \<Longrightarrow> set rs = {v. (\<exists>k. gm_get m k = Some v) \<and> P v}"
proof -
  let ?xs = "sort_key f (filter P (map snd m))"
  have "set ?xs = {v \<in> set (map snd m). P v}" by auto
  then have set_xs: "set ?xs = {v. (\<exists>k. gm_get m k = Some v) \<and> P v}"
    unfolding in_values_iff [OF assms(1)] .
  have len: "length ?xs \<le> length m"
    using length_filter_le [of P "map snd m"] by simp
  show "set rs \<subseteq> {v. (\<exists>k. gm_get m k = Some v) \<and> P v}"
    using set_take_limit [of limit ?xs] unfolding assms(2) set_xs .
  show "sorted (map f rs)" unfolding assms(2) by (rule sorted_take_limit) (rule sorted_sort_key)
  show "0 < limit \<Longrightarrow> int (length rs) \<le> limit" unfolding assms(2) by (rule length_take_limit)
  show "limit \<le> 0 \<or> int (length m) \<le> limit \<Longrightarrow> set rs = {v. (\<exists>k. gm_get m k = Some v) \<and> P v}"
  proof -
    assume "limit \<le> 0 \<or> int (length m) \<le> limit"
    with len have "limit \<le> 0 \<or> int (length ?xs) \<le> limit" by linarith
    from take_limit_all [OF this] show ?thesis unfolding assms(2) set_xs [symmetric] by (rule arg_cong)
  qed
qed

text \<open>
  The listings do not depend on Go's map iteration order: two stores that hold the same
  entries in any order list the same tasks, runs and steps in the same order, also when a
  limit cuts the list.
\<close>

theorem listings_deterministic:
  assumes "store_wf s"
    and "mset (db_tasks s) = mset (db_tasks s')" and "mset (db_runs s) = mset (db_runs s')"
    and "mset (db_steps s) = mset (db_steps s')"
  shows "ListTasks s tenantID tsts limit = ListTasks s' tenantID tsts limit
    \<and> ListRuns s tenantID rsts limit = ListRuns s' tenantID rsts limit
    \<and> ListSteps s runID from limit = ListSteps s' runID from limit"
proof (intro conjI)
  show "ListTasks s tenantID tsts limit = ListTasks s' tenantID tsts limit"
    unfolding ListTasks_def using assms(1)
    by (subst listing_perm [OF assms(2), where g = t_TaskID]) (auto simp: store_wf_def)
  show "ListRuns s tenantID rsts limit = ListRuns s' tenantID rsts limit"
    unfolding ListRuns_def using assms(1)
    by (subst listing_perm [OF assms(3), where g = "\<lambda>r. runKey (r_TaskID r) (r_RunID r)"])
      (auto simp: store_wf_def)
  let ?P = "\<lambda>st. s_RunID st = runID \<and> from \<le> s_StepIndex st"
  have "inj_on (\<lambda>st. stepKey (s_RunID st) (s_StepIndex st)) (snd ` set (db_steps s))"
    using assms(1) by (intro gm_values_inj) (auto simp: store_wf_def)
  then have "inj_on s_StepIndex (set (filter ?P (map snd (db_steps s))))"
    unfolding inj_on_def by fastforce
  then show "ListSteps s runID from limit = ListSteps s' runID from limit"
    unfolding ListSteps_def by (subst sort_key_mset_cong [OF values_perm [OF assms(4)]]) simp_all
qed

theorem listings_deterministic_witness:
  "\<exists>s s'. db_tasks s \<noteq> db_tasks s' \<and> length (db_tasks s) = 2 \<and> ListTasks s [] [] 1 = ListTasks s' [] [] 1"
proof (intro exI conjI)
  define a where "a = (''a'', sample_task\<lparr>t_TaskID := ''a''\<rparr>)"
  define b where "b = (''b'', sample_task\<lparr>t_TaskID := ''b''\<rparr>)"
  let ?s = "NewMemoryStore\<lparr>db_tasks := [a, b]\<rparr>" and ?s' = "NewMemoryStore\<lparr>db_tasks := [b, a]\<rparr>"
  show "db_tasks ?s \<noteq> db_tasks ?s'" "length (db_tasks ?s) = 2"
    by (simp_all add: a_def b_def)
  have "store_wf ?s"
    by (simp add: store_wf_def NewMemoryStore_def a_def b_def)
  then show "ListTasks ?s [] [] 1 = ListTasks ?s' [] [] 1"
    using listings_deterministic [of ?s ?s' "[]" "[]" 1] by simp
qed

text \<open>
  ListRuns returns, in the order of start time (runs not started first) and then of key,
  runs that the store holds, of the tenant and the statuses asked for; never more than a
  positive limit, and all of them when they fit.
\<close>

theorem ListRuns_spec:
  assumes "store_wf s" and "ListRuns s tenantID statuses limit = Inr rs"
    and match: "match = {r. (\<exists>k. run_view s k = Some r) \<and> (tenantID = [] \<or> r_TenantID r = tenantID)
                    \<and> (statuses = [] \<or> r_Status r \<in> set statuses)}"
  shows "set rs \<subseteq> match
    \<and> sorted (map (\<lambda>r. (case r_StartedAt r of None \<Rightarrow> zero_time | Some t \<Rightarrow> t, runKey (r_TaskID r) (r_RunID r))) rs)
    \<and> (0 < limit \<longrightarrow> int (length rs) \<le> limit)
    \<and> (limit \<le> 0 \<or> int (length (db_runs s)) \<le> limit \<longrightarrow> set rs = match)"
proof -
  have wf: "gm_wf (db_runs s)" using assms(1) by (simp add: store_wf_def)
  have rs: "rs = take_limit limit
       (sort_key (\<lambda>r. (case r_StartedAt r of None \<Rightarrow> zero_time | Some t \<Rightarrow> t, runKey (r_TaskID r) (r_RunID r)))
         (filter (\<lambda>r. (tenantID = [] \<or> r_TenantID r = tenantID) \<and> (statuses = [] \<or> r_Status r \<in> set statuses))
           (map snd (db_runs s))))"
    using assms(2) by (simp add: ListRuns_def)
  have match': "match = {r. (\<exists>k. gm_get (db_runs s) k = Some r)
      \<and> (tenantID = [] \<or> r_TenantID r = tenantID) \<and> (statuses = [] \<or> r_Status r \<in> set statuses)}"
    by (simp add: match run_view_def)
  show ?thesis
    unfolding match' using listing_spec [OF wf rs] by blast
qed

theorem ListRuns_spec_witness:
  "ListRuns sample_store ''acme'' [RunStatusQueued] 0 = Inr [sample_run\<lparr>r_QueuedAt := Some 5\<rparr>]
   \<and> set [sample_run\<lparr>r_QueuedAt := Some 5\<rparr>]
     = {r. (\<exists>k. run_view sample_store k = Some r) \<and> (''acme'' = [] \<or> r_TenantID r = ''acme'')
           \<and> ([RunStatusQueued] = [] \<or> r_Status r \<in> set [RunStatusQueued])}"
proof -
  have wf: "store_wf sample_store"
    unfolding sample_store_def by (rule wf_ApplyCreateTransition [OF wf_NewMemoryStore])
  have list: "ListRuns sample_store ''acme'' [RunStatusQueued] 0 = Inr [sample_run\<lparr>r_QueuedAt := Some 5\<rparr>]"
    by (simp add: ListRuns_def sample_store_eval sample_run_def take_limit_def)
  from ListRuns_spec [OF wf list refl] list show ?thesis by simp
qed

end
