(* ===== verification/StateRefinement.thy ===== *)
theory StateRefinement
  imports StateContract
begin

text \<open>
  An abstract specification of the metadata store and the refinement of the in-memory store to
  it. The specification knows nothing of key strings, of the order of Go's maps or of sorted
  event slices: runs, steps and idempotency keys are filed under pairs, the event log of a run
  is a finite map from sequence numbers.
\<close>

section \<open>The specification\<close>

record Spec =
  sp_tasks :: "string \<Rightarrow> Task option"
  sp_runs :: "string \<times> string \<Rightarrow> Run option"
  sp_steps :: "string \<times> int64 \<Rightarrow> Step option"
  sp_keys :: "string \<times> string \<Rightarrow> string option"
  sp_conns :: "string \<Rightarrow> Connection option"
  sp_events :: "string \<times> string \<Rightarrow> int64 \<Rightarrow> StreamEvent option"
  sp_retention :: duration

definition spec_init :: Spec where
  "spec_init = \<lparr>sp_tasks = (\<lambda>_. None), sp_runs = (\<lambda>_. None), sp_steps = (\<lambda>_. None), sp_keys = (\<lambda>_. None), sp_conns = (\<lambda>_. None),
     sp_events = (\<lambda>_ _. None), sp_retention = db_eventRetention NewMemoryStore\<rparr>"

definition change_task :: "string \<Rightarrow> (Task \<Rightarrow> StateErr + Task) \<Rightarrow> Spec \<Rightarrow> Spec \<times> StateErr option" where
  "change_task t f a =
     (case sp_tasks a t of
        None \<Rightarrow> (a, Some ErrNotFound)
      | Some x \<Rightarrow> (case f x of Inl e \<Rightarrow> (a, Some e) | Inr x' \<Rightarrow> (a\<lparr>sp_tasks := (sp_tasks a)(t \<mapsto> x')\<rparr>, None)))"

definition change_run :: "string \<Rightarrow> string \<Rightarrow> (Run \<Rightarrow> StateErr + Run) \<Rightarrow> Spec \<Rightarrow> Spec \<times> StateErr option" where
  "change_run t r f a =
     (case sp_runs a (t, r) of
        None \<Rightarrow> (a, Some ErrNotFound)
      | Some y \<Rightarrow> (case f y of Inl e \<Rightarrow> (a, Some e) | Inr y' \<Rightarrow> (a\<lparr>sp_runs := (sp_runs a)((t, r) \<mapsto> y')\<rparr>, None)))"

definition spec_create :: "Task \<Rightarrow> Run \<Rightarrow> Spec \<Rightarrow> Spec \<times> StateErr option" where
  "spec_create x y a =
     (if t_TaskID x = [] \<or> r_TaskID y = [] \<or> r_RunID y = [] \<or> r_TaskID y \<noteq> t_TaskID x then (a, Some ErrConflict)
      else if sp_tasks a (t_TaskID x) \<noteq> None \<or> sp_runs a (r_TaskID y, r_RunID y) \<noteq> None
           \<or> t_IdempotencyKey x \<noteq> [] \<and> sp_keys a (t_TenantID x, t_IdempotencyKey x) \<noteq> None
      then (a, Some ErrAlreadyExists)
      else (a\<lparr>sp_tasks := (sp_tasks a)(t_TaskID x \<mapsto> x), sp_runs := (sp_runs a)((r_TaskID y, r_RunID y) \<mapsto> y),
              sp_keys := (if t_IdempotencyKey x = [] then sp_keys a
                          else (sp_keys a)((t_TenantID x, t_IdempotencyKey x) \<mapsto> t_TaskID x))\<rparr>, None))"

definition spec_resume :: "gotime \<Rightarrow> string \<Rightarrow> Run \<Rightarrow> TaskStatus list \<Rightarrow> TaskStatus \<Rightarrow> Spec \<Rightarrow> Spec \<times> StateErr option" where
  "spec_resume now t y from to a =
     (if r_TaskID y = [] \<or> r_RunID y = [] \<or> r_TaskID y \<noteq> t then (a, Some ErrConflict)
      else case sp_tasks a t of
        None \<Rightarrow> (a, Some ErrNotFound)
      | Some x \<Rightarrow>
          if sp_runs a (t, r_RunID y) \<noteq> None then (a, Some ErrAlreadyExists)
          else if t_Status x \<notin> set from then (a, Some ErrConflict)
          else (a\<lparr>sp_tasks := (sp_tasks a)(t \<mapsto> x\<lparr>t_ActiveRunID := r_RunID y, t_AbortRequested := False, t_AbortReason := [],
                     t_AbortTS := None, t_Status := to, t_UpdatedAt := now\<rparr>),
                  sp_runs := (sp_runs a)((t, r_RunID y) \<mapsto> y)\<rparr>, None))"

text \<open>An event is recorded once; events beyond the retention time go when a new one is recorded.\<close>

definition spec_event :: "gotime \<Rightarrow> gotime \<Rightarrow> StreamEvent \<Rightarrow> Spec \<Rightarrow> Spec \<times> StateErr option" where
  "spec_event now1 now2 ev0 a =
     (if e_TaskID ev0 = [] \<or> e_RunID ev0 = [] then (a, Some ErrConflict)
      else
        let ev = (if e_TS ev0 = 0 then ev0\<lparr>e_TS := time_Unix now1\<rparr> else ev0);
            log = sp_events a (e_TaskID ev, e_RunID ev);
            kept = (\<lambda>e. 0 < sp_retention a \<longrightarrow> time_Unix (time_Add now2 (- sp_retention a)) \<le> e_TS e)
        in if log (e_Seq ev) \<noteq> None then (a, None)
           else (a\<lparr>sp_events := (sp_events a)((e_TaskID ev, e_RunID ev) :=
                   (\<lambda>q. Option.bind ((log(e_Seq ev \<mapsto> ev)) q) (\<lambda>e. if kept e then Some e else None)))\<rparr>, None))"

definition spec_compact :: "string \<Rightarrow> string \<Rightarrow> int64 \<Rightarrow> Spec \<Rightarrow> Spec" where
  "spec_compact t r beforeTS a =
     (if beforeTS \<le> 0 then a
      else a\<lparr>sp_events := (sp_events a)((t, r) :=
             (\<lambda>q. Option.bind (sp_events a (t, r) q) (\<lambda>e. if t \<noteq> [] \<and> e_TaskID e \<noteq> t \<or> beforeTS \<le> e_TS e then Some e else None)))\<rparr>)"

fun spec_op :: "StoreOp \<Rightarrow> Spec \<Rightarrow> Spec \<times> StateErr option" where
  "spec_op (OpApplyCreateTransition now (Some x) (Some y)) a = spec_create x (the (ensureQueuedAt (Some y) now)) a"
| "spec_op (OpApplyCreateTransition now _ _) a = (a, Some ErrConflict)"
| "spec_op (OpPutTask x) a = (a, None)"
| "spec_op (OpUpdateTaskStatus now t from to) a =
     change_task t (\<lambda>x. if t_Status x \<in> set from then Inr (x\<lparr>t_Status := to, t_UpdatedAt := now\<rparr>) else Inl ErrConflict) a"
| "spec_op (OpUpdateTaskStatusForRun now t r from to) a =
     change_task t (\<lambda>x. if t_ActiveRunID x = r \<and> t_Status x \<in> set from then Inr (x\<lparr>t_Status := to, t_UpdatedAt := now\<rparr>)
                        else Inl ErrConflict) a"
| "spec_op (OpSetAbortRequested now t why) a =
     change_task t (\<lambda>x. Inr (x\<lparr>t_AbortRequested := True, t_AbortReason := why, t_AbortTS := Some now, t_UpdatedAt := now\<rparr>)) a"
| "spec_op (OpClearAbortRequested now t) a =
     change_task t (\<lambda>x. Inr (x\<lparr>t_AbortRequested := False, t_AbortReason := [], t_AbortTS := None, t_UpdatedAt := now\<rparr>)) a"
| "spec_op (OpSetActiveRun now t r) a = change_task t (\<lambda>x. Inr (x\<lparr>t_ActiveRunID := r, t_UpdatedAt := now\<rparr>)) a"
| "spec_op (OpApplyResumeTransition now1 now2 t (Some y) from to) a = spec_resume now2 t (the (ensureQueuedAt (Some y) now1)) from to a"
| "spec_op (OpApplyResumeTransition now1 now2 t None from to) a = (a, Some ErrConflict)"
| "spec_op (OpPutRun now y0) a =
     (let y = the (ensureQueuedAt (Some y0) now)
      in if sp_runs a (r_TaskID y, r_RunID y) \<noteq> None then (a, Some ErrAlreadyExists)
         else (a\<lparr>sp_runs := (sp_runs a)((r_TaskID y, r_RunID y) \<mapsto> y)\<rparr>, None))"
| "spec_op (OpClaimRun now t r) a =
     change_run t r (\<lambda>y. if r_Status y = RunStatusQueued then Inr (y\<lparr>r_Status := RunStatusRunning, r_StartedAt := Some now\<rparr>)
                         else Inl ErrConflict) a"
| "spec_op (OpCompleteRun now t r status) a = change_run t r (\<lambda>y. Inr (y\<lparr>r_Status := status, r_EndedAt := Some now\<rparr>)) a"
| "spec_op (OpUpdateLastStepIndex t r i) a = change_run t r (\<lambda>y. Inr (y\<lparr>r_LastStepIndex := i\<rparr>)) a"
| "spec_op (OpAddRunUsage t r u c) a =
     change_run t r (\<lambda>y. Inr (y\<lparr>r_TotalTokenUsage := (case u of None \<Rightarrow> r_TotalTokenUsage y
                                    | Some u' \<Rightarrow> Some (add_usage (r_TotalTokenUsage y) u')),
       r_TotalCostUSD := (if 0 < c then f64_add (r_TotalCostUSD y) c else r_TotalCostUSD y)\<rparr>)) a"
| "spec_op (OpResetRunToQueued now t r) a =
     change_run t r (\<lambda>y. Inr (y\<lparr>r_Status := RunStatusQueued, r_QueuedAt := Some now, r_StartedAt := None, r_EndedAt := None\<rparr>)) a"
| "spec_op (OpPutStep z) a =
     (if sp_steps a (s_RunID z, s_StepIndex z) \<noteq> None then (a, Some ErrConflict)
      else (a\<lparr>sp_steps := (sp_steps a)((s_RunID z, s_StepIndex z) \<mapsto> z)\<rparr>, None))"
| "spec_op (OpPutConnection c) a = (a\<lparr>sp_conns := (sp_conns a)(c_ConnectionID c \<mapsto> c)\<rparr>, None)"
| "spec_op (OpDeleteConnection cid) a = (a\<lparr>sp_conns := (sp_conns a)(cid := None)\<rparr>, None)"
| "spec_op (OpPutEvent now1 now2 (Some ev)) a = spec_event now1 now2 ev a"
| "spec_op (OpPutEvent now1 now2 None) a = (a, None)"
| "spec_op (OpCompactEvents t r ts) a = (spec_compact t r ts a, None)"

text \<open>
  The calls covered: all but \<open>PutTask\<close>, whose failure is not atomic, with task and tenant ids
  that do not contain the separator of the key strings.
\<close>

definition plain :: "string \<Rightarrow> bool" where
  "plain t \<longleftrightarrow> CHR ''#'' \<notin> set t"

fun plain_op :: "StoreOp \<Rightarrow> bool" where
  "plain_op (OpApplyCreateTransition _ x y) =
     ((case x of None \<Rightarrow> True | Some x' \<Rightarrow> plain (t_TaskID x') \<and> plain (t_TenantID x')) \<and> (case y of None \<Rightarrow> True | Some y' \<Rightarrow> plain (r_TaskID y')))"
| "plain_op (OpPutTask _) = False"
| "plain_op (OpApplyResumeTransition _ _ t y _ _) = (plain t \<and> (case y of None \<Rightarrow> True | Some y' \<Rightarrow> plain (r_TaskID y')))"
| "plain_op (OpPutRun _ y) = plain (r_TaskID y)"
| "plain_op (OpClaimRun _ t _) = plain t"
| "plain_op (OpCompleteRun _ t _ _) = plain t"
| "plain_op (OpUpdateLastStepIndex t _ _) = plain t"
| "plain_op (OpAddRunUsage t _ _ _) = plain t"
| "plain_op (OpResetRunToQueued _ t _) = plain t"
| "plain_op (OpPutEvent _ _ ev) = (case ev of None \<Rightarrow> True | Some ev' \<Rightarrow> plain (e_TaskID ev'))"
| "plain_op (OpCompactEvents t _ _) = plain t"
| "plain_op _ = True"

section \<open>The abstraction\<close>

definition log_of :: "StreamEvent list \<Rightarrow> int64 \<Rightarrow> StreamEvent option" where
  "log_of evs = map_of (map (\<lambda>e. (e_Seq e, e)) evs)"

definition abs_store :: "MemoryStore \<Rightarrow> Spec" where
  "abs_store s =
     \<lparr>sp_tasks = gm_get (db_tasks s),
      sp_runs = (\<lambda>(t, r). if plain t then gm_get (db_runs s) (runKey t r) else None),
      sp_steps = (\<lambda>(r, i). gm_get (db_steps s) (stepKey r i)),
      sp_keys = (\<lambda>(te, k). if plain te then gm_get (db_idempotency s) (idempKey te k) else None),
      sp_conns = gm_get (db_connections s),
      sp_events = (\<lambda>(t, r). if plain t then log_of (events_of s (eventKey t r)) else (\<lambda>_. None)),
      sp_retention = db_eventRetention s\<rparr>"

lemma plain_keys:
  assumes "plain t" and "plain t'"
  shows "runKey t r = runKey t' r' \<longleftrightarrow> t = t' \<and> r = r'"
    and "idempKey t r = idempKey t' r' \<longleftrightarrow> t = t' \<and> r = r'"
    and "eventKey t r = eventKey t' r' \<longleftrightarrow> t = t' \<and> r = r'"
  using join_first_sep [of t "CHR ''#''" r t' r'] assms by (auto simp: runKey_def idempKey_def eventKey_def plain_def)

text \<open>What the elementary updates of the store are for the specification.\<close>

lemma abs_put:
  "abs_store (s\<lparr>db_tasks := gm_put k x (db_tasks s)\<rparr>) = (abs_store s)\<lparr>sp_tasks := (sp_tasks (abs_store s))(k \<mapsto> x)\<rparr>"
  "plain t \<Longrightarrow> abs_store (s\<lparr>db_runs := gm_put (runKey t r) y (db_runs s)\<rparr>)
     = (abs_store s)\<lparr>sp_runs := (sp_runs (abs_store s))((t, r) \<mapsto> y)\<rparr>"
  "abs_store (s\<lparr>db_steps := gm_put (stepKey r i) z (db_steps s)\<rparr>) = (abs_store s)\<lparr>sp_steps := (sp_steps (abs_store s))((r, i) \<mapsto> z)\<rparr>"
  "plain te \<Longrightarrow> abs_store (s\<lparr>db_idempotency := gm_put (idempKey te k) tid (db_idempotency s)\<rparr>)
     = (abs_store s)\<lparr>sp_keys := (sp_keys (abs_store s))((te, k) \<mapsto> tid)\<rparr>"
  "abs_store (s\<lparr>db_connections := gm_put cid c (db_connections s)\<rparr>) = (abs_store s)\<lparr>sp_conns := (sp_conns (abs_store s))(cid \<mapsto> c)\<rparr>"
  "abs_store (s\<lparr>db_connections := gm_del cid (db_connections s)\<rparr>) = (abs_store s)\<lparr>sp_conns := (sp_conns (abs_store s))(cid := None)\<rparr>"
  "plain t \<Longrightarrow> abs_store (s\<lparr>db_events := gm_put (eventKey t r) evs (db_events s)\<rparr>)
     = (abs_store s)\<lparr>sp_events := (sp_events (abs_store s))((t, r) := log_of evs)\<rparr>"
  by (auto simp: abs_store_def gomap_simps fun_eq_iff plain_keys events_of_def)

lemma log_of_in: "distinct (map e_Seq evs) \<Longrightarrow> log_of evs q = Some e \<longleftrightarrow> e \<in> set evs \<and> e_Seq e = q"
  unfolding log_of_def by (subst map_of_eq_Some_iff) (auto simp: o_def)

lemma option_eqI: "(\<And>e. a = Some e \<longleftrightarrow> b = Some e) \<Longrightarrow> a = b"
  by (metis not_None_eq)

lemma log_eqI:
  assumes "distinct (map e_Seq evs)" and "\<And>q e. m q = Some e \<longleftrightarrow> e \<in> set evs \<and> e_Seq e = q"
  shows "log_of evs = m"
  by (rule ext, rule option_eqI) (simp add: log_of_in [OF assms(1)] assms(2))

lemma log_filter:
  assumes "distinct (map e_Seq evs)"
  shows "log_of (filter P evs) = (\<lambda>q. Option.bind (log_of evs q) (\<lambda>e. if P e then Some e else None))"
  by (rule log_eqI) (auto simp: distinct_map_filter [OF assms] bind_eq_Some_conv log_of_in [OF assms] split: if_splits)

lemma log_insert:
  assumes "distinct (map e_Seq evs)" and "log_of evs (e_Seq ev) = None"
  shows "distinct (map e_Seq (sort_key f (evs @ [ev])))" and "log_of (sort_key f (evs @ [ev])) = (log_of evs)(e_Seq ev \<mapsto> ev)"
proof -
  have new: "e_Seq ev \<notin> e_Seq ` set evs" using log_of_in [OF assms(1), of "e_Seq ev"] assms(2) by fastforce
  have "distinct (map e_Seq (evs @ [ev]))" using assms(1) new by simp
  then have "distinct (evs @ [ev]) \<and> inj_on e_Seq (set (evs @ [ev]))" unfolding distinct_map .
  then show d: "distinct (map e_Seq (sort_key f (evs @ [ev])))" unfolding distinct_map set_sort distinct_sort .
  show "log_of (sort_key f (evs @ [ev])) = (log_of evs)(e_Seq ev \<mapsto> ev)"
    by (rule log_eqI [OF d]) (use log_of_in [OF assms(1)] new in \<open>auto simp: image_iff\<close>)
qed

lemma wf_log: "store_wf s \<Longrightarrow> distinct (map e_Seq (events_of s k))"
  using wf_events [of s k] strict_sorted_iff by (auto simp: events_wf_def)

section \<open>The refinement\<close>

definition refines :: "StoreOp \<Rightarrow> MemoryStore \<Rightarrow> bool" where
  "refines op s \<longleftrightarrow> abs_store (apply_op op s) = fst (spec_op op (abs_store s)) \<and> op_error op s = snd (spec_op op (abs_store s))"

lemma task_refines:
  "refines (OpUpdateTaskStatus now t from' to') s"
  "refines (OpUpdateTaskStatusForRun now t r from' to') s"
  "refines (OpSetAbortRequested now t why) s"
  "refines (OpClearAbortRequested now t) s"
  "refines (OpSetActiveRun now t r) s"
proof -
  have view: "sp_tasks (abs_store s) = gm_get (db_tasks s)" by (simp add: abs_store_def)
  show "refines (OpUpdateTaskStatus now t from' to') s" "refines (OpUpdateTaskStatusForRun now t r from' to') s"
    "refines (OpSetAbortRequested now t why) s" "refines (OpClearAbortRequested now t) s" "refines (OpSetActiveRun now t r) s"
    unfolding refines_def
    by (auto simp: UpdateTaskStatus_def UpdateTaskStatusForRun_def SetAbortRequested_def ClearAbortRequested_def SetActiveRun_def
        change_task_def abs_put view split: option.split)
qed

lemma run_refines:
  assumes "plain t"
  shows "refines (OpClaimRun now t r) s" "refines (OpCompleteRun now t r status) s" "refines (OpUpdateLastStepIndex t r i) s"
    "refines (OpAddRunUsage t r u c) s" "refines (OpResetRunToQueued now t r) s"
proof -
  have view: "sp_runs (abs_store s) (t, r) = gm_get (db_runs s) (runKey t r)" using assms by (simp add: abs_store_def)
  show "refines (OpClaimRun now t r) s" "refines (OpCompleteRun now t r status) s" "refines (OpUpdateLastStepIndex t r i) s"
    "refines (OpAddRunUsage t r u c) s" "refines (OpResetRunToQueued now t r) s"
    unfolding refines_def
    by (auto simp: ClaimRun_def CompleteRun_def UpdateLastStepIndex_def AddRunUsage_def ResetRunToQueued_def
        change_run_def view abs_put assms Let_def split: option.split)
qed

lemma create_refines:
  assumes "plain_op (OpApplyCreateTransition now x y)"
  shows "refines (OpApplyCreateTransition now x y) s"
proof (cases x; cases y)
  fix x' y0
  assume xy: "x = Some x'" "y = Some y0"
  obtain y' where y': "ensureQueuedAt (Some y0) now = Some y'" "r_TaskID y' = r_TaskID y0" "r_RunID y' = r_RunID y0"
    by (rule ensureQueuedAt_Some)
  have p: "plain (t_TaskID x')" "plain (t_TenantID x')" "plain (r_TaskID y')" using assms xy y'(2) by simp_all
  have views: "sp_tasks (abs_store s) = gm_get (db_tasks s)"
    "sp_runs (abs_store s) (r_TaskID y', r_RunID y') = gm_get (db_runs s) (runKey (r_TaskID y') (r_RunID y'))"
    "sp_keys (abs_store s) (t_TenantID x', t_IdempotencyKey x') = gm_get (db_idempotency s) (idempKey (t_TenantID x') (t_IdempotencyKey x'))"
    using p by (simp_all add: abs_store_def)
  show ?thesis
    unfolding refines_def xy
    by (simp add: ApplyCreateTransition_def y'(1) spec_create_def views gm_has_def)
      (auto simp: abs_store_def gomap_simps fun_eq_iff plain_keys p events_of_def)
qed (simp_all add: refines_def ApplyCreateTransition_def ensureQueuedAt_def split: option.split)

lemma resume_refines:
  assumes "plain_op (OpApplyResumeTransition now1 now2 t y from' to')"
  shows "refines (OpApplyResumeTransition now1 now2 t y from' to') s"
proof (cases y)
  case (Some y0)
  obtain y' where y': "ensureQueuedAt (Some y0) now1 = Some y'" "r_TaskID y' = r_TaskID y0" "r_RunID y' = r_RunID y0"
    by (rule ensureQueuedAt_Some)
  have p: "plain t" using assms by simp
  show ?thesis
    unfolding refines_def Some
    by (simp add: ApplyResumeTransition_def y'(1) spec_resume_def gm_has_def split: option.split)
      (auto simp: abs_store_def gomap_simps fun_eq_iff plain_keys p events_of_def)
qed (simp add: refines_def ApplyResumeTransition_def ensureQueuedAt_def)

lemma put_refines:
  "plain (r_TaskID y0) \<Longrightarrow> refines (OpPutRun now y0) s"
  "refines (OpPutStep z) s"
  "refines (OpPutConnection c) s"
  "refines (OpDeleteConnection cid) s"
proof -
  show "refines (OpPutRun now y0) s" if "plain (r_TaskID y0)"
  proof -
    obtain y where y: "ensureQueuedAt (Some y0) now = Some y" "r_TaskID y = r_TaskID y0" "r_RunID y = r_RunID y0"
      by (rule ensureQueuedAt_Some)
    have p: "plain (r_TaskID y)" using that y(2) by simp
    have view: "sp_runs (abs_store s) (r_TaskID y, r_RunID y) = gm_get (db_runs s) (runKey (r_TaskID y) (r_RunID y))"
      using p by (simp add: abs_store_def)
    show ?thesis unfolding refines_def by (simp add: PutRun_def y(1) view gm_has_def abs_put p Let_def)
  qed
  have "sp_steps (abs_store s) (r, i) = gm_get (db_steps s) (stepKey r i)" for r i by (simp add: abs_store_def)
  then show "refines (OpPutStep z) s" unfolding refines_def by (simp add: PutStep_def gm_has_def abs_put Let_def)
qed (simp_all add: refines_def PutConnection_def DeleteConnection_def abs_put)

lemma event_refines:
  assumes "store_wf s" and "plain_op (OpPutEvent now1 now2 ev)"
  shows "refines (OpPutEvent now1 now2 ev) s"
proof (cases ev)
  case (Some ev0)
  define e where "e = (if e_TS ev0 = 0 then ev0\<lparr>e_TS := time_Unix now1\<rparr> else ev0)"
  define evs where "evs = events_of s (eventKey (e_TaskID e) (e_RunID e))"
  have ids: "e_TaskID e = e_TaskID ev0" "e_RunID e = e_RunID ev0" by (simp_all add: e_def)
  have p: "plain (e_TaskID e)" using assms(2) Some ids by simp
  have d: "distinct (map e_Seq evs)" using wf_log [OF assms(1)] by (simp add: evs_def)
  have view: "sp_events (abs_store s) (e_TaskID e, e_RunID e) = log_of evs" "sp_retention (abs_store s) = db_eventRetention s"
    using p by (simp_all add: abs_store_def evs_def)
  have seen: "(\<exists>x \<in> set evs. e_Seq x = e_Seq e) \<longleftrightarrow> log_of evs (e_Seq e) \<noteq> None"
    using log_of_in [OF d, of "e_Seq e"] by auto
  let ?sorted = "sort_key (\<lambda>e. (e_Seq e, e_TS e)) (evs @ [e])"
  let ?P = "\<lambda>x. time_Unix (time_Add now2 (- db_eventRetention s)) \<le> e_TS x"
  have kept: "log_of (if 0 < db_eventRetention s then filter ?P ?sorted else ?sorted) =
      (\<lambda>q. Option.bind (((log_of evs)(e_Seq e \<mapsto> e)) q) (\<lambda>x. if 0 < db_eventRetention s \<longrightarrow> ?P x then Some x else None))"
    if "log_of evs (e_Seq e) = None"
    by (simp add: log_filter [OF log_insert(1) [OF d that]] log_insert(2) [OF d that] del: fun_upd_apply)
  show ?thesis
    unfolding refines_def Some
    by (simp add: PutEvent_def spec_event_def e_def [symmetric] ids evs_def [symmetric] view seen abs_put p kept Let_def
        flip: ids del: fun_upd_apply)
qed (simp add: refines_def PutEvent_def)

lemma compact_refines:
  assumes "store_wf s" and "plain t"
  shows "refines (OpCompactEvents t r ts) s"
proof -
  let ?evs = "events_of s (eventKey t r)"
  have view: "sp_events (abs_store s) (t, r) = log_of ?evs" using assms(2) by (simp add: abs_store_def)
  show ?thesis
  proof (cases "?evs = []")
    case True
    then have "log_of ?evs = (\<lambda>_. None)" by (simp add: log_of_def)
    then show ?thesis
      using True view unfolding refines_def
      by (auto simp: CompactEvents_def spec_compact_def Let_def) (simp add: fun_upd_idem flip: view)
  next
    case False
    then show ?thesis
      unfolding refines_def
      by (simp add: CompactEvents_def spec_compact_def Let_def view abs_put assms(2) log_filter [OF wf_log [OF assms(1)]] not_less)
  qed
qed

lemma op_refines:
  assumes "store_wf s" and "plain_op op"
  shows "refines op s"
  using assms
  by (cases op)
    (auto simp del: plain_op.simps(1,3,10) intro: task_refines run_refines create_refines resume_refines put_refines event_refines compact_refines)

text \<open>Functional simulation, carried from one operation to every history.\<close>

locale simulation =
  fixes step :: "'o \<Rightarrow> 's \<Rightarrow> 's" and spec :: "'o \<Rightarrow> 'a \<Rightarrow> 'a" and abs :: "'s \<Rightarrow> 'a" and inv :: "'s \<Rightarrow> bool" and ok :: "'o \<Rightarrow> bool"
  assumes sim_step: "inv s \<Longrightarrow> ok op \<Longrightarrow> abs (step op s) = spec op (abs s)"
    and sim_inv: "inv s \<Longrightarrow> ok op \<Longrightarrow> inv (step op s)"
begin

lemma sim_run: "inv s \<Longrightarrow> list_all ok ops \<Longrightarrow> abs (fold step ops s) = fold spec ops (abs s) \<and> inv (fold step ops s)"
  by (induction ops arbitrary: s) (simp_all add: sim_step sim_inv)

end

interpretation mem_sim: simulation apply_op "\<lambda>op a. fst (spec_op op a)" abs_store store_wf plain_op
  by unfold_locales (use op_refines in \<open>auto simp: refines_def wf_apply_op simp del: apply_op.simps\<close>)

definition spec_run :: "StoreOp list \<Rightarrow> Spec" where
  "spec_run ops = fold (\<lambda>op a. fst (spec_op op a)) ops spec_init"



end
