(* ===== verification/StateTypes.thy ===== *)
theory StateTypes
  imports StateContract
begin

text \<open>
  The machine types of stored values (\<open>pkg/model/task.go\<close>, \<open>pkg/state/memory_store.go\<close>): integers
  are 64-bit, costs are double-precision. A store whose values fit their types is typed; every call
  whose arguments fit keeps it so, the wrapping sums of token usage and the rounded sums of costs
  included.
\<close>

section \<open>Machine types\<close>

text \<open>Values that fit the Go types of the fields: 64-bit integers and double-precision floats.\<close>

definition typed_usage :: "TokenUsage \<Rightarrow> bool" where
  "typed_usage u \<longleftrightarrow> in_i64 (tu_Input u) \<and> in_i64 (tu_Output u) \<and> in_i64 (tu_Total u)"

definition typed_run :: "Run \<Rightarrow> bool" where
  "typed_run y \<longleftrightarrow> in_i64 (r_LastStepIndex y) \<and> pred_option in_i64 (r_ResumeFromStepIndex y)
     \<and> pred_option typed_usage (r_TotalTokenUsage y) \<and> is_f64 (r_TotalCostUSD y)"

definition typed_step :: "Step \<Rightarrow> bool" where
  "typed_step z \<longleftrightarrow> in_i64 (s_StepIndex z) \<and> in_i64 (s_LatencyMS z) \<and> pred_option typed_usage (s_TokenUsage z)"

definition typed_event :: "StreamEvent \<Rightarrow> bool" where
  "typed_event ev \<longleftrightarrow> in_i64 (e_Seq ev) \<and> in_i64 (e_TS ev)"

definition all_of :: "('v \<Rightarrow> bool) \<Rightarrow> (string, 'v) gomap \<Rightarrow> bool" where
  "all_of P m \<longleftrightarrow> (\<forall>k. pred_option P (gm_get m k))"

definition typed_store :: "MemoryStore \<Rightarrow> bool" where
  "typed_store s \<longleftrightarrow> all_of typed_run (db_runs s) \<and> all_of typed_step (db_steps s)
     \<and> all_of (list_all typed_event) (db_events s)"

text \<open>The arguments of a call fit their types; only the run's own counters are computed.\<close>

fun typed_op :: "StoreOp \<Rightarrow> bool" where
  "typed_op (OpApplyCreateTransition _ _ y) = pred_option typed_run y"
| "typed_op (OpApplyResumeTransition _ _ _ y _ _) = pred_option typed_run y"
| "typed_op (OpPutRun _ y) = typed_run y"
| "typed_op (OpUpdateLastStepIndex _ _ i) = in_i64 i"
| "typed_op (OpPutStep z) = typed_step z"
| "typed_op (OpPutEvent now1 _ ev) = (in_i64 (time_Unix now1) \<and> pred_option typed_event ev)"
| "typed_op _ = True"

lemma all_of_put: "all_of P m \<Longrightarrow> P v \<Longrightarrow> all_of P (gm_put k v m)"
  by (simp add: all_of_def gomap_simps)

lemma all_of_at: "all_of P m \<Longrightarrow> gm_get m k = Some v \<Longrightarrow> P v"
  by (metis all_of_def option.pred_inject(2))

lemma typed_events_of: "all_of (list_all typed_event) (db_events s) \<Longrightarrow> list_all typed_event (events_of s k)"
  by (auto simp: events_of_def split: option.split dest: all_of_at)

lemma typed_changes [simp]:
  "typed_run (y\<lparr>r_Status := st\<rparr>) = typed_run y" "typed_run (y\<lparr>r_QueuedAt := q\<rparr>) = typed_run y"
  "typed_run (y\<lparr>r_StartedAt := q\<rparr>) = typed_run y" "typed_run (y\<lparr>r_EndedAt := q\<rparr>) = typed_run y"
  "typed_run y \<Longrightarrow> typed_run (y\<lparr>r_LastStepIndex := i\<rparr>) = in_i64 i"
  "typed_run y \<Longrightarrow> typed_run (y\<lparr>r_TotalTokenUsage := Some (add_usage old u)\<rparr>)"
  "typed_run y \<Longrightarrow> typed_run (y\<lparr>r_TotalCostUSD := f64_add c d\<rparr>)"
  by (auto simp: typed_run_def typed_usage_def add_usage_def Let_def add64_def split: option.split)

lemma typed_ensure: "ensureQueuedAt y now = Some y' \<Longrightarrow> pred_option typed_run y \<Longrightarrow> typed_run y'"
  by (auto simp: ensureQueuedAt_def split: option.splits if_splits)

lemma typed_sorted: "list_all typed_event (sort_key f evs) = list_all typed_event evs"
  by (simp add: list_all_iff)

lemma typed_filtered: "list_all typed_event evs \<Longrightarrow> list_all typed_event (filter P evs)"
  by (auto simp: list_all_iff)

lemma typed_PutEvent:
  assumes "typed_store s" and "in_i64 (time_Unix now1)" and "pred_option typed_event ev"
  shows "typed_store (fst (PutEvent now1 now2 s ev))"
proof (cases ev)
  case (Some e)
  then have "typed_event (if e_TS e = 0 then e\<lparr>e_TS := time_Unix now1\<rparr> else e)"
    using assms by (simp add: typed_event_def)
  moreover have "list_all typed_event (events_of s k)" for k
    using assms(1) by (simp add: typed_store_def typed_events_of)
  ultimately show ?thesis
    using assms(1) Some unfolding typed_store_def PutEvent_def Let_def
    by (simp add: all_of_put typed_sorted typed_filtered)
qed (use assms in \<open>simp add: PutEvent_def\<close>)

lemma typed_step_op:
  assumes "typed_store s" and "typed_op op"
  shows "typed_store (apply_op op s)"
proof (cases op)
  case (OpPutEvent now1 now2 ev)
  then show ?thesis using assms typed_PutEvent by simp
next
  case (OpCompactEvents t r ts)
  then show ?thesis
    using assms(1) by (simp add: CompactEvents_def Let_def typed_store_def all_of_put typed_events_of typed_filtered)
next
  case (OpPutRun now y)
  then show ?thesis using assms
    by (auto simp: PutRun_def Let_def typed_store_def ensureQueuedAt_def all_of_put split: option.split)
next
  case (OpApplyCreateTransition now x y)
  then show ?thesis using assms
    by (auto simp: ApplyCreateTransition_def typed_store_def all_of_put dest: typed_ensure split: option.split)
next
  case (OpApplyResumeTransition now1 now2 t y from' to')
  then show ?thesis using assms
    by (auto simp: ApplyResumeTransition_def typed_store_def all_of_put dest: typed_ensure split: option.split)
next
  case (OpAddRunUsage t r u c)
  then show ?thesis using assms(1)
    by (auto simp: AddRunUsage_def Let_def typed_store_def intro!: all_of_put dest: all_of_at split: option.split)
qed (use assms in \<open>auto simp: store_op_defs Let_def typed_store_def intro!: all_of_put dest: all_of_at split: option.split\<close>)

interpretation typed: machine apply_op typed_store typed_op
  by unfold_locales (rule typed_step_op)


definition plain_run :: Run where
  "plain_run =
     \<lparr>r_TaskID = ''t1'', r_RunID = ''r1'', r_TenantID = ''acme'', r_Status = RunStatusRunning, r_QueuedAt = Some 1,
      r_ParentRunID = [], r_ResumeFromStepIndex = None, r_ModelConfig = None, r_StartedAt = Some 2, r_EndedAt = None,
      r_LastStepIndex = 0, r_TotalTokenUsage = None, r_TotalCostUSD = 0\<rparr>"


end
