(* ===== verification/TenantManager.thy ===== *)
theory TenantManager
  imports Model
begin

text \<open>
  Per-tenant admission control, \<open>pkg/tenant/manager.go\<close>: queue and concurrency limits, a
  rolling rate limit, token and cost budgets with reservations, and a circuit breaker.
  A method locks the manager, works on the state of one tenant and unlocks, so it is one
  transition. The clock \<open>m.now\<close> is read several times in one method; \<open>clk i\<close> is the
  reading at the \<open>i\<close>-th place of the method that reads it.
\<close>

section \<open>Policies and states\<close>

datatype BreakerState = BreakerClosed | BreakerOpen | BreakerHalfOpen

datatype AlertType =
    AlertTypeQueueDepth | AlertTypeErrorBurst | AlertTypeBudgetBreach | AlertTypeRateLimited
  | AlertTypeBreakerOpened | AlertTypeBreakerClosed

record Policy =
  p_MaxRunning :: int64
  p_MaxQueued :: int64
  p_RateLimitPerMinute :: int64
  p_MaxConsecutiveErrors :: int64
  p_BreakerCooldown :: duration
  p_TokenBudget :: int64
  p_CostBudget :: float64
  p_AlertQueueDepth :: int64
  p_AlertErrorBurst :: int64
  p_AlertBudgetPct :: float64

record AdmissionInfo =
  a_MessageKey :: string
  a_EstimatedTokens :: int64
  a_EstimatedCost :: float64

record CompletionInfo =
  ci_MessageKey :: string
  ci_TokensUsed :: int64
  ci_CostUsed :: float64
  ci_Failed :: bool
  ci_WasAccepted :: bool

record Alert =
  al_TenantID :: string
  al_Type :: AlertType
  al_Message :: string
  al_TS :: gotime

record tenantState =
  ts_running :: int64
  ts_queued :: int64
  ts_enqueued :: int64
  ts_dequeued :: int64
  ts_completed :: int64
  ts_failed :: int64
  ts_deadLetter :: int64
  ts_consecutiveErrors :: int64
  ts_breakerState :: BreakerState
  ts_breakerOpenedAt :: gotime
  ts_halfOpenInFlight :: bool
  ts_rateLimited :: int64
  ts_tokensUsed :: int64
  ts_costUsed :: float64
  ts_reservedTokens :: int64
  ts_reservedCost :: float64
  ts_reservations :: "(string, AdmissionInfo) gomap"
  ts_enqWindow :: "gotime list"
  ts_alerts :: "Alert list"

record Manager =
  mg_defaultPolicy :: Policy
  mg_policies :: "(string, Policy) gomap"
  mg_states :: "(string, tenantState) gomap"

record RuntimeSnapshot =
  rs_TenantID :: string
  rs_Running :: int64
  rs_Queued :: int64
  rs_Enqueued :: int64
  rs_Dequeued :: int64
  rs_Completed :: int64
  rs_Failed :: int64
  rs_DeadLetter :: int64
  rs_ConsecutiveErrors :: int64
  rs_BreakerState :: BreakerState
  rs_BreakerOpenedAt :: int64
  rs_RateLimited :: int64
  rs_TokensUsed :: int64
  rs_CostUsedUSD :: float64
  rs_TokenBudget :: int64
  rs_CostBudgetUSD :: float64
  rs_ReservedTokens :: int64
  rs_ReservedCost :: float64

section \<open>Helpers\<close>

definition max64 :: "int64 \<Rightarrow> int64 \<Rightarrow> int64" where
  "max64 a b = (if b < a then a else b)"

definition maxFloat :: "float64 \<Rightarrow> float64 \<Rightarrow> float64" where
  "maxFloat a b = (if b < a then a else b)"

definition normalizePolicy :: "Policy \<Rightarrow> Policy" where
  "normalizePolicy p0 =
     (let p1 = (if p_MaxRunning p0 \<le> 0 then p0\<lparr>p_MaxRunning := 4\<rparr> else p0);
          p2 = (if p_MaxQueued p1 \<le> 0 then p1\<lparr>p_MaxQueued := 128\<rparr> else p1);
          p3 = (if p_RateLimitPerMinute p2 \<le> 0 then p2\<lparr>p_RateLimitPerMinute := 240\<rparr> else p2);
          p4 = (if p_MaxConsecutiveErrors p3 \<le> 0 then p3\<lparr>p_MaxConsecutiveErrors := 5\<rparr> else p3);
          p5 = (if p_BreakerCooldown p4 \<le> 0 then p4\<lparr>p_BreakerCooldown := 60 * Second\<rparr> else p4);
          p6 = (if p_AlertQueueDepth p5 \<le> 0
                then p5\<lparr>p_AlertQueueDepth := \<lfloor>max 1 (f64_div (f64_of_int (p_MaxQueued p5)) 2)\<rfloor>\<rparr> else p5);
          p7 = (if p_AlertErrorBurst p6 \<le> 0 then p6\<lparr>p_AlertErrorBurst := p_MaxConsecutiveErrors p6\<rparr> else p6)
      in if p_AlertBudgetPct p7 \<le> 0 \<or> 1 < p_AlertBudgetPct p7
         then p7\<lparr>p_AlertBudgetPct := f64 (9 / 10)\<rparr> else p7)"

text \<open>\<open>pruneOld\<close> drops the leading instants before the cutoff.\<close>

definition pruneOld :: "gotime list \<Rightarrow> gotime \<Rightarrow> gotime list" where
  "pruneOld ts cutoff = dropWhile (\<lambda>t. t < cutoff) ts"

definition emitAlertLocked ::
  "gotime \<Rightarrow> string \<Rightarrow> AlertType \<Rightarrow> string \<Rightarrow> tenantState \<Rightarrow> tenantState" where
  "emitAlertLocked now tenantID ty message st =
     (if tenantID = [] \<or> message = [] then st
      else
        let alerts = ts_alerts st @ [\<lparr>al_TenantID = tenantID, al_Type = ty, al_Message = message, al_TS = now\<rparr>]
        in st\<lparr>ts_alerts := (if 200 < length alerts then drop (length alerts - 200) alerts else alerts)\<rparr>)"

definition maybeRecoverBreakerLocked ::
  "gotime \<Rightarrow> Policy \<Rightarrow> string \<Rightarrow> gotime \<Rightarrow> tenantState \<Rightarrow> tenantState" where
  "maybeRecoverBreakerLocked alert_now pol tenantID now st =
     (if ts_breakerState st \<noteq> BreakerOpen then st
      else if p_BreakerCooldown pol \<le> 0 \<or> ts_breakerOpenedAt st = zero_time then st
      else if p_BreakerCooldown pol \<le> time_Sub now (ts_breakerOpenedAt st)
        then emitAlertLocked alert_now tenantID AlertTypeBreakerClosed
               ''breaker moved to half-open probe state''
               (st\<lparr>ts_breakerState := BreakerHalfOpen, ts_halfOpenInFlight := False\<rparr>)
      else st)"

definition openBreakerLocked ::
  "gotime \<Rightarrow> gotime \<Rightarrow> string \<Rightarrow> string \<Rightarrow> tenantState \<Rightarrow> tenantState" where
  "openBreakerLocked now alert_now tenantID reason st =
     (if ts_breakerState st = BreakerOpen then st
      else emitAlertLocked alert_now tenantID AlertTypeBreakerOpened reason
             (st\<lparr>ts_breakerState := BreakerOpen, ts_breakerOpenedAt := now, ts_halfOpenInFlight := False\<rparr>))"

definition emitBudgetAlertsLocked ::
  "gotime \<Rightarrow> gotime \<Rightarrow> Policy \<Rightarrow> string \<Rightarrow> tenantState \<Rightarrow> tenantState" where
  "emitBudgetAlertsLocked now1 now2 pol tenantID st =
     (if p_AlertBudgetPct pol \<le> 0 then st
      else
        let used_t = f64_div (f64_of_int (add64 (ts_tokensUsed st) (ts_reservedTokens st)))
                       (f64_of_int (p_TokenBudget pol));
            st1 = (if 0 < p_TokenBudget pol \<and> p_AlertBudgetPct pol \<le> used_t
                   then emitAlertLocked now1 tenantID AlertTypeBudgetBreach
                          (''token budget at '' @ fmt_f 2 (f64_mul used_t 100) @ ''%'') st
                   else st);
            used_c = f64_div (f64_add (ts_costUsed st1) (ts_reservedCost st1)) (p_CostBudget pol)
        in if 0 < p_CostBudget pol \<and> p_AlertBudgetPct pol \<le> used_c
           then emitAlertLocked now2 tenantID AlertTypeBudgetBreach
                  (''cost budget at '' @ fmt_f 2 (f64_mul used_c 100) @ ''%'') st1
           else st1)"

text \<open>The reservation of a message released, as three methods do it.\<close>

definition release :: "string \<Rightarrow> tenantState \<Rightarrow> tenantState" where
  "release key st =
     (if key = [] then st
      else case gm_get (ts_reservations st) key of
        None \<Rightarrow> st
      | Some reserved \<Rightarrow>
          st\<lparr>ts_reservedTokens := sub64 (ts_reservedTokens st) (a_EstimatedTokens reserved),
             ts_reservedCost := f64_sub (ts_reservedCost st) (a_EstimatedCost reserved),
             ts_reservations := gm_del key (ts_reservations st)\<rparr>)"

text \<open>The reservation step of \<open>TryEnqueue\<close>; a message admitted twice replaces its reservation.\<close>

definition reserve :: "string \<Rightarrow> int64 \<Rightarrow> float64 \<Rightarrow> tenantState \<Rightarrow> tenantState" where
  "reserve key estTokens estCost st =
     (if key = [] then st
      else
        let st1 = (case gm_get (ts_reservations st) key of
                     None \<Rightarrow> st
                   | Some old \<Rightarrow>
                       st\<lparr>ts_reservedTokens := sub64 (ts_reservedTokens st) (a_EstimatedTokens old),
                          ts_reservedCost := f64_sub (ts_reservedCost st) (a_EstimatedCost old)\<rparr>)
        in st1\<lparr>ts_reservations := gm_put key
                 \<lparr>a_MessageKey = key, a_EstimatedTokens = estTokens, a_EstimatedCost = estCost\<rparr>
                 (ts_reservations st1),
               ts_reservedTokens := add64 (ts_reservedTokens st1) estTokens,
               ts_reservedCost := f64_add (ts_reservedCost st1) estCost\<rparr>)"

section \<open>The methods on the state of one tenant\<close>

text \<open>
  Each method returns the new state and the reason of an \<open>ErrPolicyViolation\<close>, if any.
\<close>

definition TryEnqueue_st ::
  "clock \<Rightarrow> Policy \<Rightarrow> string \<Rightarrow> AdmissionInfo \<Rightarrow> tenantState \<Rightarrow> tenantState \<times> string option" where
  "TryEnqueue_st clk pol tenantID info st0 =
     (let now = clk 0;
          st = maybeRecoverBreakerLocked (clk 1) pol tenantID now st0;
          estTokens = max64 0 (a_EstimatedTokens info);
          estCost = maxFloat 0 (a_EstimatedCost info)
      in
      if ts_breakerState st = BreakerOpen then (st, Some ''tenant breaker is open'')
      else if 0 < p_MaxQueued pol \<and> p_MaxQueued pol \<le> ts_queued st
        then (emitAlertLocked (clk 2) tenantID AlertTypeQueueDepth
                (''queue depth='' @ fmt_d (ts_queued st) @ '' exceeds limit='' @ fmt_d (p_MaxQueued pol)) st,
              Some ''tenant queued limit exceeded'')
      else
        let st1 = st\<lparr>ts_enqWindow := pruneOld (ts_enqWindow st) (time_Add now (- Minute))\<rparr>
        in
        if 0 < p_RateLimitPerMinute pol \<and> p_RateLimitPerMinute pol \<le> int (length (ts_enqWindow st1))
          then (emitAlertLocked (clk 2) tenantID AlertTypeRateLimited
                  (''rate limited: '' @ fmt_d (p_RateLimitPerMinute pol) @ '' requests/min'')
                  (st1\<lparr>ts_rateLimited := add64 (ts_rateLimited st1) 1\<rparr>),
                Some ''tenant rate limit exceeded'')
        else if 0 < p_TokenBudget pol
                \<and> p_TokenBudget pol < add64 (add64 (ts_tokensUsed st1) (ts_reservedTokens st1)) estTokens
          then (openBreakerLocked (clk 2) (clk 3) tenantID
                  (''token budget exceeded: used='' @ fmt_d (ts_tokensUsed st1) @ '' reserved=''
                   @ fmt_d (ts_reservedTokens st1) @ '' incoming='' @ fmt_d estTokens @ '' budget=''
                   @ fmt_d (p_TokenBudget pol)) st1,
                Some ''tenant token budget exceeded'')
        else if 0 < p_CostBudget pol
                \<and> p_CostBudget pol < f64_add (f64_add (ts_costUsed st1) (ts_reservedCost st1)) estCost
          then (openBreakerLocked (clk 2) (clk 3) tenantID
                  (''cost budget exceeded: used='' @ fmt_f 6 (ts_costUsed st1) @ '' reserved=''
                   @ fmt_f 6 (ts_reservedCost st1) @ '' incoming='' @ fmt_f 6 estCost @ '' budget=''
                   @ fmt_f 6 (p_CostBudget pol)) st1,
                Some ''tenant cost budget exceeded'')
        else
          let st2 = st1\<lparr>ts_queued := add64 (ts_queued st1) 1, ts_enqueued := add64 (ts_enqueued st1) 1,
                        ts_enqWindow := ts_enqWindow st1 @ [now]\<rparr>;
              st3 = reserve (a_MessageKey info) estTokens estCost st2;
              st4 = (if 0 < p_AlertQueueDepth pol \<and> p_AlertQueueDepth pol \<le> ts_queued st3
                     then emitAlertLocked (clk 2) tenantID AlertTypeQueueDepth
                            (''queue depth reached '' @ fmt_d (ts_queued st3)) st3
                     else st3)
          in (emitBudgetAlertsLocked (clk 3) (clk 4) pol tenantID st4, None))"

definition TryStartRun_st ::
  "clock \<Rightarrow> Policy \<Rightarrow> string \<Rightarrow> tenantState \<Rightarrow> tenantState \<times> string option" where
  "TryStartRun_st clk pol tenantID st0 =
     (let st = maybeRecoverBreakerLocked (clk 1) pol tenantID (clk 0) st0
      in
      if ts_breakerState st = BreakerOpen then (st, Some ''tenant breaker is open'')
      else if ts_breakerState st = BreakerHalfOpen \<and> ts_halfOpenInFlight st
        then (st, Some ''tenant breaker is half-open and already probing'')
      else
        let st1 = (if ts_breakerState st = BreakerHalfOpen then st\<lparr>ts_halfOpenInFlight := True\<rparr> else st)
        in
        if 0 < p_MaxRunning pol \<and> p_MaxRunning pol \<le> ts_running st1
          then (if ts_breakerState st1 = BreakerHalfOpen then st1\<lparr>ts_halfOpenInFlight := False\<rparr> else st1,
                Some ''tenant running limit exceeded'')
        else
          (st1\<lparr>ts_running := add64 (ts_running st1) 1,
               ts_queued := (if 0 < ts_queued st1 then sub64 (ts_queued st1) 1 else ts_queued st1),
               ts_dequeued := add64 (ts_dequeued st1) 1\<rparr>, None))"

definition CompleteRun_st ::
  "clock \<Rightarrow> Policy \<Rightarrow> string \<Rightarrow> CompletionInfo \<Rightarrow> tenantState \<Rightarrow> tenantState" where
  "CompleteRun_st clk pol tenantID info st0 =
     (let st1 = (if 0 < ts_running st0 then st0\<lparr>ts_running := sub64 (ts_running st0) 1\<rparr> else st0);
          st2 = release (ci_MessageKey info) st1;
          st3 = (if ci_WasAccepted info
                 then st2\<lparr>ts_tokensUsed := add64 (ts_tokensUsed st2) (max64 0 (ci_TokensUsed info)),
                          ts_costUsed := f64_add (ts_costUsed st2) (maxFloat 0 (ci_CostUsed info))\<rparr>
                 else st2);
          st4 =
            (if ci_Failed info
             then
               let a = st3\<lparr>ts_failed := add64 (ts_failed st3) 1,
                           ts_consecutiveErrors := add64 (ts_consecutiveErrors st3) 1\<rparr>;
                   b = (if 0 < p_MaxConsecutiveErrors pol \<and> p_MaxConsecutiveErrors pol \<le> ts_consecutiveErrors a
                        then openBreakerLocked (clk 0) (clk 1) tenantID
                               (''error threshold reached: '' @ fmt_d (ts_consecutiveErrors a) @ '' consecutive failures'') a
                        else a)
               in if 0 < p_AlertErrorBurst pol \<and> p_AlertErrorBurst pol \<le> ts_consecutiveErrors b
                  then emitAlertLocked (clk 2) tenantID AlertTypeErrorBurst
                         (''consecutive failures reached '' @ fmt_d (ts_consecutiveErrors b)) b
                  else b
             else
               let a = st3\<lparr>ts_completed := add64 (ts_completed st3) 1, ts_consecutiveErrors := 0\<rparr>
               in if ts_breakerState a = BreakerHalfOpen
                  then emitAlertLocked (clk 0) tenantID AlertTypeBreakerClosed
                         ''breaker closed after successful half-open probe''
                         (a\<lparr>ts_breakerState := BreakerClosed, ts_halfOpenInFlight := False,
                            ts_breakerOpenedAt := zero_time\<rparr>)
                  else a);
          st5 = (if ts_breakerState st4 = BreakerHalfOpen \<and> ci_Failed info
                 then openBreakerLocked (clk 3) (clk 4) tenantID ''half-open probe failed'' st4
                 else st4)
      in emitBudgetAlertsLocked (clk 5) (clk 6) pol tenantID (st5\<lparr>ts_halfOpenInFlight := False\<rparr>))"

definition CancelEnqueue_st :: "string \<Rightarrow> tenantState \<Rightarrow> tenantState" where
  "CancelEnqueue_st messageKey st =
     release messageKey
       (if 0 < ts_queued st then st\<lparr>ts_queued := sub64 (ts_queued st) 1\<rparr> else st)"

definition MarkDeadLetter_st :: "string \<Rightarrow> tenantState \<Rightarrow> tenantState" where
  "MarkDeadLetter_st messageKey st =
     release messageKey (st\<lparr>ts_deadLetter := add64 (ts_deadLetter st) 1\<rparr>)"

section \<open>The manager\<close>

definition NewManager :: "Policy \<Rightarrow> Manager" where
  "NewManager defaultPolicy =
     \<lparr>mg_defaultPolicy = normalizePolicy defaultPolicy, mg_policies = [], mg_states = []\<rparr>"

definition SetPolicy :: "Manager \<Rightarrow> string \<Rightarrow> Policy \<Rightarrow> Manager" where
  "SetPolicy m tenantID policy =
     (if tenantID = [] then m
      else m\<lparr>mg_policies := gm_put tenantID (normalizePolicy policy) (mg_policies m)\<rparr>)"

definition policyLocked :: "Manager \<Rightarrow> string \<Rightarrow> Policy" where
  "policyLocked m tenantID =
     (case gm_get (mg_policies m) tenantID of Some p \<Rightarrow> p | None \<Rightarrow> mg_defaultPolicy m)"

definition new_tenantState :: tenantState where
  "new_tenantState =
     \<lparr>ts_running = 0, ts_queued = 0, ts_enqueued = 0, ts_dequeued = 0, ts_completed = 0, ts_failed = 0,
      ts_deadLetter = 0, ts_consecutiveErrors = 0, ts_breakerState = BreakerClosed,
      ts_breakerOpenedAt = zero_time, ts_halfOpenInFlight = False, ts_rateLimited = 0,
      ts_tokensUsed = 0, ts_costUsed = 0, ts_reservedTokens = 0, ts_reservedCost = 0,
      ts_reservations = [], ts_enqWindow = [], ts_alerts = []\<rparr>"

text \<open>\<open>stateLocked\<close> creates the state of a tenant on its first use.\<close>

definition stateLocked :: "Manager \<Rightarrow> string \<Rightarrow> Manager \<times> tenantState" where
  "stateLocked m tenantID =
     (case gm_get (mg_states m) tenantID of
        Some st \<Rightarrow> (m, st)
      | None \<Rightarrow> (m\<lparr>mg_states := gm_put tenantID new_tenantState (mg_states m)\<rparr>, new_tenantState))"

text \<open>A method works on the state behind the pointer, so the result is what the map holds.\<close>

definition put_state :: "Manager \<Rightarrow> string \<Rightarrow> tenantState \<Rightarrow> Manager" where
  "put_state m tenantID st = m\<lparr>mg_states := gm_put tenantID st (mg_states m)\<rparr>"

definition TryEnqueue :: "clock \<Rightarrow> Manager \<Rightarrow> string \<Rightarrow> AdmissionInfo \<Rightarrow> Manager \<times> string option" where
  "TryEnqueue clk m tenantID info =
     (let pol = policyLocked m tenantID; (m1, st) = stateLocked m tenantID;
          (st', err) = TryEnqueue_st clk pol tenantID info st
      in (put_state m1 tenantID st', err))"

definition TryStartRun :: "clock \<Rightarrow> Manager \<Rightarrow> string \<Rightarrow> Manager \<times> string option" where
  "TryStartRun clk m tenantID =
     (let pol = policyLocked m tenantID; (m1, st) = stateLocked m tenantID;
          (st', err) = TryStartRun_st clk pol tenantID st
      in (put_state m1 tenantID st', err))"

definition Manager_CompleteRun :: "clock \<Rightarrow> Manager \<Rightarrow> string \<Rightarrow> CompletionInfo \<Rightarrow> Manager" where
  "Manager_CompleteRun clk m tenantID info =
     (let pol = policyLocked m tenantID; (m1, st) = stateLocked m tenantID
      in put_state m1 tenantID (CompleteRun_st clk pol tenantID info st))"

definition CancelEnqueue :: "Manager \<Rightarrow> string \<Rightarrow> string \<Rightarrow> Manager" where
  "CancelEnqueue m tenantID messageKey =
     (let (m1, st) = stateLocked m tenantID in put_state m1 tenantID (CancelEnqueue_st messageKey st))"

definition MarkDeadLetter :: "Manager \<Rightarrow> string \<Rightarrow> string \<Rightarrow> Manager" where
  "MarkDeadLetter m tenantID messageKey =
     (let (m1, st) = stateLocked m tenantID in put_state m1 tenantID (MarkDeadLetter_st messageKey st))"

definition snapshotFromState :: "string \<Rightarrow> tenantState \<Rightarrow> Policy \<Rightarrow> RuntimeSnapshot" where
  "snapshotFromState tenantID st pol =
     \<lparr>rs_TenantID = tenantID, rs_Running = ts_running st, rs_Queued = ts_queued st,
      rs_Enqueued = ts_enqueued st, rs_Dequeued = ts_dequeued st, rs_Completed = ts_completed st,
      rs_Failed = ts_failed st, rs_DeadLetter = ts_deadLetter st,
      rs_ConsecutiveErrors = ts_consecutiveErrors st, rs_BreakerState = ts_breakerState st,
      rs_BreakerOpenedAt =
        (if ts_breakerOpenedAt st = zero_time then 0 else time_Unix (ts_breakerOpenedAt st)),
      rs_RateLimited = ts_rateLimited st, rs_TokensUsed = ts_tokensUsed st, rs_CostUsedUSD = ts_costUsed st,
      rs_TokenBudget = p_TokenBudget pol, rs_CostBudgetUSD = p_CostBudget pol,
      rs_ReservedTokens = ts_reservedTokens st, rs_ReservedCost = ts_reservedCost st\<rparr>"

definition Snapshot :: "Manager \<Rightarrow> string \<Rightarrow> Manager \<times> RuntimeSnapshot" where
  "Snapshot m tenantID =
     (let (m1, st) = stateLocked m tenantID in (m1, snapshotFromState tenantID st (policyLocked m tenantID)))"

definition Snapshots :: "Manager \<Rightarrow> RuntimeSnapshot list" where
  "Snapshots m =
     map (\<lambda>(tenantID, st). snapshotFromState tenantID st (policyLocked m tenantID)) (sort_key fst (mg_states m))"

definition Alerts :: "Manager \<Rightarrow> string \<Rightarrow> int64 \<Rightarrow> Manager \<times> Alert list" where
  "Alerts m tenantID limit0 =
     (let (m1, st) = stateLocked m tenantID; n = int (length (ts_alerts st));
          limit = (if limit0 \<le> 0 \<or> n < limit0 then n else limit0)
      in (m1, drop (nat (n - limit)) (ts_alerts st)))"

section \<open>The invariant of a tenant\<close>

text \<open>What \<open>normalizePolicy\<close> establishes for the limits.\<close>

definition policy_ok :: "Policy \<Rightarrow> bool" where
  "policy_ok p \<longleftrightarrow>
     0 < p_MaxRunning p \<and> in_i64 (p_MaxRunning p) \<and> 0 < p_MaxQueued p \<and> in_i64 (p_MaxQueued p)
     \<and> 0 < p_RateLimitPerMinute p \<and> 0 < p_MaxConsecutiveErrors p \<and> 0 < p_BreakerCooldown p
     \<and> 0 < p_AlertErrorBurst p \<and> 0 < p_AlertBudgetPct p \<and> p_AlertBudgetPct p \<le> 1"

definition reserved_sum :: "(string, AdmissionInfo) gomap \<Rightarrow> int" where
  "reserved_sum rs = sum_list (map (\<lambda>e. a_EstimatedTokens (snd e)) rs)"

text \<open>
  The limits are respected, the reserved tokens are exactly the sum of the outstanding
  reservations (modulo 64 bits), a probe is in flight only while the breaker is half open,
  and the alert buffer and the rate window are bounded.
\<close>

definition tenant_inv :: "Policy \<Rightarrow> tenantState \<Rightarrow> bool" where
  "tenant_inv pol st \<longleftrightarrow>
     0 \<le> ts_running st \<and> ts_running st \<le> p_MaxRunning pol
     \<and> 0 \<le> ts_queued st \<and> ts_queued st \<le> p_MaxQueued pol
     \<and> int (length (ts_enqWindow st)) \<le> p_RateLimitPerMinute pol
     \<and> gm_wf (ts_reservations st)
     \<and> list_all (\<lambda>(k, a). a_MessageKey a = k \<and> k \<noteq> [] \<and> 0 \<le> a_EstimatedTokens a) (ts_reservations st)
     \<and> ts_reservedTokens st = wrap64 (reserved_sum (ts_reservations st))
     \<and> length (ts_alerts st) \<le> 200
     \<and> (ts_halfOpenInFlight st \<longrightarrow> ts_breakerState st = BreakerHalfOpen)"

definition manager_inv :: "Manager \<Rightarrow> bool" where
  "manager_inv m \<longleftrightarrow>
     policy_ok (mg_defaultPolicy m) \<and> list_all (\<lambda>(t, p). policy_ok p) (mg_policies m)
     \<and> gm_wf (mg_states m) \<and> list_all (\<lambda>(t, st). tenant_inv (policyLocked m t) st) (mg_states m)"

text \<open>The methods of the manager as operations.\<close>

datatype ManagerOp =
    MTryEnqueue clock string AdmissionInfo
  | MTryStartRun clock string
  | MCompleteRun clock string CompletionInfo
  | MCancelEnqueue string string
  | MMarkDeadLetter string string
  | MSnapshot string
  | MAlerts string int64

fun manager_step :: "ManagerOp \<Rightarrow> Manager \<Rightarrow> Manager" where
  "manager_step (MTryEnqueue clk t info) m = fst (TryEnqueue clk m t info)"
| "manager_step (MTryStartRun clk t) m = fst (TryStartRun clk m t)"
| "manager_step (MCompleteRun clk t info) m = Manager_CompleteRun clk m t info"
| "manager_step (MCancelEnqueue t k) m = CancelEnqueue m t k"
| "manager_step (MMarkDeadLetter t k) m = MarkDeadLetter m t k"
| "manager_step (MSnapshot t) m = fst (Snapshot m t)"
| "manager_step (MAlerts t n) m = fst (Alerts m t n)"

definition run_manager :: "ManagerOp list \<Rightarrow> Manager \<Rightarrow> Manager" where
  "run_manager ops m = fold manager_step ops m"

section \<open>Lemmas\<close>

named_theorems alert_frame \<open>fields that emitting alerts and moving the breaker leave alone\<close>

lemma reserved_sum_del:
  "gm_wf rs \<Longrightarrow> reserved_sum (gm_del k rs)
     = reserved_sum rs - (case gm_get rs k of None \<Rightarrow> 0 | Some a \<Rightarrow> a_EstimatedTokens a)"
proof (induction rs)
  case (Cons e rs)
  have "gm_get rs (fst e) = None" using Cons.prems by (simp add: map_of_eq_None_iff)
  then have "gm_del (fst e) rs = rs" by (simp add: AList.delete_idem map_of_eq_None_iff)
  then show ?case using Cons by (cases e) (auto simp: reserved_sum_def)
qed (simp add: reserved_sum_def)

lemma reserved_sum_put:
  "gm_wf rs \<Longrightarrow> reserved_sum (gm_put k a rs)
     = reserved_sum rs - (case gm_get rs k of None \<Rightarrow> 0 | Some b \<Rightarrow> a_EstimatedTokens b) + a_EstimatedTokens a"
  by (induction rs) (auto simp: reserved_sum_def)

lemma emitAlert_alerts:
  "length (ts_alerts st) \<le> 200 \<Longrightarrow> length (ts_alerts (emitAlertLocked now t ty msg st)) \<le> 200"
  by (auto simp: emitAlertLocked_def Let_def)

lemma emitAlert_frame [alert_frame]:
  "ts_running (emitAlertLocked now t ty msg st) = ts_running st"
  "ts_queued (emitAlertLocked now t ty msg st) = ts_queued st"
  "ts_enqWindow (emitAlertLocked now t ty msg st) = ts_enqWindow st"
  "ts_reservations (emitAlertLocked now t ty msg st) = ts_reservations st"
  "ts_reservedTokens (emitAlertLocked now t ty msg st) = ts_reservedTokens st"
  "ts_reservedCost (emitAlertLocked now t ty msg st) = ts_reservedCost st"
  "ts_tokensUsed (emitAlertLocked now t ty msg st) = ts_tokensUsed st"
  "ts_costUsed (emitAlertLocked now t ty msg st) = ts_costUsed st"
  "ts_breakerState (emitAlertLocked now t ty msg st) = ts_breakerState st"
  "ts_breakerOpenedAt (emitAlertLocked now t ty msg st) = ts_breakerOpenedAt st"
  "ts_halfOpenInFlight (emitAlertLocked now t ty msg st) = ts_halfOpenInFlight st"
  "ts_consecutiveErrors (emitAlertLocked now t ty msg st) = ts_consecutiveErrors st"
  by (simp_all add: emitAlertLocked_def Let_def)

lemma emitAlert_inv [simp]: "tenant_inv pol st \<Longrightarrow> tenant_inv pol (emitAlertLocked now t ty msg st)"
  by (simp add: tenant_inv_def alert_frame emitAlert_alerts)

lemma emitBudgetAlerts_inv [simp]:
  "tenant_inv pol st \<Longrightarrow> tenant_inv pol (emitBudgetAlertsLocked now1 now2 pol' t st)"
  by (simp add: emitBudgetAlertsLocked_def Let_def)

lemma emitBudgetAlerts_frame [alert_frame]:
  "ts_running (emitBudgetAlertsLocked now1 now2 pol t st) = ts_running st"
  "ts_queued (emitBudgetAlertsLocked now1 now2 pol t st) = ts_queued st"
  "ts_reservations (emitBudgetAlertsLocked now1 now2 pol t st) = ts_reservations st"
  "ts_reservedTokens (emitBudgetAlertsLocked now1 now2 pol t st) = ts_reservedTokens st"
  "ts_tokensUsed (emitBudgetAlertsLocked now1 now2 pol t st) = ts_tokensUsed st"
  "ts_breakerState (emitBudgetAlertsLocked now1 now2 pol t st) = ts_breakerState st"
  "ts_breakerOpenedAt (emitBudgetAlertsLocked now1 now2 pol t st) = ts_breakerOpenedAt st"
  "ts_halfOpenInFlight (emitBudgetAlertsLocked now1 now2 pol t st) = ts_halfOpenInFlight st"
  "ts_consecutiveErrors (emitBudgetAlertsLocked now1 now2 pol t st) = ts_consecutiveErrors st"
  by (simp_all add: emitBudgetAlertsLocked_def Let_def alert_frame)

lemma maybeRecover_frame [alert_frame]:
  "ts_running (maybeRecoverBreakerLocked an pol t now st) = ts_running st"
  "ts_queued (maybeRecoverBreakerLocked an pol t now st) = ts_queued st"
  "ts_enqWindow (maybeRecoverBreakerLocked an pol t now st) = ts_enqWindow st"
  "ts_reservations (maybeRecoverBreakerLocked an pol t now st) = ts_reservations st"
  "ts_reservedTokens (maybeRecoverBreakerLocked an pol t now st) = ts_reservedTokens st"
  "ts_reservedCost (maybeRecoverBreakerLocked an pol t now st) = ts_reservedCost st"
  "ts_tokensUsed (maybeRecoverBreakerLocked an pol t now st) = ts_tokensUsed st"
  "ts_costUsed (maybeRecoverBreakerLocked an pol t now st) = ts_costUsed st"
  "ts_breakerOpenedAt (maybeRecoverBreakerLocked an pol t now st) = ts_breakerOpenedAt st"
  by (simp_all add: maybeRecoverBreakerLocked_def alert_frame)

lemma maybeRecover_inv [simp]:
  "tenant_inv pol st \<Longrightarrow> tenant_inv pol (maybeRecoverBreakerLocked an pol' t now st)"
  by (auto simp: maybeRecoverBreakerLocked_def intro!: emitAlert_inv) (auto simp: tenant_inv_def)

lemma openBreaker_inv [simp]:
  "tenant_inv pol st \<Longrightarrow> tenant_inv pol (openBreakerLocked now an t reason st)"
  by (auto simp: openBreakerLocked_def intro!: emitAlert_inv) (auto simp: tenant_inv_def)

lemma openBreaker_frame [alert_frame]:
  "ts_breakerState (openBreakerLocked now an t reason st) = BreakerOpen"
  "ts_consecutiveErrors (openBreakerLocked now an t reason st) = ts_consecutiveErrors st"
  "ts_running (openBreakerLocked now an t reason st) = ts_running st"
  "ts_tokensUsed (openBreakerLocked now an t reason st) = ts_tokensUsed st"
  by (simp_all add: openBreakerLocked_def alert_frame)

lemma release_inv [simp]: "tenant_inv pol st \<Longrightarrow> tenant_inv pol (release key st)"
  by (auto simp: tenant_inv_def release_def list_all_iff set_gm_del reserved_sum_del sub64_def
      i64_simps split: option.splits)

lemma release_frame [alert_frame]:
  "ts_running (release key st) = ts_running st"
  "ts_queued (release key st) = ts_queued st"
  "ts_breakerState (release key st) = ts_breakerState st"
  "ts_breakerOpenedAt (release key st) = ts_breakerOpenedAt st"
  "ts_halfOpenInFlight (release key st) = ts_halfOpenInFlight st"
  "ts_consecutiveErrors (release key st) = ts_consecutiveErrors st"
  "ts_tokensUsed (release key st) = ts_tokensUsed st"
  by (simp_all add: release_def split: option.split)

lemma reserve_inv [simp]:
  "tenant_inv pol st \<Longrightarrow> 0 \<le> n \<Longrightarrow> tenant_inv pol (reserve key n c st)"
  by (auto simp: tenant_inv_def reserve_def Let_def list_all_iff set_gm_put reserved_sum_put sub64_def
      add64_def i64_simps algebra_simps split: option.splits)

lemma reserve_frame [alert_frame]:
  "ts_running (reserve key n c st) = ts_running st"
  "ts_queued (reserve key n c st) = ts_queued st"
  "ts_tokensUsed (reserve key n c st) = ts_tokensUsed st"
  "ts_breakerState (reserve key n c st) = ts_breakerState st"
  by (simp_all add: reserve_def Let_def split: option.split)

lemma max64_nonneg [simp]: "0 \<le> max64 0 x"
  by (simp add: max64_def)

lemma pruneOld_length: "length (pruneOld ts cutoff) \<le> length ts"
  by (simp add: pruneOld_def length_dropWhile_le)

lemma policy_ok_normalize:
  assumes "in_i64 (p_MaxRunning p)" and "in_i64 (p_MaxQueued p)"
  shows "policy_ok (normalizePolicy p)"
proof -
  have "0 < f64 (9 / 10)" "f64 (9 / 10) \<le> 1"
    by code_simp+
  with assms show ?thesis
    by (simp add: policy_ok_def normalizePolicy_def Let_def in_i64_def Second_def)
qed

lemma count_up: "0 \<le> n \<Longrightarrow> n < b \<Longrightarrow> in_i64 b \<Longrightarrow> add64 n 1 = n + 1"
  by (auto simp: add64_exact in_i64_def)

lemma count_down: "0 < n \<Longrightarrow> n \<le> b \<Longrightarrow> in_i64 b \<Longrightarrow> sub64 n 1 = n - 1"
  by (auto simp: sub64_exact in_i64_def)

lemma TryEnqueue_st_inv:
  assumes "tenant_inv pol st" and "policy_ok pol"
  shows "tenant_inv pol (fst (TryEnqueue_st clk pol t info st))"
proof -
  define st' where "st' = maybeRecoverBreakerLocked (clk 1) pol t (clk 0) st"
  have inv': "tenant_inv pol st'" using assms by (simp add: st'_def)
  define st1 where "st1 = st'\<lparr>ts_enqWindow := pruneOld (ts_enqWindow st') (time_Add (clk 0) (- Minute))\<rparr>"
  have inv1: "tenant_inv pol st1"
    using inv' pruneOld_length [of "ts_enqWindow st'" "time_Add (clk 0) (- Minute)"]
    by (auto simp: st1_def tenant_inv_def)
  then have rl: "tenant_inv pol (st1\<lparr>ts_rateLimited := x\<rparr>)" for x by (simp add: tenant_inv_def)
  have adm: "tenant_inv pol (st1\<lparr>ts_queued := add64 (ts_queued st1) 1, ts_enqueued := x,
                        ts_enqWindow := ts_enqWindow st1 @ [clk 0]\<rparr>)"
    if "ts_queued st1 < p_MaxQueued pol" "int (length (ts_enqWindow st1)) < p_RateLimitPerMinute pol" for x
    using inv1 that assms(2)
    by (auto simp: tenant_inv_def policy_ok_def count_up)
  have "p_MaxQueued pol > 0" "p_RateLimitPerMinute pol > 0" using assms(2) by (simp_all add: policy_ok_def)
  moreover have "ts_queued st1 = ts_queued st'" by (simp add: st1_def)
  ultimately show ?thesis
    using inv' inv1 rl adm
    unfolding TryEnqueue_st_def Let_def st'_def [symmetric] st1_def [symmetric]
    by (simp add: not_le)
qed

lemma TryStartRun_st_inv:
  assumes "tenant_inv pol st" and "policy_ok pol"
  shows "tenant_inv pol (fst (TryStartRun_st clk pol t st))"
proof -
  define st' where "st' = maybeRecoverBreakerLocked (clk 1) pol t (clk 0) st"
  have inv': "tenant_inv pol st'" using assms by (simp add: st'_def)
  then have probe: "tenant_inv pol (st'\<lparr>ts_halfOpenInFlight := b\<rparr>)" if "ts_breakerState st' = BreakerHalfOpen" for b
    using that by (simp add: tenant_inv_def)
  have start: "tenant_inv pol (x\<lparr>ts_running := add64 (ts_running x) 1,
               ts_queued := (if 0 < ts_queued x then sub64 (ts_queued x) 1 else ts_queued x), ts_dequeued := d\<rparr>)"
    if "tenant_inv pol x" "ts_running x < p_MaxRunning pol" for x d
    using that assms(2) by (auto simp: tenant_inv_def policy_ok_def count_up count_down)
  show ?thesis
    using inv' probe start [OF inv'] start [OF probe] assms(2)
    unfolding TryStartRun_st_def Let_def st'_def [symmetric]
    by (simp add: policy_ok_def not_le)
qed

lemma CompleteRun_st_inv:
  assumes "tenant_inv pol st" and "policy_ok pol"
  shows "tenant_inv pol (CompleteRun_st clk pol t info st)"
proof -
  have upd: "tenant_inv pol x
     \<Longrightarrow> tenant_inv pol (x\<lparr>ts_tokensUsed := a, ts_costUsed := b\<rparr>)
       \<and> tenant_inv pol (x\<lparr>ts_failed := a, ts_consecutiveErrors := d\<rparr>)
       \<and> tenant_inv pol (x\<lparr>ts_completed := a, ts_consecutiveErrors := d\<rparr>)
       \<and> tenant_inv pol (x\<lparr>ts_completed := a, ts_consecutiveErrors := d, ts_breakerState := BreakerClosed,
            ts_halfOpenInFlight := False, ts_breakerOpenedAt := e\<rparr>)
       \<and> tenant_inv pol (x\<lparr>ts_halfOpenInFlight := False\<rparr>)" for x a b d e
    by (simp add: tenant_inv_def)
  have "tenant_inv pol (if 0 < ts_running st then st\<lparr>ts_running := sub64 (ts_running st) 1\<rparr> else st)"
    using assms by (auto simp: tenant_inv_def policy_ok_def count_down)
  then show ?thesis
    unfolding CompleteRun_st_def Let_def
    by (intro emitBudgetAlerts_inv) (simp add: upd)
qed

lemma CancelEnqueue_st_inv: "tenant_inv pol st \<Longrightarrow> policy_ok pol \<Longrightarrow> tenant_inv pol (CancelEnqueue_st k st)"
  unfolding CancelEnqueue_st_def
  by (rule release_inv) (auto simp: tenant_inv_def policy_ok_def count_down)

lemma MarkDeadLetter_st_inv: "tenant_inv pol st \<Longrightarrow> tenant_inv pol (MarkDeadLetter_st k st)"
  unfolding MarkDeadLetter_st_def by (rule release_inv) (simp add: tenant_inv_def)

end
