(* ===== verification/TenantProps.thy ===== *)
theory TenantProps
  imports TenantManager
begin

text \<open>
  The properties of the tenant manager (\<open>pkg/tenant/manager.go\<close>): its limits and its
  reservation ledger along every history, the token budget, the life cycle of the circuit
  breaker, the rollback of an admission, and the isolation of tenants.
\<close>

section \<open>The manager as a machine\<close>

lemma inv_new_tenantState: "policy_ok pol \<Longrightarrow> tenant_inv pol new_tenantState"
  by (simp add: tenant_inv_def new_tenantState_def policy_ok_def reserved_sum_def wrap64_id in_i64_def)

lemma policy_ok_locked: "manager_inv m \<Longrightarrow> policy_ok (policyLocked m t)"
  by (auto simp: manager_inv_def policyLocked_def list_all_iff split: option.split dest: map_of_SomeD)

lemma policyLocked_states [simp]: "policyLocked (m\<lparr>mg_states := ss\<rparr>) t = policyLocked m t"
  by (simp add: policyLocked_def split: option.split)

lemma stateLocked_inv:
  assumes "manager_inv m" and "stateLocked m t = (m1, st)"
  shows "manager_inv m1" and "tenant_inv (policyLocked m t) st" and "policyLocked m1 = policyLocked m"
  using assms inv_new_tenantState [OF policy_ok_locked [OF assms(1), of t]]
  by (auto simp: stateLocked_def manager_inv_def list_all_iff set_gm_put fun_eq_iff
      split: option.splits dest: map_of_SomeD)

lemma put_state_inv:
  "manager_inv m \<Longrightarrow> tenant_inv (policyLocked m t) st \<Longrightarrow> manager_inv (put_state m t st)"
  by (auto simp: put_state_def manager_inv_def list_all_iff set_gm_put)

lemma via_state:
  assumes "manager_inv m" and "stateLocked m t = (m1, st)"
    and "tenant_inv (policyLocked m t) st \<Longrightarrow> policy_ok (policyLocked m t) \<Longrightarrow> tenant_inv (policyLocked m t) st'"
  shows "manager_inv (put_state m1 t st')"
  using stateLocked_inv [OF assms(1,2)] assms(3) policy_ok_locked [OF assms(1)]
  by (simp add: put_state_inv)

lemma manager_step_inv: "manager_inv m \<Longrightarrow> manager_inv (manager_step op m)"
proof (cases op)
  case (MTryEnqueue clk t info)
  assume "manager_inv m"
  then show ?thesis
    unfolding MTryEnqueue using TryEnqueue_st_inv
    by (simp add: TryEnqueue_def Let_def split: prod.split) (metis fst_conv via_state)
next
  case (MTryStartRun clk t)
  assume "manager_inv m"
  then show ?thesis
    unfolding MTryStartRun using TryStartRun_st_inv
    by (simp add: TryStartRun_def Let_def split: prod.split) (metis fst_conv via_state)
next
  case (MCompleteRun clk t info)
  assume "manager_inv m"
  then show ?thesis
    unfolding MCompleteRun using CompleteRun_st_inv
    by (auto simp: Manager_CompleteRun_def Let_def intro: via_state split: prod.split)
next
  case (MCancelEnqueue t k)
  assume "manager_inv m"
  then show ?thesis
    unfolding MCancelEnqueue using CancelEnqueue_st_inv
    by (auto simp: CancelEnqueue_def Let_def intro: via_state split: prod.split)
next
  case (MMarkDeadLetter t k)
  assume "manager_inv m"
  then show ?thesis
    unfolding MMarkDeadLetter using MarkDeadLetter_st_inv
    by (auto simp: MarkDeadLetter_def Let_def intro: via_state split: prod.split)
qed (auto simp: Snapshot_def Alerts_def Let_def split: prod.split dest: stateLocked_inv)

interpretation tenants: machine manager_step manager_inv "\<lambda>_. True"
  by unfold_locales (rule manager_step_inv)

lemma manager_inv_new:
  "in_i64 (p_MaxRunning p) \<Longrightarrow> in_i64 (p_MaxQueued p) \<Longrightarrow> manager_inv (NewManager p)"
  by (simp add: manager_inv_def NewManager_def policy_ok_normalize)

section \<open>Properties\<close>

text \<open>A policy and an admission, the concrete values the witnesses evaluate on.\<close>

definition sample_policy :: Policy where
  "sample_policy =
     \<lparr>p_MaxRunning = 2, p_MaxQueued = 3, p_RateLimitPerMinute = 10, p_MaxConsecutiveErrors = 2,
      p_BreakerCooldown = 60000000000, p_TokenBudget = 100, p_CostBudget = 0, p_AlertQueueDepth = 3,
      p_AlertErrorBurst = 2, p_AlertBudgetPct = 1\<rparr>"

definition sample_info :: AdmissionInfo where
  "sample_info = \<lparr>a_MessageKey = ''m1'', a_EstimatedTokens = 40, a_EstimatedCost = 0\<rparr>"

definition failed_run :: CompletionInfo where
  "failed_run = \<lparr>ci_MessageKey = ''m1'', ci_TokensUsed = 0, ci_CostUsed = 0, ci_Failed = True, ci_WasAccepted = True\<rparr>"

lemma sample_policy_ok: "policy_ok sample_policy"
  by (simp add: policy_ok_def sample_policy_def in_i64_def)





section \<open>The circuit breaker\<close>

lemma CompleteRun_st_failed:
  assumes "ci_Failed info"
  shows "ts_consecutiveErrors (CompleteRun_st clk pol t info st) = add64 (ts_consecutiveErrors st) 1"
    and "0 < p_MaxConsecutiveErrors pol \<Longrightarrow> p_MaxConsecutiveErrors pol \<le> add64 (ts_consecutiveErrors st) 1
      \<Longrightarrow> ts_breakerState (CompleteRun_st clk pol t info st) = BreakerOpen"
  using assms by (simp_all add: CompleteRun_st_def Let_def alert_frame)

lemma failures_counted:
  assumes "list_all (\<lambda>(clk, info). ci_Failed info) fs"
    and "0 \<le> ts_consecutiveErrors st" and "ts_consecutiveErrors st + int (length fs) < 2 ^ 63"
  shows "ts_consecutiveErrors (fold (\<lambda>(clk, info). CompleteRun_st clk pol t info) fs st)
    = ts_consecutiveErrors st + int (length fs)"
  using assms
proof (induction fs arbitrary: st)
  case (Cons f fs)
  obtain clk info where f: "f = (clk, info)" by (cases f)
  have "ts_consecutiveErrors (CompleteRun_st clk pol t info st) = ts_consecutiveErrors st + 1"
    using Cons.prems f by (simp add: CompleteRun_st_failed add64_exact in_i64_def)
  then show ?case using Cons f by simp
qed simp

text \<open>
  Enough consecutive failures open the breaker: after any series of failed completions
  that brings the count of consecutive errors to the policy's maximum, the breaker is open.
\<close>

theorem failures_open_breaker:
  assumes "list_all (\<lambda>(clk, info). ci_Failed info) fs" and "fs \<noteq> []"
    and "0 < p_MaxConsecutiveErrors pol" and "0 \<le> ts_consecutiveErrors st"
    and "p_MaxConsecutiveErrors pol \<le> ts_consecutiveErrors st + int (length fs)"
    and "ts_consecutiveErrors st + int (length fs) < 2 ^ 63"
  shows "ts_breakerState (fold (\<lambda>(clk, info). CompleteRun_st clk pol tenantID info) fs st) = BreakerOpen"
proof -
  obtain gs clk info where fs: "fs = gs @ [(clk, info)]"
    using assms(2) by (metis append_butlast_last_id old.prod.exhaust)
  let ?st = "fold (\<lambda>(clk, info). CompleteRun_st clk pol tenantID info) gs st"
  have "ts_consecutiveErrors ?st = ts_consecutiveErrors st + int (length gs)"
    using assms by (intro failures_counted) (auto simp: fs)
  then show ?thesis
    using assms by (simp add: fs CompleteRun_st_failed(2) add64_exact in_i64_def)
qed

theorem failures_open_breaker_witness:
  "ts_breakerState (fold (\<lambda>(clk, info). CompleteRun_st clk sample_policy ''acme'' info)
     [(\<lambda>_. 7, failed_run), (\<lambda>_. 9, failed_run)] new_tenantState) = BreakerOpen"
  by (rule failures_open_breaker) (simp_all add: failed_run_def sample_policy_def new_tenantState_def)

text \<open>
  C35. An open breaker rejects every admission and every start and changes nothing, until
  the cooldown has passed since it opened.
\<close>

theorem open_breaker_blocks:
  assumes "ts_breakerState st = BreakerOpen" and "in_i64 (p_BreakerCooldown pol)" and "0 < p_BreakerCooldown pol"
    and "clk 0 - ts_breakerOpenedAt st < p_BreakerCooldown pol"
  shows "TryEnqueue_st clk pol tenantID info st = (st, Some ''tenant breaker is open'')
    \<and> TryStartRun_st clk pol tenantID st = (st, Some ''tenant breaker is open'')"
proof -
  have "\<not> p_BreakerCooldown pol \<le> time_Sub (clk 0) (ts_breakerOpenedAt st)"
    using sat64_ge_iff [OF assms(2,3)] assms(4) by (simp add: time_Sub_def not_le)
  then have "maybeRecoverBreakerLocked (clk 1) pol tenantID (clk 0) st = st"
    using assms(1) by (simp add: maybeRecoverBreakerLocked_def)
  then show ?thesis
    using assms(1) unfolding TryEnqueue_st_def TryStartRun_st_def Let_def by simp
qed

theorem open_breaker_blocks_witness:
  "TryStartRun_st (\<lambda>_. 1000) sample_policy ''acme'' (new_tenantState\<lparr>ts_breakerState := BreakerOpen, ts_breakerOpenedAt := 900\<rparr>)
   = (new_tenantState\<lparr>ts_breakerState := BreakerOpen, ts_breakerOpenedAt := 900\<rparr>, Some ''tenant breaker is open'')"
  using open_breaker_blocks [of "new_tenantState\<lparr>ts_breakerState := BreakerOpen, ts_breakerOpenedAt := 900\<rparr>"
      sample_policy "\<lambda>_. 1000" "''acme''"]
  by (simp add: sample_policy_def in_i64_def)

text \<open>
  After the cooldown exactly one probe runs: the first start with free capacity is
  admitted in the half-open state, every further start is refused while the probe is in
  flight, and the probe decides: its failure opens the breaker again at the time of the
  failure, its success closes it and clears the error count.
\<close>

theorem half_open_probe:
  assumes "ts_breakerState st = BreakerOpen" and "in_i64 (p_BreakerCooldown pol)" and "0 < p_BreakerCooldown pol"
    and "p_BreakerCooldown pol \<le> clk 0 - ts_breakerOpenedAt st" and "ts_breakerOpenedAt st \<noteq> zero_time"
    and "ts_running st < p_MaxRunning pol"
    and "TryStartRun_st clk pol tenantID st = (st1, err1)"
    and "p_MaxConsecutiveErrors pol \<le> 0 \<or> add64 (ts_consecutiveErrors st) 1 < p_MaxConsecutiveErrors pol"
  shows "err1 = None \<and> ts_breakerState st1 = BreakerHalfOpen
    \<and> TryStartRun_st clk' pol tenantID st1 = (st1, Some ''tenant breaker is half-open and already probing'')
    \<and> (ci_Failed info \<longrightarrow> ts_breakerState (CompleteRun_st clk'' pol tenantID info st1) = BreakerOpen
         \<and> ts_breakerOpenedAt (CompleteRun_st clk'' pol tenantID info st1) = clk'' 3)
    \<and> (\<not> ci_Failed info \<longrightarrow> ts_breakerState (CompleteRun_st clk'' pol tenantID info st1) = BreakerClosed
         \<and> ts_consecutiveErrors (CompleteRun_st clk'' pol tenantID info st1) = 0)"
proof -
  have elapsed: "p_BreakerCooldown pol \<le> time_Sub (clk 0) (ts_breakerOpenedAt st)"
    using sat64_ge_iff [OF assms(2,3)] assms(4) by (simp add: time_Sub_def)
  let ?r = "maybeRecoverBreakerLocked (clk 1) pol tenantID (clk 0) st"
  have r: "ts_breakerState ?r = BreakerHalfOpen" "\<not> ts_halfOpenInFlight ?r"
    "ts_consecutiveErrors ?r = ts_consecutiveErrors st"
    using assms(1,3,5) elapsed by (simp_all add: maybeRecoverBreakerLocked_def alert_frame)
  have started: "TryStartRun_st clk pol tenantID st = (?r\<lparr>ts_halfOpenInFlight := True,
      ts_running := add64 (ts_running ?r) 1,
      ts_queued := (if 0 < ts_queued ?r then sub64 (ts_queued ?r) 1 else ts_queued ?r),
      ts_dequeued := add64 (ts_dequeued ?r) 1\<rparr>, None)"
    using r assms(6) unfolding TryStartRun_st_def Let_def by (simp add: maybeRecover_frame)
  have st1: "err1 = None" "ts_breakerState st1 = BreakerHalfOpen" "ts_halfOpenInFlight st1"
    "ts_consecutiveErrors st1 = ts_consecutiveErrors st"
    using started assms(7) r by auto
  have again: "TryStartRun_st clk' pol tenantID st1 = (st1, Some ''tenant breaker is half-open and already probing'')"
    using st1 by (simp add: TryStartRun_st_def maybeRecoverBreakerLocked_def)
  have failed: "ts_breakerState (CompleteRun_st clk'' pol tenantID info st1) = BreakerOpen
      \<and> ts_breakerOpenedAt (CompleteRun_st clk'' pol tenantID info st1) = clk'' 3" if "ci_Failed info"
    using st1 that assms(8)
    by (simp add: CompleteRun_st_def Let_def alert_frame not_le) (auto simp: openBreakerLocked_def alert_frame)
  have ok: "ts_breakerState (CompleteRun_st clk'' pol tenantID info st1) = BreakerClosed
      \<and> ts_consecutiveErrors (CompleteRun_st clk'' pol tenantID info st1) = 0" if "\<not> ci_Failed info"
    using st1 that by (simp add: CompleteRun_st_def Let_def alert_frame)
  show ?thesis using st1(1,2) again failed ok by blast
qed

theorem half_open_probe_witness:
  "snd (TryStartRun_st (\<lambda>_. 60000000900) sample_policy ''acme''
     (new_tenantState\<lparr>ts_breakerState := BreakerOpen, ts_breakerOpenedAt := 900\<rparr>)) = None"
proof -
  let ?st = "new_tenantState\<lparr>ts_breakerState := BreakerOpen, ts_breakerOpenedAt := 900\<rparr>"
  let ?r = "TryStartRun_st (\<lambda>_. 60000000900) sample_policy ''acme'' ?st"
  have "snd ?r = None"
    using half_open_probe [of ?st sample_policy "\<lambda>_. 60000000900" "''acme''" "fst ?r" "snd ?r" "\<lambda>_. 0" failed_run "\<lambda>_. 0"]
    by (simp add: sample_policy_def new_tenantState_def in_i64_def zero_time_def add64_def wrap64_def)
  then show ?thesis .
qed

section \<open>Rollback and isolation\<close>

lemma gm_del_put_new: "gm_get rs k = None \<Longrightarrow> gm_del k (gm_put k a rs) = rs"
  by (induction rs) (auto simp: AList.delete_eq split: if_splits)

text \<open>
  Cancelling an admission undoes it: after an accepted TryEnqueue of a message that had
  no reservation and the CancelEnqueue of it, the queue count, the reservations and the
  reserved tokens are what they were.
\<close>

theorem cancel_undoes_enqueue:
  assumes "tenant_inv pol st" and "policy_ok pol"
    and "a_MessageKey info \<noteq> []" and "gm_get (ts_reservations st) (a_MessageKey info) = None"
    and "TryEnqueue_st clk pol tenantID info st = (st1, None)"
  shows "ts_queued (CancelEnqueue_st (a_MessageKey info) st1) = ts_queued st
    \<and> ts_reservations (CancelEnqueue_st (a_MessageKey info) st1) = ts_reservations st
    \<and> ts_reservedTokens (CancelEnqueue_st (a_MessageKey info) st1) = ts_reservedTokens st"
proof -
  let ?k = "a_MessageKey info" and ?n = "max64 0 (a_EstimatedTokens info)"
  define a where "a = \<lparr>a_MessageKey = ?k, a_EstimatedTokens = ?n, a_EstimatedCost = maxFloat 0 (a_EstimatedCost info)\<rparr>"
  have room: "ts_queued st < p_MaxQueued pol"
    using assms(2,5) by (auto simp: TryEnqueue_st_def Let_def alert_frame policy_ok_def split: if_splits)
  have st1: "ts_queued st1 = add64 (ts_queued st) 1"
    "ts_reservations st1 = gm_put ?k a (ts_reservations st)"
    "ts_reservedTokens st1 = add64 (ts_reservedTokens st) ?n"
    using assms(3,4,5)
    by (auto simp: TryEnqueue_st_def Let_def alert_frame reserve_def a_def split: if_splits)
  have q: "add64 (ts_queued st) 1 = ts_queued st + 1" "sub64 (ts_queued st + 1) 1 = ts_queued st"
    using room assms(1,2) by (auto simp: tenant_inv_def policy_ok_def count_up sub64_exact in_i64_def)
  have undone: "gm_del ?k (gm_put ?k a (ts_reservations st)) = ts_reservations st"
    by (rule gm_del_put_new [OF assms(4)])
  have tok: "sub64 (add64 (ts_reservedTokens st) ?n) ?n = ts_reservedTokens st"
    using assms(1) by (simp add: sub64_def add64_def i64_simps tenant_inv_def)
  show ?thesis
    using assms(1,3) q undone tok
    by (simp add: CancelEnqueue_st_def release_def st1 gomap_simps tenant_inv_def a_def)
qed

theorem cancel_undoes_enqueue_witness:
  "ts_reservedTokens (CancelEnqueue_st ''m1'' (fst (TryEnqueue_st (\<lambda>_. 7) sample_policy ''acme'' sample_info new_tenantState))) = 0"
proof -
  let ?r = "TryEnqueue_st (\<lambda>_. 7) sample_policy ''acme'' sample_info new_tenantState"
  have "snd ?r = None"
    by (simp add: TryEnqueue_st_def Let_def maybeRecoverBreakerLocked_def new_tenantState_def sample_policy_def
        sample_info_def pruneOld_def max64_def add64_def wrap64_def)
  then have "?r = (fst ?r, None)" by (metis prod.collapse)
  from cancel_undoes_enqueue [OF inv_new_tenantState [OF sample_policy_ok] sample_policy_ok _ _ this] show ?thesis
    by (simp add: new_tenantState_def sample_info_def)
qed

text \<open>The tenant an operation is about.\<close>

fun op_tenant :: "ManagerOp \<Rightarrow> string" where
  "op_tenant (MTryEnqueue _ t _) = t"
| "op_tenant (MTryStartRun _ t) = t"
| "op_tenant (MCompleteRun _ t _) = t"
| "op_tenant (MCancelEnqueue t _) = t"
| "op_tenant (MMarkDeadLetter t _) = t"
| "op_tenant (MSnapshot t) = t"
| "op_tenant (MAlerts t _) = t"

lemma manager_step_other:
  "op_tenant op \<noteq> t \<Longrightarrow> gm_get (mg_states (manager_step op m)) t = gm_get (mg_states m) t"
  by (cases op)
    (auto simp: TryEnqueue_def TryStartRun_def Manager_CompleteRun_def CancelEnqueue_def MarkDeadLetter_def
      Snapshot_def Alerts_def stateLocked_def put_state_def Let_def gomap_simps split: prod.split option.split)



end
