(* ===== verification/MemoryQueue.thy ===== *)
theory MemoryQueue
  imports TenantManager
begin

text \<open>
  The in-memory task queue, \<open>pkg/queue/memory_queue.go\<close>: deduplication by message key,
  per-tenant FIFO buffers served round robin under the limits of the tenant manager,
  retries with backoff, a dead-letter queue and its redrive. A method that takes the mutex
  several times is given as one definition per critical section, and as their composition
  where the method runs alone; the concurrent system interleaves the sections.
\<close>

section \<open>Configuration and state\<close>

record MemoryQueueConfig =
  qc_BufferSize :: int64
  qc_MaxWorkers :: int64
  qc_MaxAttempts :: int64
  qc_RetryBackoff :: duration
  qc_DedupeWindow :: duration
  qc_TenantManager :: "Manager option"

definition DefaultMemoryQueueConfig :: MemoryQueueConfig where
  "DefaultMemoryQueueConfig =
     \<lparr>qc_BufferSize = 100, qc_MaxWorkers = 1, qc_MaxAttempts = 3, qc_RetryBackoff = 250 * Millisecond,
      qc_DedupeWindow = 2 * Minute,
      qc_TenantManager = Some (NewManager
        \<lparr>p_MaxRunning = 8, p_MaxQueued = 2048, p_RateLimitPerMinute = 1200, p_MaxConsecutiveErrors = 8,
         p_BreakerCooldown = 30 * Second, p_TokenBudget = 0, p_CostBudget = 0, p_AlertQueueDepth = 0,
         p_AlertErrorBurst = 0, p_AlertBudgetPct = 0\<rparr>)\<rparr>"

text \<open>
  \<open>q_ch\<close> is the content of the buffered channel; the sets hold the keys of the maps to
  \<open>struct{}\<close>; \<open>nextTenant\<close> is never negative. The tenant manager behind the pointer
  \<open>cfg.TenantManager\<close> is the one in \<open>q_cfg\<close>.
\<close>

record MemoryQueue =
  q_ch :: "SQSMessage list"
  q_cfg :: MemoryQueueConfig
  q_pending :: "(string, SQSMessage list) gomap"
  q_tenantOrder :: "string list"
  q_nextTenant :: nat
  q_inQueue :: "string set"
  q_inFlight :: "string set"
  q_recent :: "(string, gotime) gomap"
  q_dlq :: "SQSMessage list"

definition NewMemoryQueueWithConfig :: "MemoryQueueConfig \<Rightarrow> MemoryQueue" where
  "NewMemoryQueueWithConfig cfg0 =
     (let c1 = (if qc_BufferSize cfg0 \<le> 0 then cfg0\<lparr>qc_BufferSize := 100\<rparr> else cfg0);
          c2 = (if qc_MaxWorkers c1 \<le> 0 then c1\<lparr>qc_MaxWorkers := 1\<rparr> else c1);
          c3 = (if qc_MaxAttempts c2 \<le> 0 then c2\<lparr>qc_MaxAttempts := 3\<rparr> else c2);
          c4 = (if qc_RetryBackoff c3 \<le> 0 then c3\<lparr>qc_RetryBackoff := 250 * Millisecond\<rparr> else c3);
          c5 = (if qc_DedupeWindow c4 \<le> 0 then c4\<lparr>qc_DedupeWindow := 2 * Minute\<rparr> else c4);
          cfg = (if qc_TenantManager c5 = None
                 then c5\<lparr>qc_TenantManager := qc_TenantManager DefaultMemoryQueueConfig\<rparr> else c5)
      in \<lparr>q_ch = [], q_cfg = cfg, q_pending = [], q_tenantOrder = [], q_nextTenant = 0,
          q_inQueue = {}, q_inFlight = {}, q_recent = [], q_dlq = []\<rparr>)"

definition NewMemoryQueue :: "int64 \<Rightarrow> MemoryQueue" where
  "NewMemoryQueue bufSize =
     NewMemoryQueueWithConfig
       (if 0 < bufSize then DefaultMemoryQueueConfig\<lparr>qc_BufferSize := bufSize\<rparr> else DefaultMemoryQueueConfig)"

section \<open>Keys\<close>

definition normalizeTenant :: "string \<Rightarrow> string" where
  "normalizeTenant tenantID = (if tenantID = [] then ''default'' else tenantID)"

definition messageKey :: "SQSMessage option \<Rightarrow> string" where
  "messageKey msg =
     (case msg of
        None \<Rightarrow> []
      | Some m \<Rightarrow>
          let tenantID = normalizeTenant (m_TenantID m)
          in if m_DedupeKey m \<noteq> [] then tenantID @ ''#'' @ m_DedupeKey m
             else tenantID @ ''#'' @ m_TaskID m @ ''#'' @ m_RunID m)"

abbreviation mkey :: "SQSMessage \<Rightarrow> string" where
  "mkey m \<equiv> messageKey (Some m)"

section \<open>Enqueue\<close>

definition pruneRecentLocked :: "gotime \<Rightarrow> MemoryQueue \<Rightarrow> MemoryQueue" where
  "pruneRecentLocked now q =
     q\<lparr>q_recent := filter (\<lambda>(k, ts). \<not> qc_DedupeWindow (q_cfg q) < time_Sub now ts) (q_recent q)\<rparr>"

text \<open>The copy of the message that is enqueued: attempt at least 1, tenant never empty.\<close>

definition enqueue_copy :: "SQSMessage \<Rightarrow> SQSMessage" where
  "enqueue_copy msg =
     (let cp = (if m_Attempt msg \<le> 0 then msg\<lparr>m_Attempt := 1\<rparr> else msg)
      in cp\<lparr>m_TenantID := normalizeTenant (m_TenantID cp)\<rparr>)"

text \<open>First critical section: a duplicate is acknowledged (\<open>False\<close>), else the key is taken.\<close>

definition Enqueue_reserve :: "gotime \<Rightarrow> MemoryQueue \<Rightarrow> SQSMessage \<Rightarrow> MemoryQueue \<times> bool" where
  "Enqueue_reserve now q0 cp =
     (let key = mkey cp; q = pruneRecentLocked now q0
      in if key \<in> q_inQueue q then (q, False)
         else if key \<in> q_inFlight q then (q, False)
         else if (case gm_get (q_recent q) key of
                    None \<Rightarrow> False | Some ts \<Rightarrow> time_Sub now ts \<le> qc_DedupeWindow (q_cfg q))
           then (q, False)
         else (q\<lparr>q_inQueue := insert key (q_inQueue q)\<rparr>, True))"

definition drop_key :: "MemoryQueue \<Rightarrow> SQSMessage \<Rightarrow> MemoryQueue" where
  "drop_key q cp = q\<lparr>q_inQueue := q_inQueue q - {mkey cp}\<rparr>"

definition set_manager :: "MemoryQueue \<Rightarrow> Manager \<Rightarrow> MemoryQueue" where
  "set_manager q m = q\<lparr>q_cfg := (q_cfg q)\<lparr>qc_TenantManager := Some m\<rparr>\<rparr>"

text \<open>Admission by the tenant manager; a violation gives the key back.\<close>

definition Enqueue_admit :: "clock \<Rightarrow> MemoryQueue \<Rightarrow> SQSMessage \<Rightarrow> MemoryQueue \<times> string option" where
  "Enqueue_admit clk q cp =
     (case qc_TenantManager (q_cfg q) of
        None \<Rightarrow> (q, None)
      | Some m \<Rightarrow>
          (case TryEnqueue clk m (m_TenantID cp)
             \<lparr>a_MessageKey = mkey cp, a_EstimatedTokens = m_EstimatedTokens cp, a_EstimatedCost = m_EstimatedCost cp\<rparr> of
             (m', None) \<Rightarrow> (set_manager q m', None)
           | (m', Some err) \<Rightarrow> (drop_key (set_manager q m') cp, Some err)))"

definition Enqueue_send :: "MemoryQueue \<Rightarrow> SQSMessage \<Rightarrow> MemoryQueue" where
  "Enqueue_send q cp = q\<lparr>q_ch := q_ch q @ [cp]\<rparr>"

text \<open>The context was cancelled while the channel was full: the key and the admission are undone.\<close>

definition Enqueue_cancel :: "MemoryQueue \<Rightarrow> SQSMessage \<Rightarrow> MemoryQueue" where
  "Enqueue_cancel q cp =
     (case qc_TenantManager (q_cfg q) of
        None \<Rightarrow> q
      | Some m \<Rightarrow> set_manager q (CancelEnqueue m (m_TenantID cp) (mkey cp)))"

text \<open>
  The whole method when it runs alone. \<open>sent\<close> tells which case of the final \<open>select\<close> fires:
  the channel had room, or the context was cancelled (with error \<open>ctxErr\<close>).
\<close>

definition Enqueue ::
  "gotime \<Rightarrow> clock \<Rightarrow> bool \<Rightarrow> string \<Rightarrow> MemoryQueue \<Rightarrow> SQSMessage option \<Rightarrow> MemoryQueue \<times> string option" where
  "Enqueue now clk sent ctxErr q msg =
     (case msg of
        None \<Rightarrow> (q, Some ''queue: enqueue: nil message'')
      | Some m \<Rightarrow>
          let cp = enqueue_copy m
          in case Enqueue_reserve now q cp of
               (q1, False) \<Rightarrow> (q1, None)
             | (q1, True) \<Rightarrow>
                 (case Enqueue_admit clk q1 cp of
                    (q2, Some err) \<Rightarrow> (q2, Some err)
                  | (q2, None) \<Rightarrow>
                      if sent then (Enqueue_send q2 cp, None)
                      else (Enqueue_cancel (drop_key q2 cp) cp, Some (''queue: enqueue: '' @ ctxErr))))"

section \<open>Dispatch\<close>

definition pending_of :: "MemoryQueue \<Rightarrow> string \<Rightarrow> SQSMessage list" where
  "pending_of q tenantID = (case gm_get (q_pending q) tenantID of None \<Rightarrow> [] | Some ms \<Rightarrow> ms)"

definition addPendingLocked :: "SQSMessage \<Rightarrow> MemoryQueue \<Rightarrow> MemoryQueue" where
  "addPendingLocked msg q =
     (let tenantID = normalizeTenant (m_TenantID msg);
          q1 = (if gm_has (q_pending q) tenantID then q
                else q\<lparr>q_tenantOrder := q_tenantOrder q @ [tenantID]\<rparr>)
      in q1\<lparr>q_pending := gm_put tenantID (pending_of q1 tenantID @ [msg]) (q_pending q1)\<rparr>)"

text \<open>One round of \<open>ingressLoop\<close>: \<open>n\<close> messages of the channel move to the buffers.\<close>

definition ingress :: "nat \<Rightarrow> MemoryQueue \<Rightarrow> MemoryQueue" where
  "ingress n q = fold addPendingLocked (take n (q_ch q)) (q\<lparr>q_ch := drop n (q_ch q)\<rparr>)"

definition removeTenantLocked :: "nat \<Rightarrow> MemoryQueue \<Rightarrow> MemoryQueue" where
  "removeTenantLocked idx q =
     (if length (q_tenantOrder q) \<le> idx then q
      else
        let order = take idx (q_tenantOrder q) @ drop (Suc idx) (q_tenantOrder q)
        in q\<lparr>q_tenantOrder := order,
             q_nextTenant := (if order = [] then 0 else if length order \<le> q_nextTenant q then 0 else q_nextTenant q)\<rparr>)"

text \<open>\<open>TryStartRun\<close> of the manager, when there is one; the flag says that it refused.\<close>

definition start_run :: "clock \<Rightarrow> MemoryQueue \<Rightarrow> string \<Rightarrow> MemoryQueue \<times> bool" where
  "start_run clk q tenantID =
     (case qc_TenantManager (q_cfg q) of
        None \<Rightarrow> (q, False)
      | Some m \<Rightarrow> (case TryStartRun clk m tenantID of (m', err) \<Rightarrow> (set_manager q m', err \<noteq> None)))"

text \<open>The head of a tenant's buffer handed out.\<close>

definition take_head :: "nat \<Rightarrow> string \<Rightarrow> SQSMessage \<Rightarrow> SQSMessage list \<Rightarrow> MemoryQueue \<Rightarrow> MemoryQueue" where
  "take_head idx tenantID msg rest q =
     (let q1 = (if rest = []
                then removeTenantLocked idx (q\<lparr>q_pending := gm_del tenantID (q_pending q)\<rparr>)
                else q\<lparr>q_pending := gm_put tenantID rest (q_pending q),
                       q_nextTenant := (idx + 1) mod length (q_tenantOrder q)\<rparr>)
      in q1\<lparr>q_inQueue := q_inQueue q1 - {mkey msg}, q_inFlight := insert (mkey msg) (q_inFlight q1)\<rparr>)"

text \<open>
  The loop of \<open>popEligibleLocked\<close>; \<open>clks i\<close> are the clock readings of the manager call
  in its \<open>i\<close>-th iteration.
\<close>

lemma start_run_order [simp]:
  "q_tenantOrder (fst (start_run clk q t)) = q_tenantOrder q"
  "q_pending (fst (start_run clk q t)) = q_pending q"
  "q_nextTenant (fst (start_run clk q t)) = q_nextTenant q"
  "q_inQueue (fst (start_run clk q t)) = q_inQueue q"
  "q_inFlight (fst (start_run clk q t)) = q_inFlight q"
  "q_ch (fst (start_run clk q t)) = q_ch q"
  by (simp_all add: start_run_def set_manager_def split: option.split prod.split)

function popEligible_loop ::
  "(nat \<Rightarrow> clock) \<Rightarrow> nat \<Rightarrow> nat \<Rightarrow> MemoryQueue \<Rightarrow> MemoryQueue \<times> SQSMessage option" where
  "popEligible_loop clks i checked q =
     (if length (q_tenantOrder q) \<le> checked then (q, None)
      else
        let idx = q_nextTenant q mod length (q_tenantOrder q);
            tenantID = q_tenantOrder q ! idx
        in case pending_of q tenantID of
             [] \<Rightarrow> popEligible_loop clks (Suc i) checked
                     (removeTenantLocked idx (q\<lparr>q_pending := gm_del tenantID (q_pending q)\<rparr>))
           | msg # rest \<Rightarrow>
               let r = start_run (clks i) q tenantID
               in if snd r
                  then popEligible_loop clks (Suc i) (Suc checked)
                         ((fst r)\<lparr>q_nextTenant := (idx + 1) mod length (q_tenantOrder q)\<rparr>)
                  else (take_head idx tenantID msg rest (fst r), Some msg))"
  by pat_completeness auto
termination
proof (relation "measures [\<lambda>(clks, i, checked, q). length (q_tenantOrder q),
    \<lambda>(clks, i, checked, q). length (q_tenantOrder q) - checked]", goal_cases)
  case (2 clks i checked q idx tenantID)
  then have "idx < length (q_tenantOrder q)" by (cases "q_tenantOrder q") simp_all
  then have "length (q_tenantOrder (removeTenantLocked idx (q\<lparr>q_pending := gm_del tenantID (q_pending q)\<rparr>)))
      < length (q_tenantOrder q)"
    by (simp add: removeTenantLocked_def Let_def)
  then show ?case by simp
next
  case (3 clks i checked q idx tenantID msg rest r)
  then show ?case by simp
qed simp

declare popEligible_loop.simps [simp del]

text \<open>Returns the message, if any, and whether there was something pending.\<close>

definition popEligibleLocked :: "(nat \<Rightarrow> clock) \<Rightarrow> MemoryQueue \<Rightarrow> MemoryQueue \<times> SQSMessage option \<times> bool" where
  "popEligibleLocked clks q =
     (if q_tenantOrder q = [] then (q, None, False)
      else case popEligible_loop clks 0 0 q of (q', msg) \<Rightarrow> (q', msg, True))"

section \<open>Completion, retries and dead letters\<close>

definition finalFailure :: "MemoryQueue \<Rightarrow> SQSMessage \<Rightarrow> bool \<Rightarrow> bool" where
  "finalFailure q msg failed \<longleftrightarrow> failed \<and> qc_MaxAttempts (q_cfg q) \<le> m_Attempt msg"

text \<open>The accounting with the tenant manager.\<close>

definition finish_account :: "clock \<Rightarrow> MemoryQueue \<Rightarrow> SQSMessage \<Rightarrow> bool \<Rightarrow> MemoryQueue" where
  "finish_account clk q msg failed =
     (case qc_TenantManager (q_cfg q) of
        None \<Rightarrow> q
      | Some m \<Rightarrow>
          let m1 = Manager_CompleteRun clk m (m_TenantID msg)
                     \<lparr>ci_MessageKey = mkey msg, ci_TokensUsed = m_EstimatedTokens msg,
                      ci_CostUsed = m_EstimatedCost msg, ci_Failed = failed,
                      ci_WasAccepted = (\<not> failed \<or> finalFailure q msg failed)\<rparr>
          in set_manager q
               (if finalFailure q msg failed then MarkDeadLetter m1 (m_TenantID msg) (mkey msg) else m1))"

text \<open>The critical section: the key leaves \<open>inFlight\<close>; a final failure goes to the dead letters.\<close>

definition finish_commit :: "gotime \<Rightarrow> MemoryQueue \<Rightarrow> SQSMessage \<Rightarrow> bool \<Rightarrow> MemoryQueue" where
  "finish_commit now q msg failed =
     (let fin = finalFailure q msg failed;
          q1 = q\<lparr>q_inFlight := q_inFlight q - {mkey msg}\<rparr>;
          q2 = (if \<not> failed \<or> fin then q1\<lparr>q_recent := gm_put (mkey msg) now (q_recent q1)\<rparr> else q1);
          q3 = pruneRecentLocked now q2
      in if fin then q3\<lparr>q_dlq := q_dlq q3 @ [msg]\<rparr> else q3)"

text \<open>The retry a failed attempt schedules, and its delay.\<close>

definition retry_of :: "MemoryQueue \<Rightarrow> SQSMessage \<Rightarrow> bool \<Rightarrow> (SQSMessage \<times> duration) option" where
  "retry_of q msg failed =
     (if \<not> failed \<or> finalFailure q msg failed then None
      else
        let retry = msg\<lparr>m_Attempt := add64 (m_Attempt msg) 1\<rparr>;
            delay = mul64 (qc_RetryBackoff (q_cfg q)) (sub64 (m_Attempt retry) 1)
        in Some (retry, if delay \<le> 0 then qc_RetryBackoff (q_cfg q) else delay))"

definition finishAttempt ::
  "clock \<Rightarrow> gotime \<Rightarrow> MemoryQueue \<Rightarrow> SQSMessage \<Rightarrow> bool \<Rightarrow> MemoryQueue \<times> (SQSMessage \<times> duration) option" where
  "finishAttempt clk now q msg failed =
     (let q1 = finish_account clk q msg failed
      in (finish_commit now q1 msg failed, retry_of q1 msg failed))"

definition DeadLetters :: "MemoryQueue \<Rightarrow> SQSMessage list" where
  "DeadLetters q = q_dlq q"

text \<open>
  The loop of \<open>RedriveDeadLetters\<close>, each call of \<open>Enqueue\<close> running alone; \<open>env i\<close> are the
  clock readings and the select outcome of its \<open>i\<close>-th call.
\<close>

fun redrive_loop ::
  "(nat \<Rightarrow> gotime \<times> clock \<times> bool \<times> string) \<Rightarrow> nat \<Rightarrow> SQSMessage list \<Rightarrow> MemoryQueue
   \<Rightarrow> MemoryQueue \<times> int64 \<times> string option" where
  "redrive_loop env ok [] q = (q, int ok, None)"
| "redrive_loop env ok (msg # batch) q =
     (let (now, clk, sent, ctxErr) = env ok; m = msg\<lparr>m_Attempt := 1\<rparr>
      in case Enqueue now clk sent ctxErr q (Some m) of
           (q', Some err) \<Rightarrow> (q'\<lparr>q_dlq := q_dlq q' @ [m]\<rparr>, int ok, Some err)
         | (q', None) \<Rightarrow> redrive_loop env (Suc ok) batch q')"

definition RedriveDeadLetters ::
  "(nat \<Rightarrow> gotime \<times> clock \<times> bool \<times> string) \<Rightarrow> MemoryQueue \<Rightarrow> int64 \<Rightarrow> MemoryQueue \<times> int64 \<times> string option" where
  "RedriveDeadLetters env q limit0 =
     (let n = int (length (q_dlq q)); limit = nat (if limit0 \<le> 0 \<or> n < limit0 then n else limit0)
      in redrive_loop env 0 (take limit (q_dlq q)) (q\<lparr>q_dlq := drop limit (q_dlq q)\<rparr>))"

definition TenantSnapshots :: "MemoryQueue \<Rightarrow> RuntimeSnapshot list" where
  "TenantSnapshots q = (case qc_TenantManager (q_cfg q) of None \<Rightarrow> [] | Some m \<Rightarrow> Snapshots m)"

text \<open>\<open>None\<close> is the zero value the method returns without a tenant manager.\<close>

definition TenantSnapshot :: "MemoryQueue \<Rightarrow> string \<Rightarrow> MemoryQueue \<times> RuntimeSnapshot option" where
  "TenantSnapshot q tenantID =
     (case qc_TenantManager (q_cfg q) of
        None \<Rightarrow> (q, None)
      | Some m \<Rightarrow> (let (m', sn) = Snapshot m (normalizeTenant tenantID) in (set_manager q m', Some sn)))"

definition TenantAlerts :: "MemoryQueue \<Rightarrow> string \<Rightarrow> int64 \<Rightarrow> MemoryQueue \<times> Alert list" where
  "TenantAlerts q tenantID limit =
     (case qc_TenantManager (q_cfg q) of
        None \<Rightarrow> (q, [])
      | Some m \<Rightarrow> (let (m', al) = Alerts m (normalizeTenant tenantID) limit in (set_manager q m', al)))"

end
