(* ===== verification/QueueSystem.thy ===== *)
theory QueueSystem
  imports MemoryQueue
begin

text \<open>
  The concurrent behaviour of the in-memory queue: any number of goroutines enqueue, the
  ingress loop and the workers run, retries wait for their timers. A step of the system is
  one critical section of one of them; in between, a goroutine is an activity that
  remembers how far it has come. The invariant ties the key sets the queue keeps to the
  messages that are really there.
\<close>

section \<open>The system\<close>

datatype activity =
    EnqReserved SQSMessage
  | EnqAdmitted SQSMessage
  | EnqCancelled SQSMessage
  | Handling SQSMessage
  | Finishing SQSMessage bool
  | RetryWait SQSMessage

record qsys =
  sys_q :: MemoryQueue
  sys_acts :: "activity multiset"

text \<open>
  A redrive takes messages from the dead letters and calls \<open>Enqueue\<close> for them as any other
  client does; the messages it could not enqueue it appends again.
\<close>

inductive q_step :: "qsys \<Rightarrow> qsys \<Rightarrow> bool" where
  enq_duplicate: "Enqueue_reserve now q (enqueue_copy m) = (q', False)
    \<Longrightarrow> q_step \<lparr>sys_q = q, sys_acts = A\<rparr> \<lparr>sys_q = q', sys_acts = A\<rparr>"
| enq_reserve: "Enqueue_reserve now q (enqueue_copy m) = (q', True)
    \<Longrightarrow> q_step \<lparr>sys_q = q, sys_acts = A\<rparr> \<lparr>sys_q = q', sys_acts = add_mset (EnqReserved (enqueue_copy m)) A\<rparr>"
| enq_admit: "Enqueue_admit clk q cp = (q', None)
    \<Longrightarrow> q_step \<lparr>sys_q = q, sys_acts = add_mset (EnqReserved cp) A\<rparr> \<lparr>sys_q = q', sys_acts = add_mset (EnqAdmitted cp) A\<rparr>"
| enq_reject: "Enqueue_admit clk q cp = (q', Some err)
    \<Longrightarrow> q_step \<lparr>sys_q = q, sys_acts = add_mset (EnqReserved cp) A\<rparr> \<lparr>sys_q = q', sys_acts = A\<rparr>"
| enq_send: "int (length (q_ch q)) < qc_BufferSize (q_cfg q)
    \<Longrightarrow> q_step \<lparr>sys_q = q, sys_acts = add_mset (EnqAdmitted cp) A\<rparr> \<lparr>sys_q = Enqueue_send q cp, sys_acts = A\<rparr>"
| enq_cancel: "q_step \<lparr>sys_q = q, sys_acts = add_mset (EnqAdmitted cp) A\<rparr>
      \<lparr>sys_q = drop_key q cp, sys_acts = add_mset (EnqCancelled cp) A\<rparr>"
| enq_rollback: "q_step \<lparr>sys_q = q, sys_acts = add_mset (EnqCancelled cp) A\<rparr>
      \<lparr>sys_q = Enqueue_cancel q cp, sys_acts = A\<rparr>"
| ingress_batch: "0 < n \<Longrightarrow> n \<le> length (q_ch q)
    \<Longrightarrow> q_step \<lparr>sys_q = q, sys_acts = A\<rparr> \<lparr>sys_q = ingress n q, sys_acts = A\<rparr>"
| dispatch: "popEligibleLocked clks q = (q', Some m, had)
    \<Longrightarrow> q_step \<lparr>sys_q = q, sys_acts = A\<rparr> \<lparr>sys_q = q', sys_acts = add_mset (Handling m) A\<rparr>"
| dispatch_nothing: "popEligibleLocked clks q = (q', None, had)
    \<Longrightarrow> q_step \<lparr>sys_q = q, sys_acts = A\<rparr> \<lparr>sys_q = q', sys_acts = A\<rparr>"
| account: "q_step \<lparr>sys_q = q, sys_acts = add_mset (Handling m) A\<rparr>
      \<lparr>sys_q = finish_account clk q m failed, sys_acts = add_mset (Finishing m failed) A\<rparr>"
| commit: "retry_of q m failed = None
    \<Longrightarrow> q_step \<lparr>sys_q = q, sys_acts = add_mset (Finishing m failed) A\<rparr>
      \<lparr>sys_q = finish_commit now q m failed, sys_acts = A\<rparr>"
| commit_retry: "retry_of q m failed = Some (r, delay)
    \<Longrightarrow> q_step \<lparr>sys_q = q, sys_acts = add_mset (Finishing m failed) A\<rparr>
      \<lparr>sys_q = finish_commit now q m failed, sys_acts = add_mset (RetryWait r) A\<rparr>"
| retry_stopped: "q_step \<lparr>sys_q = q, sys_acts = add_mset (RetryWait r) A\<rparr> \<lparr>sys_q = q, sys_acts = A\<rparr>"
| retry_duplicate: "Enqueue_reserve now q (enqueue_copy r) = (q', False)
    \<Longrightarrow> q_step \<lparr>sys_q = q, sys_acts = add_mset (RetryWait r) A\<rparr> \<lparr>sys_q = q', sys_acts = A\<rparr>"
| retry_reserve: "Enqueue_reserve now q (enqueue_copy r) = (q', True)
    \<Longrightarrow> q_step \<lparr>sys_q = q, sys_acts = add_mset (RetryWait r) A\<rparr>
      \<lparr>sys_q = q', sys_acts = add_mset (EnqReserved (enqueue_copy r)) A\<rparr>"
| redrive_take: "q_step \<lparr>sys_q = q, sys_acts = A\<rparr> \<lparr>sys_q = q\<lparr>q_dlq := drop n (q_dlq q)\<rparr>, sys_acts = A\<rparr>"
| redrive_return: "q_step \<lparr>sys_q = q, sys_acts = A\<rparr> \<lparr>sys_q = q\<lparr>q_dlq := q_dlq q @ [m]\<rparr>, sys_acts = A\<rparr>"

definition q_initial :: "MemoryQueueConfig \<Rightarrow> qsys" where
  "q_initial cfg = \<lparr>sys_q = NewMemoryQueueWithConfig cfg, sys_acts = {#}\<rparr>"

section \<open>What is queued and what is in flight\<close>

definition q_msgs :: "MemoryQueue \<Rightarrow> SQSMessage multiset" where
  "q_msgs q = mset (q_ch q) + mset (concat (map snd (q_pending q)))"

fun enq_of :: "activity \<Rightarrow> SQSMessage multiset" where
  "enq_of (EnqReserved m) = {#m#}"
| "enq_of (EnqAdmitted m) = {#m#}"
| "enq_of _ = {#}"

fun run_of :: "activity \<Rightarrow> SQSMessage multiset" where
  "run_of (Handling m) = {#m#}"
| "run_of (Finishing m _) = {#m#}"
| "run_of _ = {#}"

definition queued_keys :: "qsys \<Rightarrow> string multiset" where
  "queued_keys s = image_mset mkey (q_msgs (sys_q s) + (\<Sum>a \<in># sys_acts s. enq_of a))"

definition flight_keys :: "qsys \<Rightarrow> string multiset" where
  "flight_keys s = image_mset mkey (\<Sum>a \<in># sys_acts s. run_of a)"

definition q_wf :: "MemoryQueue \<Rightarrow> bool" where
  "q_wf q \<longleftrightarrow>
     gm_wf (q_pending q) \<and> distinct (q_tenantOrder q) \<and> set (q_tenantOrder q) = fst ` set (q_pending q)
     \<and> list_all (\<lambda>e. snd e \<noteq> []) (q_pending q)"

definition sys_inv :: "qsys \<Rightarrow> bool" where
  "sys_inv s \<longleftrightarrow>
     q_wf (sys_q s)
     \<and> finite (q_inQueue (sys_q s)) \<and> finite (q_inFlight (sys_q s))
     \<and> queued_keys s = mset_set (q_inQueue (sys_q s))
     \<and> flight_keys s = mset_set (q_inFlight (sys_q s))
     \<and> q_inQueue (sys_q s) \<inter> q_inFlight (sys_q s) = {}"

section \<open>Lemmas on the buffers\<close>

definition buffer_at :: "(string, SQSMessage list) gomap \<Rightarrow> string \<Rightarrow> SQSMessage list" where
  "buffer_at p t = (case gm_get p t of None \<Rightarrow> [] | Some ms \<Rightarrow> ms)"

definition buffered :: "(string, SQSMessage list) gomap \<Rightarrow> SQSMessage multiset" where
  "buffered p = mset (concat (map snd p))"

lemma buffered_Cons [simp]: "buffered (e # p) = mset (snd e) + buffered p"
  by (simp add: buffered_def)

lemma buffered_put:
  "gm_wf p \<Longrightarrow> buffered (gm_put t ms p) + mset (buffer_at p t) = buffered p + mset ms"
proof (induction p)
  case Nil
  show ?case by (simp add: buffered_def buffer_at_def)
next
  case (Cons e p)
  show ?case
  proof (cases "fst e = t")
    case True
    then show ?thesis by (cases e) (simp add: buffer_at_def ac_simps)
  next
    case False
    then have "buffer_at (e # p) t = buffer_at p t" by (cases e) (simp add: buffer_at_def)
    with False Cons show ?thesis by (cases e) (simp add: ac_simps)
  qed
qed

lemma buffered_del: "gm_wf p \<Longrightarrow> buffered (gm_del t p) + mset (buffer_at p t) = buffered p"
proof (induction p)
  case Nil
  show ?case by (simp add: buffered_def buffer_at_def)
next
  case (Cons e p)
  show ?case
  proof (cases "fst e = t")
    case True
    then have "gm_get p t = None" using Cons.prems by (auto simp: map_of_eq_None_iff)
    then have "gm_del t p = p" by (simp add: delete_idem map_of_eq_None_iff)
    with True show ?thesis by (cases e) (simp add: buffer_at_def ac_simps)
  next
    case False
    then have "buffer_at (e # p) t = buffer_at p t" by (cases e) (simp add: buffer_at_def)
    with False Cons show ?thesis by (cases e) (simp add: ac_simps)
  qed
qed

lemma q_msgs_buffered: "q_msgs q = mset (q_ch q) + buffered (q_pending q)"
  by (simp add: q_msgs_def buffered_def)

lemma pending_of_buffer_at: "pending_of q t = buffer_at (q_pending q) t"
  by (simp add: pending_of_def buffer_at_def)

lemma addPending_msgs:
  assumes "q_wf q"
  shows "q_msgs (addPendingLocked m q) = add_mset m (q_msgs q)"
    and "q_wf (addPendingLocked m q)"
    and "q_inQueue (addPendingLocked m q) = q_inQueue q" "q_inFlight (addPendingLocked m q) = q_inFlight q"
    and "q_ch (addPendingLocked m q) = q_ch q"
proof -
  let ?t = "normalizeTenant (m_TenantID m)"
  have "buffered (gm_put ?t (buffer_at (q_pending q) ?t @ [m]) (q_pending q)) = add_mset m (buffered (q_pending q))"
    using buffered_put [of "q_pending q" ?t "buffer_at (q_pending q) ?t @ [m]"] assms
    by (simp add: q_wf_def)
  then show "q_msgs (addPendingLocked m q) = add_mset m (q_msgs q)"
    by (simp add: addPendingLocked_def Let_def q_msgs_buffered pending_of_buffer_at)
  show "q_wf (addPendingLocked m q)"
    using assms
    by (auto simp: addPendingLocked_def Let_def q_wf_def gm_has_conv_set dom_update list_all_iff set_gm_put)
qed (simp_all add: addPendingLocked_def Let_def)

lemma ingress_msgs:
  assumes "q_wf q"
  shows "q_msgs (ingress n q) = q_msgs q" and "q_wf (ingress n q)"
    and "q_inQueue (ingress n q) = q_inQueue q" "q_inFlight (ingress n q) = q_inFlight q"
proof -
  have many: "q_wf p \<Longrightarrow> q_msgs (fold addPendingLocked ms p) = mset ms + q_msgs p
      \<and> q_wf (fold addPendingLocked ms p) \<and> q_inQueue (fold addPendingLocked ms p) = q_inQueue p
      \<and> q_inFlight (fold addPendingLocked ms p) = q_inFlight p" for ms p
    by (induction ms arbitrary: p) (simp_all add: addPending_msgs)
  let ?p = "q\<lparr>q_ch := drop n (q_ch q)\<rparr>"
  have "q_wf ?p" using assms by (simp add: q_wf_def)
  note res = many [OF this, of "take n (q_ch q)"]
  have "mset (take n (q_ch q)) + mset (drop n (q_ch q)) = mset (q_ch q)"
    by (metis append_take_drop_id mset_append)
  with res show "q_msgs (ingress n q) = q_msgs q"
    by (simp add: ingress_def q_msgs_buffered union_assoc [symmetric])
  show "q_wf (ingress n q)" "q_inQueue (ingress n q) = q_inQueue q" "q_inFlight (ingress n q) = q_inFlight q"
    using res by (simp_all add: ingress_def)
qed

lemma keys_del: "fst ` set (gm_del k m) = fst ` set m - {k}"
  by (auto simp: set_gm_del)

lemma distinct_remove_nth:
  assumes "distinct xs" and "i < length xs"
  shows "distinct (take i xs @ drop (Suc i) xs) \<and> set (take i xs @ drop (Suc i) xs) = set xs - {xs ! i}"
proof -
  have split: "distinct (a @ x # b) \<Longrightarrow> distinct (a @ b) \<and> set (a @ b) = set (a @ x # b) - {x}" for a b and x :: 'a
    by auto
  show ?thesis
    using split [of "take i xs" "xs ! i" "drop (Suc i) xs"] assms
    unfolding id_take_nth_drop [OF assms(2), symmetric] by blast
qed

lemma removeTenant_wf:
  assumes "q_wf q" and "idx < length (q_tenantOrder q)"
  shows "q_wf (removeTenantLocked idx (q\<lparr>q_pending := gm_del (q_tenantOrder q ! idx) (q_pending q)\<rparr>))"
proof -
  let ?ts = "q_tenantOrder q"
  have d: "distinct ?ts" using assms(1) by (simp add: q_wf_def)
  have "distinct (take idx ?ts @ drop (Suc idx) ?ts)"
    "set (take idx ?ts @ drop (Suc idx) ?ts) = set ?ts - {?ts ! idx}"
    using distinct_remove_nth [OF d assms(2)] by blast+
  then show ?thesis
    using assms by (auto simp: removeTenantLocked_def Let_def q_wf_def keys_del list_all_iff set_gm_del)
qed

lemma removeTenant_frame [simp]:
  "q_pending (removeTenantLocked idx q) = q_pending q" "q_ch (removeTenantLocked idx q) = q_ch q"
  "q_inQueue (removeTenantLocked idx q) = q_inQueue q" "q_inFlight (removeTenantLocked idx q) = q_inFlight q"
  "q_cfg (removeTenantLocked idx q) = q_cfg q"
  by (simp_all add: removeTenantLocked_def Let_def)

lemma start_run_wf [simp]: "q_wf (fst (start_run clk q t)) = q_wf q" "q_msgs (fst (start_run clk q t)) = q_msgs q"
  by (simp_all add: q_wf_def q_msgs_def)

text \<open>Handing out the head of a buffer moves one message from the queue into flight.\<close>

lemma take_head_moves:
  assumes "q_wf q" and "idx < length (q_tenantOrder q)"
    and "pending_of q (q_tenantOrder q ! idx) = m # rest"
    and "q' = take_head idx (q_tenantOrder q ! idx) m rest q"
  shows "q_wf q'" and "add_mset m (q_msgs q') = q_msgs q"
    and "q_inQueue q' = q_inQueue q - {mkey m}" and "q_inFlight q' = insert (mkey m) (q_inFlight q)"
proof -
  let ?t = "q_tenantOrder q ! idx"
  have wf: "gm_wf (q_pending q)" using assms(1) by (simp add: q_wf_def)
  have at: "buffer_at (q_pending q) ?t = m # rest" using assms(3) by (simp add: pending_of_buffer_at)
  have key: "?t \<in> fst ` set (q_pending q)"
    using assms(1,2) by (auto simp: q_wf_def)
  show "q_wf q'"
    using removeTenant_wf [OF assms(1,2)] assms(1) key
    by (auto simp: assms(4) take_head_def Let_def q_wf_def dom_update list_all_iff set_gm_put)
  have "buffered (gm_del ?t (q_pending q)) + mset (m # rest) = buffered (q_pending q)"
    using buffered_del [OF wf, of ?t] at by simp
  moreover have "buffered (gm_put ?t rest (q_pending q)) + mset (m # rest) = buffered (q_pending q) + mset rest"
    using buffered_put [OF wf, of ?t rest] at by simp
  ultimately show "add_mset m (q_msgs q') = q_msgs q"
    by (cases rest) (simp_all add: assms(4) take_head_def Let_def q_msgs_buffered)
qed (simp_all add: assms(4) take_head_def Let_def)

text \<open>
  What one call of \<open>popEligibleLocked\<close> does: it hands out one queued message, or leaves
  the messages and the keys as they are.
\<close>

definition popped :: "MemoryQueue \<Rightarrow> MemoryQueue \<Rightarrow> SQSMessage option \<Rightarrow> bool" where
  "popped q q' res \<longleftrightarrow> q_wf q' \<and>
     (case res of
        None \<Rightarrow> q_msgs q' = q_msgs q \<and> q_inQueue q' = q_inQueue q \<and> q_inFlight q' = q_inFlight q
      | Some m \<Rightarrow> add_mset m (q_msgs q') = q_msgs q \<and> q_inQueue q' = q_inQueue q - {mkey m}
          \<and> q_inFlight q' = insert (mkey m) (q_inFlight q))"

lemma popped_cong:
  "popped p q' res \<Longrightarrow> q_msgs p = q_msgs q \<Longrightarrow> q_inQueue p = q_inQueue q \<Longrightarrow> q_inFlight p = q_inFlight q
   \<Longrightarrow> popped q q' res"
  by (simp add: popped_def split: option.splits)

lemma popEligible_loop_popped:
  "q_wf q \<Longrightarrow> popped q (fst (popEligible_loop clks i checked q)) (snd (popEligible_loop clks i checked q))"
proof (induction clks i checked q rule: popEligible_loop.induct)
  case (1 clks i checked q)
  let ?ts = "q_tenantOrder q" and ?idx = "q_nextTenant q mod length (q_tenantOrder q)"
  let ?t = "?ts ! ?idx"
  show ?case
  proof (cases "length ?ts \<le> checked")
    case True
    then show ?thesis using "1.prems" by (subst (1 2) popEligible_loop.simps) (simp add: popped_def)
  next
    case False
    then have idx: "?idx < length ?ts" by (cases ?ts) simp_all
    show ?thesis
    proof (cases "pending_of q ?t")
      case Nil
      let ?q = "removeTenantLocked ?idx (q\<lparr>q_pending := gm_del ?t (q_pending q)\<rparr>)"
      have wf: "q_wf ?q" using removeTenant_wf [OF "1.prems" idx] .
      have "q_msgs ?q = q_msgs q"
        using buffered_del [of "q_pending q" ?t] "1.prems" Nil
        by (simp add: q_msgs_buffered q_wf_def pending_of_buffer_at)
      moreover have "popEligible_loop clks i checked q = popEligible_loop clks (Suc i) checked ?q"
        using False Nil by (subst popEligible_loop.simps) (simp add: Let_def)
      ultimately show ?thesis
        using popped_cong [OF "1.IH"(1) [OF False refl refl Nil wf]] by simp
    next
      case (Cons m rest)
      let ?r = "start_run (clks i) q ?t"
      show ?thesis
      proof (cases "snd ?r")
        case True
        let ?q = "(fst ?r)\<lparr>q_nextTenant := (?idx + 1) mod length ?ts\<rparr>"
        have wf: "q_wf ?q" using "1.prems" by (simp add: q_wf_def)
        have "q_msgs ?q = q_msgs q" by (simp add: q_msgs_def)
        moreover have "popEligible_loop clks i checked q = popEligible_loop clks (Suc i) (Suc checked) ?q"
          using False Cons True by (subst popEligible_loop.simps) (simp add: Let_def)
        ultimately show ?thesis
          using popped_cong [OF "1.IH"(2) [OF False refl refl Cons refl True wf]] by simp
      next
        case False': False
        have "q_wf (fst ?r)" using "1.prems" by simp
        from take_head_moves [OF this _ _ refl, of ?idx m rest]
        have "popped q (take_head ?idx ?t m rest (fst ?r)) (Some m)"
          using idx Cons by (simp add: popped_def pending_of_def)
        moreover have "popEligible_loop clks i checked q = (take_head ?idx ?t m rest (fst ?r), Some m)"
          using False False' Cons by (subst popEligible_loop.simps) (simp add: Let_def)
        ultimately show ?thesis by simp
      qed
    qed
  qed
qed

lemma popEligible_popped: "q_wf q \<Longrightarrow> popEligibleLocked clks q = (q', res, had) \<Longrightarrow> popped q q' res"
  using popEligible_loop_popped [of q clks 0 0]
  by (cases "popEligible_loop clks 0 0 q") (auto simp: popEligibleLocked_def popped_def split: if_splits)

section \<open>The invariant is kept by every step\<close>

lemma reserve_frame':
  assumes "Enqueue_reserve now q cp = (q', b)"
  shows "q_pending q' = q_pending q" "q_ch q' = q_ch q" "q_tenantOrder q' = q_tenantOrder q"
    "q_inFlight q' = q_inFlight q"
    "b \<Longrightarrow> q_inQueue q' = insert (mkey cp) (q_inQueue q)" "b \<Longrightarrow> mkey cp \<notin> q_inQueue q"
    "b \<Longrightarrow> mkey cp \<notin> q_inFlight q" "\<not> b \<Longrightarrow> q_inQueue q' = q_inQueue q"
  using assms by (auto simp: Enqueue_reserve_def Let_def pruneRecentLocked_def split: if_splits)

lemma admit_frame:
  assumes "Enqueue_admit clk q cp = (q', err)"
  shows "q_pending q' = q_pending q" "q_ch q' = q_ch q" "q_tenantOrder q' = q_tenantOrder q"
    "q_inFlight q' = q_inFlight q"
    "err = None \<Longrightarrow> q_inQueue q' = q_inQueue q" "err \<noteq> None \<Longrightarrow> q_inQueue q' = q_inQueue q - {mkey cp}"
  using assms by (auto simp: Enqueue_admit_def set_manager_def drop_key_def split: option.splits prod.splits)

lemma frame_simps [simp]:
  "q_pending (Enqueue_cancel q cp) = q_pending q" "q_ch (Enqueue_cancel q cp) = q_ch q"
  "q_tenantOrder (Enqueue_cancel q cp) = q_tenantOrder q"
  "q_inQueue (Enqueue_cancel q cp) = q_inQueue q" "q_inFlight (Enqueue_cancel q cp) = q_inFlight q"
  "q_pending (finish_account clk q m b) = q_pending q" "q_ch (finish_account clk q m b) = q_ch q"
  "q_tenantOrder (finish_account clk q m b) = q_tenantOrder q"
  "q_inQueue (finish_account clk q m b) = q_inQueue q" "q_inFlight (finish_account clk q m b) = q_inFlight q"
  "q_pending (finish_commit now q m b) = q_pending q" "q_ch (finish_commit now q m b) = q_ch q"
  "q_tenantOrder (finish_commit now q m b) = q_tenantOrder q"
  "q_inQueue (finish_commit now q m b) = q_inQueue q"
  "q_inFlight (finish_commit now q m b) = q_inFlight q - {mkey m}"
  by (simp_all add: Enqueue_cancel_def finish_account_def finish_commit_def pruneRecentLocked_def
      set_manager_def Let_def split: option.split)

lemmas sys_defs = sys_inv_def queued_keys_def flight_keys_def q_wf_def q_msgs_def

lemma mset_set_insert_new:
  "finite A \<Longrightarrow> x \<notin> A \<Longrightarrow> mset_set (insert x A) = add_mset x (mset_set A)"
  by simp

lemma mset_set_remove:
  assumes "finite A" and "add_mset x M = mset_set A"
  shows "M = mset_set (A - {x})" and "x \<in> A"
proof -
  have "x \<in># mset_set A" using assms(2) [symmetric] by simp
  then show "x \<in> A" using assms(1) by simp
  then have "mset_set A = add_mset x (mset_set (A - {x}))" using assms(1) by (rule mset_set.remove [rotated])
  with assms(2) show "M = mset_set (A - {x})" by simp
qed

lemma sys_inv_reserve:
  assumes "sys_inv \<lparr>sys_q = q, sys_acts = A\<rparr>" and res: "Enqueue_reserve now q cp = (q', True)"
  shows "sys_inv \<lparr>sys_q = q', sys_acts = add_mset (EnqReserved cp) A\<rparr>"
  using assms(1) reserve_frame' [OF res]
  by (auto simp: sys_defs)

lemma sys_inv_same:
  assumes "sys_inv \<lparr>sys_q = q, sys_acts = A\<rparr>"
    and "q_pending q' = q_pending q" "q_ch q' = q_ch q" "q_tenantOrder q' = q_tenantOrder q"
    and "q_inQueue q' = q_inQueue q" "q_inFlight q' = q_inFlight q"
    and "(\<Sum>a \<in># A'. enq_of a) = (\<Sum>a \<in># A. enq_of a)" "(\<Sum>a \<in># A'. run_of a) = (\<Sum>a \<in># A. run_of a)"
  shows "sys_inv \<lparr>sys_q = q', sys_acts = A'\<rparr>"
  using assms by (simp add: sys_defs)

lemma sys_inv_drop:
  assumes "sys_inv \<lparr>sys_q = q, sys_acts = A\<rparr>"
    and "q_pending q' = q_pending q" "q_ch q' = q_ch q" "q_tenantOrder q' = q_tenantOrder q"
    and "q_inQueue q' = q_inQueue q - {mkey cp}" "q_inFlight q' = q_inFlight q"
    and "(\<Sum>a \<in># A. enq_of a) = add_mset cp (\<Sum>a \<in># A'. enq_of a)" "(\<Sum>a \<in># A'. run_of a) = (\<Sum>a \<in># A. run_of a)"
  shows "sys_inv \<lparr>sys_q = q', sys_acts = A'\<rparr>"
proof -
  have "add_mset (mkey cp) (queued_keys \<lparr>sys_q = q', sys_acts = A'\<rparr>) = mset_set (q_inQueue q)"
    using assms by (simp add: sys_defs)
  from mset_set_remove [OF _ this] show ?thesis using assms by (auto simp: sys_defs)
qed

lemma sys_inv_commit:
  assumes "sys_inv \<lparr>sys_q = q, sys_acts = add_mset (Finishing m failed) A\<rparr>"
    and "(\<Sum>a \<in># A'. enq_of a) = (\<Sum>a \<in># A. enq_of a)" "(\<Sum>a \<in># A'. run_of a) = (\<Sum>a \<in># A. run_of a)"
  shows "sys_inv \<lparr>sys_q = finish_commit now q m failed, sys_acts = A'\<rparr>"
proof -
  have "add_mset (mkey m) (flight_keys \<lparr>sys_q = finish_commit now q m failed, sys_acts = A'\<rparr>) = mset_set (q_inFlight q)"
    using assms by (simp add: sys_defs)
  from mset_set_remove [OF _ this] show ?thesis using assms by (auto simp: sys_defs)
qed

lemma sys_inv_dispatch:
  assumes "sys_inv \<lparr>sys_q = q, sys_acts = A\<rparr>" and "popEligibleLocked clks q = (q', Some m, had)"
  shows "sys_inv \<lparr>sys_q = q', sys_acts = add_mset (Handling m) A\<rparr>"
proof -
  have "popped q q' (Some m)"
    using popEligible_popped [OF _ assms(2)] assms(1) by (simp add: sys_inv_def)
  then have pop: "q_wf q'" "add_mset m (q_msgs q') = q_msgs q" "q_inQueue q' = q_inQueue q - {mkey m}"
    "q_inFlight q' = insert (mkey m) (q_inFlight q)"
    by (simp_all add: popped_def)
  have "add_mset (mkey m) (queued_keys \<lparr>sys_q = q', sys_acts = A\<rparr>) = mset_set (q_inQueue q)"
    using assms(1) unfolding sys_inv_def queued_keys_def by (simp flip: pop(2))
  note rest = mset_set_remove [OF _ this]
  have "mkey m \<notin> q_inFlight q" using rest(2) assms(1) by (auto simp: sys_inv_def)
  then show ?thesis
    using assms(1) pop rest by (auto simp: sys_inv_def queued_keys_def flight_keys_def)
qed

lemma q_step_inv: "q_step s s' \<Longrightarrow> sys_inv s \<Longrightarrow> sys_inv s'"
proof (induction rule: q_step.induct)
  case (enq_duplicate now q m q' A)
  then show ?case using reserve_frame' [OF enq_duplicate(1)] by (intro sys_inv_same [OF enq_duplicate(2)]) auto
next
  case (enq_reserve now q m q' A)
  then show ?case using sys_inv_reserve by blast
next
  case (enq_admit clk q cp q' A)
  then show ?case using admit_frame [OF enq_admit(1)] by (intro sys_inv_same [OF enq_admit(2)]) auto
next
  case (enq_reject clk q cp q' err A)
  then show ?case using admit_frame [OF enq_reject(1)] by (intro sys_inv_drop [OF enq_reject(2)]) auto
next
  case (enq_send q cp A)
  then show ?case by (simp add: sys_defs Enqueue_send_def)
next
  case (enq_cancel q cp A)
  then show ?case by (intro sys_inv_drop [OF enq_cancel]) (auto simp: drop_key_def)
next
  case (enq_rollback q cp A)
  then show ?case by (intro sys_inv_same [OF enq_rollback]) auto
next
  case (ingress_batch n q A)
  then have "q_wf q" by (simp add: sys_inv_def)
  from ingress_msgs [OF this] ingress_batch(3) show ?case
    by (simp add: sys_inv_def queued_keys_def flight_keys_def)
next
  case (dispatch clks q q' m had A)
  then show ?case using sys_inv_dispatch by blast
next
  case (dispatch_nothing clks q q' had A)
  then have "popped q q' None" using popEligible_popped [OF _ dispatch_nothing(1)] by (simp add: sys_inv_def)
  then show ?case using dispatch_nothing(2) by (simp add: popped_def sys_inv_def queued_keys_def flight_keys_def)
next
  case (account q m A clk failed)
  then show ?case by (intro sys_inv_same [OF account]) auto
next
  case (commit q m failed A now)
  then show ?case by (intro sys_inv_commit [OF commit(2)]) auto
next
  case (commit_retry q m failed r delay A now)
  then show ?case by (intro sys_inv_commit [OF commit_retry(2)]) auto
next
  case (retry_stopped q r A)
  then show ?case by (intro sys_inv_same [OF retry_stopped]) auto
next
  case (retry_duplicate now q r q' A)
  then show ?case using reserve_frame' [OF retry_duplicate(1)] by (intro sys_inv_same [OF retry_duplicate(2)]) auto
next
  case (retry_reserve now q r q' A)
  have "sys_inv \<lparr>sys_q = q, sys_acts = A\<rparr>"
    by (rule sys_inv_same [OF retry_reserve(2)]) auto
  then show ?case using retry_reserve(1) by (rule sys_inv_reserve)
qed (auto simp: sys_defs)

lemma q_initial_inv: "sys_inv (q_initial cfg)"
  by (simp add: sys_defs q_initial_def NewMemoryQueueWithConfig_def Let_def)

lemma reachable_inv: "q_step\<^sup>*\<^sup>* (q_initial cfg) s \<Longrightarrow> sys_inv s"
  by (induction rule: rtranclp_induct) (auto simp: q_initial_inv q_step_inv)

end
