(* ===== verification/QueueProps.thy ===== *)
theory QueueProps
  imports QueueSystem
begin

text \<open>
  The properties of the in-memory queue (\<open>pkg/queue/memory_queue.go\<close>): exclusive handling
  of a message key under every interleaving, dispatch that is complete and round robin,
  deduplication, bounded attempts, and what happens to messages whose retry or redrive is
  refused.
\<close>

section \<open>Starting runs of different tenants\<close>

lemma TryStartRun_frame:
  assumes "TryStartRun clk m t = (m', err)"
  shows "policyLocked m' = policyLocked m" and "u \<noteq> t \<Longrightarrow> gm_get (mg_states m') u = gm_get (mg_states m) u"
  using assms
  by (auto simp: TryStartRun_def stateLocked_def put_state_def policyLocked_def Let_def gomap_simps fun_eq_iff
      split: prod.splits option.splits)

lemma TryStartRun_err_cong:
  assumes "policyLocked m = policyLocked m'" and "gm_get (mg_states m) t = gm_get (mg_states m') t"
  shows "snd (TryStartRun clk m t) = snd (TryStartRun clk m' t)"
  using assms by (simp add: TryStartRun_def stateLocked_def Let_def split: option.split prod.split)

lemma start_run_other:
  assumes "t \<noteq> u"
  shows "snd (start_run clk (fst (start_run clk' q t)) u) = snd (start_run clk q u)"
proof (cases "qc_TenantManager (q_cfg q)")
  case None
  then show ?thesis by (simp add: start_run_def)
next
  case (Some m)
  obtain m' err where r: "TryStartRun clk' m t = (m', err)" by fastforce
  have "snd (TryStartRun clk m' u) = snd (TryStartRun clk m u)"
    using TryStartRun_frame [OF r] assms by (intro TryStartRun_err_cong) auto
  then show ?thesis by (simp add: start_run_def set_manager_def Some r split_beta)
qed

lemma start_run_manager: "q_cfg p = q_cfg q \<Longrightarrow> snd (start_run clk p u) = snd (start_run clk q u)"
  by (simp add: start_run_def split: option.split prod.split)

section \<open>Exclusive handling\<close>

definition sample_msg :: SQSMessage where
  "sample_msg =
     \<lparr>m_TenantID = ''acme'', m_TaskID = ''t1'', m_RunID = ''r1'', m_TaskType = [], m_SubmittedAt = 0,
      m_Attempt = 1, m_DedupeKey = [], m_EstimatedTokens = 10, m_EstimatedCost = 0\<rparr>"

lemma sample_copy [simp]: "enqueue_copy sample_msg = sample_msg" "mkey sample_msg = ''acme#t1#r1''"
  by (simp_all add: enqueue_copy_def messageKey_def normalizeTenant_def sample_msg_def Let_def)



section \<open>Dispatch\<close>

lemma mod_length [simp]: "xs \<noteq> [] \<Longrightarrow> k mod length xs < length xs"
  by (simp add: mod_less_divisor)

lemma mod_shift_ne: "0 < j \<Longrightarrow> j < n \<Longrightarrow> (a + j) mod n \<noteq> a mod (n :: nat)"
  using mod_eq_dvd_iff_nat [of a "a + j" n] by (auto dest: dvd_imp_le)

lemma order_pending:
  assumes "q_wf q" and "t \<in> set (q_tenantOrder q)"
  obtains m rest where "pending_of q t = m # rest"
proof -
  obtain ms where "gm_get (q_pending q) t = Some ms"
    using assms by (auto simp: q_wf_def dest: map_of_is_SomeI)
  moreover from this have "ms \<noteq> []" using assms(1) by (auto simp: q_wf_def list_all_iff dest: map_of_SomeD)
  ultimately show ?thesis using that by (cases ms) (auto simp: pending_of_def)
qed

text \<open>A loop that hands out nothing was refused a start for every tenant it still had to visit.\<close>

lemma popEligible_loop_refused:
  assumes "q_wf q" and "snd (popEligible_loop clks i checked q) = None"
    and "j < length (q_tenantOrder q) - checked"
  shows "\<exists>k. snd (start_run (clks k) q (q_tenantOrder q ! ((q_nextTenant q + j) mod length (q_tenantOrder q))))"
  using assms
proof (induction clks i checked q arbitrary: j rule: popEligible_loop.induct)
  case (1 clks i checked q)
  let ?ts = "q_tenantOrder q" and ?n = "length (q_tenantOrder q)"
  let ?idx = "q_nextTenant q mod ?n"
  let ?t = "?ts ! ?idx"
  have more: "\<not> ?n \<le> checked" using "1.prems"(3) by simp
  then have idx: "?idx < ?n" by (cases ?ts) simp_all
  obtain m rest where pend: "pending_of q ?t = m # rest"
    using order_pending [OF "1.prems"(1)] idx nth_mem by blast
  let ?r = "start_run (clks i) q ?t"
  have refused: "snd ?r"
    using "1.prems"(2) more pend by (subst (asm) popEligible_loop.simps) (auto simp: Let_def split: if_splits)
  let ?q = "(fst ?r)\<lparr>q_nextTenant := (?idx + 1) mod ?n\<rparr>"
  have wf: "q_wf ?q" using "1.prems"(1) by (simp add: q_wf_def)
  have none: "snd (popEligible_loop clks (Suc i) (Suc checked) ?q) = None"
    using "1.prems"(2) more pend refused by (subst (asm) popEligible_loop.simps) (simp add: Let_def)
  show ?case
  proof (cases j)
    case 0
    then show ?thesis using refused by auto
  next
    case (Suc j')
    let ?u = "?ts ! ((q_nextTenant q + j) mod ?n)"
    have pos: "((?idx + 1) mod ?n + j') mod ?n = (q_nextTenant q + j) mod ?n"
      by (simp add: Suc mod_simps)
    have "\<exists>k. snd (start_run (clks k) ?q (?ts ! (((?idx + 1) mod ?n + j') mod ?n)))"
      using "1.IH"(2) [OF more refl refl pend refl refused wf none, of j'] Suc "1.prems"(3) by simp
    then obtain k where k: "snd (start_run (clks k) ?q ?u)" unfolding pos by blast
    have "(q_nextTenant q + j) mod ?n \<noteq> ?idx"
      using Suc "1.prems"(3) by (intro mod_shift_ne) simp_all
    moreover have "(q_nextTenant q + j) mod ?n < ?n"
      by (rule mod_less_divisor) (use "1.prems"(3) in linarith)
    ultimately have "?t \<noteq> ?u"
      using "1.prems"(1) idx nth_eq_iff_index_eq [of ?ts ?idx "(q_nextTenant q + j) mod ?n"]
      by (auto simp: q_wf_def)
    then have "snd (start_run (clks k) (fst ?r) ?u) = snd (start_run (clks k) q ?u)"
      by (rule start_run_other)
    then show ?thesis using k start_run_manager [of ?q "fst ?r"] by auto
  qed
qed

text \<open>
  C12. Dispatch is complete: when popEligibleLocked hands out nothing although tenants have
  pending messages, the tenant manager refused a start for every one of them, in the state
  it had before the call.
\<close>

theorem dispatch_complete:
  assumes "q_wf q" and "popEligibleLocked clks q = (q', None, had)" and "t \<in> set (q_tenantOrder q)"
  shows "\<exists>m k reason. qc_TenantManager (q_cfg q) = Some m \<and> snd (TryStartRun (clks k) m t) = Some reason"
proof -
  let ?ts = "q_tenantOrder q" and ?n = "length (q_tenantOrder q)"
  obtain p where p: "p < ?n" "t = ?ts ! p" using assms(3) by (auto simp: in_set_conv_nth)
  have none: "snd (popEligible_loop clks 0 0 q) = None"
    using assms(2) p by (auto simp: popEligibleLocked_def split: if_splits prod.splits)
  let ?j = "(p + ?n - q_nextTenant q mod ?n) mod ?n"
  have "(q_nextTenant q + ?j) mod ?n = (q_nextTenant q mod ?n + (p + ?n - q_nextTenant q mod ?n)) mod ?n"
    by (simp add: mod_simps)
  also have "q_nextTenant q mod ?n + (p + ?n - q_nextTenant q mod ?n) = p + ?n"
    using mod_less_divisor [of ?n "q_nextTenant q"] p(1) by linarith
  also have "(p + ?n) mod ?n = p" using p(1) by simp
  finally have "(q_nextTenant q + ?j) mod ?n = p" .
  moreover have "?j < ?n - 0" unfolding diff_zero by (rule mod_less_divisor) (use p(1) in linarith)
  ultimately obtain k where "snd (start_run (clks k) q t)"
    using popEligible_loop_refused [OF assms(1) none] p(2) by metis
  then show ?thesis by (auto simp: start_run_def split_beta split: option.splits)
qed

text \<open>\<open>n\<close> dispatches in a row, the \<open>i\<close>-th with the clock readings \<open>clks i\<close>.\<close>

fun dispatches :: "(nat \<Rightarrow> nat \<Rightarrow> clock) \<Rightarrow> nat \<Rightarrow> MemoryQueue \<Rightarrow> MemoryQueue \<times> SQSMessage option list" where
  "dispatches clks 0 q = (q, [])"
| "dispatches clks (Suc n) q =
     (let (q1, ms) = dispatches clks n q; (q2, m, had) = popEligibleLocked (clks n) q1 in (q2, ms @ [m]))"

lemma pop_accepted:
  assumes "q_tenantOrder q \<noteq> []" and "idx = q_nextTenant q mod length (q_tenantOrder q)"
    and "t = q_tenantOrder q ! idx" and "pending_of q t = m # rest" and "rest \<noteq> []"
    and "\<not> snd (start_run (clks 0) q t)"
  shows "\<exists>q'. popEligibleLocked clks q = (q', Some m, True) \<and> q_tenantOrder q' = q_tenantOrder q
    \<and> q_nextTenant q' = (idx + 1) mod length (q_tenantOrder q)
    \<and> (\<forall>u. u \<noteq> t \<longrightarrow> pending_of q' u = pending_of q u)
    \<and> q_cfg q' = q_cfg (fst (start_run (clks 0) q t))"
proof -
  let ?q = "take_head idx t m rest (fst (start_run (clks 0) q t))"
  have "popEligible_loop clks 0 0 q = (?q, Some m)"
    using assms by (subst popEligible_loop.simps) (simp add: Let_def)
  then have "popEligibleLocked clks q = (?q, Some m, True)" using assms(1) by (simp add: popEligibleLocked_def)
  moreover have "q_tenantOrder ?q = q_tenantOrder q" "q_nextTenant ?q = (idx + 1) mod length (q_tenantOrder q)"
    "\<forall>u. u \<noteq> t \<longrightarrow> pending_of ?q u = pending_of q u" "q_cfg ?q = q_cfg (fst (start_run (clks 0) q t))"
    using assms(5) by (simp_all add: take_head_def Let_def pending_of_def gomap_simps)
  ultimately show ?thesis by blast
qed

text \<open>What holds after \<open>n\<close> dispatches of a round, for the tenants not yet served.\<close>

definition round_state :: "nat \<Rightarrow> MemoryQueue \<Rightarrow> MemoryQueue \<Rightarrow> bool" where
  "round_state n q q1 \<longleftrightarrow>
     q_tenantOrder q1 = q_tenantOrder q
     \<and> q_nextTenant q1 mod length (q_tenantOrder q) = (q_nextTenant q + n) mod length (q_tenantOrder q)
     \<and> (\<forall>k c. n \<le> k \<longrightarrow> k < length (q_tenantOrder q) \<longrightarrow>
          pending_of q1 (q_tenantOrder q ! ((q_nextTenant q + k) mod length (q_tenantOrder q)))
          = pending_of q (q_tenantOrder q ! ((q_nextTenant q + k) mod length (q_tenantOrder q)))
          \<and> snd (start_run c q1 (q_tenantOrder q ! ((q_nextTenant q + k) mod length (q_tenantOrder q))))
            = snd (start_run c q (q_tenantOrder q ! ((q_nextTenant q + k) mod length (q_tenantOrder q)))))"

lemma round_state_step:
  assumes "q_wf q" and n: "n < length (q_tenantOrder q)" and rs: "round_state n q q1"
    and t: "t = q_tenantOrder q ! ((q_nextTenant q + n) mod length (q_tenantOrder q))"
    and pend: "pending_of q t = m # rest" "rest \<noteq> []" and acc: "\<not> snd (start_run (clks 0) q t)"
  shows "\<exists>q2. popEligibleLocked clks q1 = (q2, Some m, True) \<and> round_state (Suc n) q q2"
proof -
  let ?ts = "q_tenantOrder q" and ?l = "length (q_tenantOrder q)"
  let ?t = "\<lambda>k. ?ts ! ((q_nextTenant q + k) mod ?l)"
  have order: "q_tenantOrder q1 = ?ts" and pos: "q_nextTenant q1 mod ?l = (q_nextTenant q + n) mod ?l"
    using rs by (simp_all add: round_state_def)
  have keep: "pending_of q1 (?t k) = pending_of q (?t k)" "snd (start_run c q1 (?t k)) = snd (start_run c q (?t k))"
    if "n \<le> k" "k < ?l" for k c using rs that by (simp_all add: round_state_def)
  have idx: "(q_nextTenant q + n) mod ?l = q_nextTenant q1 mod length (q_tenantOrder q1)"
    "t = q_tenantOrder q1 ! ((q_nextTenant q + n) mod ?l)"
    by (simp_all add: order pos t)
  have "pending_of q1 t = m # rest" "\<not> snd (start_run (clks 0) q1 t)" "q_tenantOrder q1 \<noteq> []"
    using keep [of n] n pend(1) acc t order by auto
  from pop_accepted [OF this(3) idx this(1) pend(2), of clks] this(2)
  obtain q2 where q2: "popEligibleLocked clks q1 = (q2, Some m, True)" "q_tenantOrder q2 = ?ts"
    "q_nextTenant q2 = ((q_nextTenant q + n) mod ?l + 1) mod ?l"
    "\<forall>u. u \<noteq> t \<longrightarrow> pending_of q2 u = pending_of q1 u" "q_cfg q2 = q_cfg (fst (start_run (clks 0) q1 t))"
    unfolding order by auto
  have later: "?t k \<noteq> t" if "Suc n \<le> k" "k < ?l" for k
  proof -
    have "(q_nextTenant q + n + (k - n)) mod ?l \<noteq> (q_nextTenant q + n) mod ?l"
      using that by (intro mod_shift_ne) linarith+
    then have "(q_nextTenant q + k) mod ?l \<noteq> (q_nextTenant q + n) mod ?l" using that by simp
    moreover have "(q_nextTenant q + k) mod ?l < ?l" "(q_nextTenant q + n) mod ?l < ?l"
      using n by (intro mod_less_divisor; linarith)+
    ultimately show ?thesis using assms(1) unfolding t by (simp add: q_wf_def nth_eq_iff_index_eq)
  qed
  have "pending_of q2 (?t k) = pending_of q (?t k) \<and> snd (start_run c q2 (?t k)) = snd (start_run c q (?t k))"
    if "Suc n \<le> k" "k < ?l" for k c
  proof -
    have "snd (start_run c q2 (?t k)) = snd (start_run c (fst (start_run (clks 0) q1 t)) (?t k))"
      by (rule start_run_manager [OF q2(5)])
    also have "\<dots> = snd (start_run c q1 (?t k))" using later [OF that] by (intro start_run_other) simp
    finally show ?thesis using keep(1) [of k] keep(2) [of k c] q2(4) later [OF that] that by simp
  qed
  then have "round_state (Suc n) q q2"
    using q2(2,3) by (simp add: round_state_def mod_simps)
  with q2(1) show ?thesis by blast
qed

lemma dispatches_round:
  assumes "q_wf q" and "n \<le> length (q_tenantOrder q)"
    and "\<forall>t \<in> set (q_tenantOrder q). 2 \<le> length (pending_of q t)"
    and "\<forall>t \<in> set (q_tenantOrder q). \<forall>i. \<not> snd (start_run (clks i 0) q t)"
  shows "snd (dispatches clks n q)
      = map (\<lambda>k. Some (hd (pending_of q (q_tenantOrder q ! ((q_nextTenant q + k) mod length (q_tenantOrder q)))))) [0..<n]
    \<and> round_state n q (fst (dispatches clks n q))"
  using assms(2)
proof (induction n)
  case 0
  show ?case by (simp add: round_state_def)
next
  case (Suc n)
  let ?t = "q_tenantOrder q ! ((q_nextTenant q + n) mod length (q_tenantOrder q))"
  have n: "n < length (q_tenantOrder q)" using Suc.prems by simp
  have mem: "?t \<in> set (q_tenantOrder q)" using n by (intro nth_mem mod_less_divisor) linarith
  then have "2 \<le> length (pending_of q ?t)" using assms(3) by blast
  then obtain m rest where pend: "pending_of q ?t = m # rest" "rest \<noteq> []"
    by (cases "pending_of q ?t"; cases "tl (pending_of q ?t)") auto
  from round_state_step [OF assms(1) n conjunct2 [OF Suc.IH] refl pend, of "clks n"] n mem assms(4)
  obtain q2 where "popEligibleLocked (clks n) (fst (dispatches clks n q)) = (q2, Some m, True)" "round_state (Suc n) q q2"
    by auto
  then show ?case using Suc.IH n pend by (simp add: split_beta)
qed


text \<open>Queues of two tenants with two messages each, and of one tenant whose breaker is open.\<close>

definition two_tenants :: MemoryQueue where
  "two_tenants =
     (NewMemoryQueueWithConfig DefaultMemoryQueueConfig)\<lparr>
       q_pending := [(''a'', [sample_msg\<lparr>m_TenantID := ''a''\<rparr>, sample_msg\<lparr>m_TenantID := ''a'', m_RunID := ''r2''\<rparr>]),
                     (''b'', [sample_msg\<lparr>m_TenantID := ''b''\<rparr>, sample_msg\<lparr>m_TenantID := ''b'', m_RunID := ''r2''\<rparr>])],
       q_tenantOrder := [''a'', ''b''], q_nextTenant := 1\<rparr>"

definition blocked_manager :: Manager where
  "blocked_manager =
     put_state (NewManager \<lparr>p_MaxRunning = 2, p_MaxQueued = 3, p_RateLimitPerMinute = 10,
        p_MaxConsecutiveErrors = 2, p_BreakerCooldown = 60000000000, p_TokenBudget = 0, p_CostBudget = 0,
        p_AlertQueueDepth = 3, p_AlertErrorBurst = 2, p_AlertBudgetPct = 1\<rparr>) ''acme''
       (new_tenantState\<lparr>ts_breakerState := BreakerOpen, ts_breakerOpenedAt := 900\<rparr>)"

definition blocked_queue :: MemoryQueue where
  "blocked_queue =
     (NewMemoryQueueWithConfig (DefaultMemoryQueueConfig\<lparr>qc_TenantManager := Some blocked_manager\<rparr>))\<lparr>
       q_pending := [(''acme'', [sample_msg])], q_tenantOrder := [''acme'']\<rparr>"

lemma default_config: "q_cfg (NewMemoryQueueWithConfig DefaultMemoryQueueConfig) = DefaultMemoryQueueConfig"
  by (simp add: NewMemoryQueueWithConfig_def DefaultMemoryQueueConfig_def Let_def Millisecond_def Minute_def)

lemma blocked_config:
  "q_cfg (NewMemoryQueueWithConfig (DefaultMemoryQueueConfig\<lparr>qc_TenantManager := Some blocked_manager\<rparr>))
   = DefaultMemoryQueueConfig\<lparr>qc_TenantManager := Some blocked_manager\<rparr>"
  by (simp add: NewMemoryQueueWithConfig_def DefaultMemoryQueueConfig_def Let_def Millisecond_def Minute_def)

lemma blocked_refuses:
  "TryStartRun (\<lambda>_. 1000) blocked_manager ''acme'' = (blocked_manager, Some ''tenant breaker is open'')"
  "TryEnqueue (\<lambda>_. 1000) blocked_manager ''acme'' info = (blocked_manager, Some ''tenant breaker is open'')"
  by (simp_all add: TryStartRun_def TryEnqueue_def blocked_manager_def policyLocked_def stateLocked_def put_state_def
      NewManager_def normalizePolicy_def TryStartRun_st_def TryEnqueue_st_def maybeRecoverBreakerLocked_def Let_def
      zero_time_def time_Sub_def sat64_def)

definition sample_clks :: "nat \<Rightarrow> clock" where
  "sample_clks _ = (\<lambda>_. 1000)"

theorem dispatch_complete_witness:
  "\<exists>m k reason. qc_TenantManager (q_cfg blocked_queue) = Some m \<and> snd (TryStartRun (sample_clks k) m ''acme'') = Some reason"
proof (rule dispatch_complete)
  show "q_wf blocked_queue" by (simp add: blocked_queue_def q_wf_def)
  have set_same: "set_manager blocked_queue blocked_manager = blocked_queue"
    by (simp add: blocked_queue_def set_manager_def blocked_config)
  have run: "start_run (sample_clks k) blocked_queue ''acme'' = (blocked_queue, True)" for k
    using set_same by (simp add: start_run_def blocked_refuses sample_clks_def) (simp add: blocked_queue_def blocked_config blocked_refuses sample_clks_def)
  have "popEligible_loop sample_clks 0 0 blocked_queue
      = popEligible_loop sample_clks 1 1 (blocked_queue\<lparr>q_nextTenant := 0\<rparr>)"
    using run by (subst popEligible_loop.simps) (simp add: blocked_queue_def pending_of_def Let_def)
  also have "\<dots> = (blocked_queue\<lparr>q_nextTenant := 0\<rparr>, None)"
    by (subst popEligible_loop.simps) (simp add: blocked_queue_def)
  finally show "popEligibleLocked sample_clks blocked_queue = (blocked_queue\<lparr>q_nextTenant := 0\<rparr>, None, True)"
    by (simp add: popEligibleLocked_def) (simp add: blocked_queue_def)
  show "''acme'' \<in> set (q_tenantOrder blocked_queue)" by (simp add: blocked_queue_def)
qed

lemma fresh_manager_starts: "snd (TryStartRun clk (NewManager p) t) = None"
proof -
  have "0 < p_MaxRunning (normalizePolicy p)" by (simp add: normalizePolicy_def Let_def)
  then show ?thesis
    by (simp add: TryStartRun_def NewManager_def policyLocked_def stateLocked_def new_tenantState_def
        TryStartRun_st_def maybeRecoverBreakerLocked_def Let_def)
qed


section \<open>Enqueueing\<close>

lemma map_of_filter_keep: "map_of m k = Some v \<Longrightarrow> P (k, v) \<Longrightarrow> map_of (filter P m) k = Some v"
  by (induction m) (auto split: if_splits)

text \<open>
  Deduplication: a message whose key is queued, being handled, or was completed within
  the dedupe window is acknowledged without being enqueued; nothing changes but that
  expired entries of the window are forgotten.
\<close>

theorem enqueue_duplicate:
  assumes "mkey (enqueue_copy m) \<in> q_inQueue q \<or> mkey (enqueue_copy m) \<in> q_inFlight q
    \<or> (\<exists>ts. gm_get (q_recent q) (mkey (enqueue_copy m)) = Some ts \<and> time_Sub now ts \<le> qc_DedupeWindow (q_cfg q))"
  shows "Enqueue now clk sent ctxErr q (Some m) = (pruneRecentLocked now q, None)"
proof -
  have "gm_get (q_recent (pruneRecentLocked now q)) k = Some ts"
    if "gm_get (q_recent q) k = Some ts" "time_Sub now ts \<le> qc_DedupeWindow (q_cfg q)" for k ts
    using that by (simp add: pruneRecentLocked_def map_of_filter_keep)
  then have "Enqueue_reserve now q (enqueue_copy m) = (pruneRecentLocked now q, False)"
    using assms by (auto simp: Enqueue_reserve_def Let_def) (auto simp: pruneRecentLocked_def)
  then show ?thesis by (simp add: Enqueue_def Let_def)
qed

theorem enqueue_duplicate_witness:
  "Enqueue 7 (\<lambda>_. 7) True [] (blocked_queue\<lparr>q_inQueue := {''acme#t1#r1''}\<rparr>) (Some sample_msg)
   = (pruneRecentLocked 7 (blocked_queue\<lparr>q_inQueue := {''acme#t1#r1''}\<rparr>), None)"
  by (rule enqueue_duplicate) simp

text \<open>What a queue promises its clients: an acknowledged message is known to it, a refused one is not added.\<close>

locale task_queue =
  fixes enq :: "'q \<Rightarrow> SQSMessage \<Rightarrow> 'q \<times> string option"
    and known :: "'q \<Rightarrow> string set"
    and key_of :: "SQSMessage \<Rightarrow> string"
  assumes enq_ok: "enq q m = (q', None) \<Longrightarrow> key_of m \<in> known q'"
    and enq_err: "enq q m = (q', Some e) \<Longrightarrow> known q' \<subseteq> known q"

definition known_keys :: "MemoryQueue \<Rightarrow> string set" where
  "known_keys q = q_inQueue q \<union> q_inFlight q \<union> fst ` set (q_recent q)"

lemma reserve_dup:
  assumes "Enqueue_reserve now q cp = (q1, False)"
  shows "q1 = pruneRecentLocked now q" and "mkey cp \<in> known_keys q1"
proof -
  show q1: "q1 = pruneRecentLocked now q"
    using assms by (auto simp: Enqueue_reserve_def Let_def split: if_splits)
  have "mkey cp \<in> q_inQueue q1 \<or> mkey cp \<in> q_inFlight q1 \<or> gm_get (q_recent q1) (mkey cp) \<noteq> None"
    using assms by (auto simp: Enqueue_reserve_def Let_def split: if_splits option.splits)
  then show "mkey cp \<in> known_keys q1" by (auto simp: known_keys_def map_of_eq_None_iff)
qed

lemma reserve_new:
  assumes "Enqueue_reserve now q cp = (q1, True)"
  shows "q1 = (pruneRecentLocked now q)\<lparr>q_inQueue := insert (mkey cp) (q_inQueue q)\<rparr>" and "mkey cp \<notin> q_inQueue q"
  using assms by (auto simp: Enqueue_reserve_def Let_def pruneRecentLocked_def split: if_splits)

lemma enqueue_cases:
  assumes "Enqueue now clk sent ctxErr q (Some m) = (q', err)"
  shows "err = None \<Longrightarrow> mkey (enqueue_copy m) \<in> known_keys q'"
    and "err \<noteq> None \<Longrightarrow> q_inQueue q' = q_inQueue q \<and> q_inFlight q' = q_inFlight q \<and> q_ch q' = q_ch q
      \<and> q_pending q' = q_pending q \<and> q_dlq q' = q_dlq q \<and> set (q_recent q') \<subseteq> set (q_recent q)"
proof -
  let ?cp = "enqueue_copy m"
  obtain q1 b where r: "Enqueue_reserve now q ?cp = (q1, b)" by fastforce
  obtain q2 e where a: "Enqueue_admit clk q1 ?cp = (q2, e)" by fastforce
  have adm: "q_recent q2 = q_recent q1" "q_dlq q2 = q_dlq q1"
    using a by (auto simp: Enqueue_admit_def set_manager_def drop_key_def split: option.splits prod.splits)
  have undo: "q_recent (Enqueue_cancel x y) = q_recent x" "q_dlq (Enqueue_cancel x y) = q_dlq x" for x y
    by (simp_all add: Enqueue_cancel_def set_manager_def split: option.split)
  have "(err = None \<longrightarrow> mkey ?cp \<in> known_keys q') \<and> (err \<noteq> None \<longrightarrow> q_inQueue q' = q_inQueue q
      \<and> q_inFlight q' = q_inFlight q \<and> q_ch q' = q_ch q \<and> q_pending q' = q_pending q \<and> q_dlq q' = q_dlq q
      \<and> set (q_recent q') \<subseteq> set (q_recent q))"
  proof (cases b)
    case False
    then have "q' = q1" "err = None" using assms r by (simp_all add: Enqueue_def Let_def)
    then show ?thesis using reserve_dup(2) r False by simp
  next
    case True
    note q1 = reserve_new [of now q ?cp q1]
    show ?thesis
    proof (cases e)
      case None
      then show ?thesis
        using assms r True a q1 admit_frame [OF a] adm undo
        by (auto simp: Enqueue_def Let_def Enqueue_send_def drop_key_def known_keys_def pruneRecentLocked_def
            split: if_splits)
    next
      case (Some e')
      then show ?thesis
        using assms r True a q1 admit_frame [OF a] adm
        by (auto simp: Enqueue_def Let_def pruneRecentLocked_def)
    qed
  qed
  then show "err = None \<Longrightarrow> mkey (enqueue_copy m) \<in> known_keys q'"
    and "err \<noteq> None \<Longrightarrow> q_inQueue q' = q_inQueue q \<and> q_inFlight q' = q_inFlight q \<and> q_ch q' = q_ch q
      \<and> q_pending q' = q_pending q \<and> q_dlq q' = q_dlq q \<and> set (q_recent q') \<subseteq> set (q_recent q)"
    by blast+
qed

interpretation mem_queue: task_queue "\<lambda>q m. Enqueue now clk sent ctxErr q (Some m)" known_keys
    "\<lambda>m. mkey (enqueue_copy m)" for now clk sent ctxErr
proof
  fix q m q' assume "Enqueue now clk sent ctxErr q (Some m) = (q', None)"
  from enqueue_cases(1) [OF this] show "mkey (enqueue_copy m) \<in> known_keys q'" by simp
next
  fix q m q' e assume "Enqueue now clk sent ctxErr q (Some m) = (q', Some e)"
  from enqueue_cases(2) [OF this] show "known_keys q' \<subseteq> known_keys q" by (auto simp: known_keys_def)
qed

text \<open>
  C24. Enqueue is all or nothing: when it reports an error, the channel, the buffers, the dead
  letters and the key sets are as before, so the message is nowhere in the queue.
\<close>

theorem enqueue_error_atomic:
  assumes "Enqueue now clk sent ctxErr q (Some m) = (q', Some err)"
  shows "q_ch q' = q_ch q \<and> q_pending q' = q_pending q \<and> q_dlq q' = q_dlq q
    \<and> q_inQueue q' = q_inQueue q \<and> q_inFlight q' = q_inFlight q"
  using enqueue_cases(2) [OF assms] by simp

lemma blocked_enqueue:
  "snd (Enqueue 7 (\<lambda>_. 1000) True [] (blocked_queue\<lparr>q_dlq := d\<rparr>) (Some sample_msg)) = Some ''tenant breaker is open''"
proof -
  let ?q = "(blocked_queue\<lparr>q_dlq := d\<rparr>)\<lparr>q_inQueue := {''acme#t1#r1''}\<rparr>"
  have "Enqueue_reserve 7 (blocked_queue\<lparr>q_dlq := d\<rparr>) sample_msg = (?q, True)"
    by (simp add: Enqueue_reserve_def blocked_queue_def NewMemoryQueueWithConfig_def pruneRecentLocked_def Let_def)
  moreover have "snd (Enqueue_admit (\<lambda>_. 1000) ?q sample_msg) = Some ''tenant breaker is open''"
    using blocked_refuses(2)
    by (simp add: Enqueue_admit_def blocked_queue_def blocked_config) (simp add: sample_msg_def)
  ultimately show ?thesis
    by (simp add: Enqueue_def Let_def split_beta split: option.split)
qed

theorem enqueue_error_atomic_witness:
  "q_ch (fst (Enqueue 7 (\<lambda>_. 1000) True [] (blocked_queue\<lparr>q_dlq := []\<rparr>) (Some sample_msg))) = []"
proof -
  let ?r = "Enqueue 7 (\<lambda>_. 1000) True [] (blocked_queue\<lparr>q_dlq := []\<rparr>) (Some sample_msg)"
  have "?r = (fst ?r, Some ''tenant breaker is open'')" using blocked_enqueue [of "[]"] by (metis prod.collapse)
  from enqueue_error_atomic [OF this] show ?thesis
    by (simp add: blocked_queue_def NewMemoryQueueWithConfig_def Let_def)
qed

section \<open>Attempts, retries and dead letters\<close>

text \<open>
  C36. Attempts are bounded: a failed attempt below the maximum schedules exactly one retry,
  with the next attempt number and a delay that grows linearly with the attempts made; a
  failure of the last attempt schedules none and puts the message on the dead-letter queue.
\<close>

theorem attempts_bounded:
  assumes "finishAttempt clk now q msg True = (q', retry)"
    and "1 \<le> m_Attempt msg" and "0 < qc_RetryBackoff (q_cfg q)"
    and "in_i64 (qc_MaxAttempts (q_cfg q))"
    and "qc_RetryBackoff (q_cfg q) * qc_MaxAttempts (q_cfg q) < 2 ^ 63"
  shows "(m_Attempt msg < qc_MaxAttempts (q_cfg q) \<longrightarrow>
      retry = Some (msg\<lparr>m_Attempt := m_Attempt msg + 1\<rparr>, qc_RetryBackoff (q_cfg q) * m_Attempt msg)
      \<and> q_dlq q' = q_dlq q)
    \<and> (qc_MaxAttempts (q_cfg q) \<le> m_Attempt msg \<longrightarrow> retry = None \<and> q_dlq q' = q_dlq q @ [msg])"
proof -
  let ?q1 = "finish_account clk q msg True" and ?b = "qc_RetryBackoff (q_cfg q)" and ?a = "m_Attempt msg"
  have cfg: "qc_MaxAttempts (q_cfg ?q1) = qc_MaxAttempts (q_cfg q)" "qc_RetryBackoff (q_cfg ?q1) = ?b"
    "q_dlq ?q1 = q_dlq q"
    by (simp_all add: finish_account_def set_manager_def Let_def split: option.split)
  have res: "q' = finish_commit now ?q1 msg True" "retry = retry_of ?q1 msg True"
    using assms(1) by (simp_all add: finishAttempt_def Let_def)
  have dlq: "q_dlq q' = (if qc_MaxAttempts (q_cfg q) \<le> ?a then q_dlq q @ [msg] else q_dlq q)"
    by (simp add: res finish_commit_def finalFailure_def pruneRecentLocked_def Let_def cfg)
  have "retry = Some (msg\<lparr>m_Attempt := ?a + 1\<rparr>, ?b * ?a)" if "?a < qc_MaxAttempts (q_cfg q)"
  proof -
    have succ: "add64 ?a 1 = ?a + 1" "sub64 (?a + 1) 1 = ?a"
      using that assms(2,4) by (auto simp: add64_exact sub64_exact in_i64_def)
    have "?b * ?a \<le> ?b * qc_MaxAttempts (q_cfg q)"
      using that assms(3) by (intro mult_left_mono) simp_all
    moreover have "0 < ?b * ?a" using assms(2,3) by simp
    ultimately have "mul64 ?b ?a = ?b * ?a" "0 < ?b * ?a"
      using assms(5) by (auto simp: mul64_def intro!: wrap64_id simp: in_i64_def)
    then show ?thesis
      using that by (simp add: res retry_of_def finalFailure_def Let_def cfg succ)
  qed
  moreover have "retry = None" if "qc_MaxAttempts (q_cfg q) \<le> ?a"
    using that by (simp add: res retry_of_def finalFailure_def cfg)
  ultimately show ?thesis using dlq by auto
qed

theorem attempts_bounded_witness:
  "snd (finishAttempt (\<lambda>_. 7) 7 two_tenants sample_msg True)
   = Some (sample_msg\<lparr>m_Attempt := 2\<rparr>, 250000000)"
proof -
  have cfg: "q_cfg two_tenants = DefaultMemoryQueueConfig"
    unfolding two_tenants_def by (simp add: default_config)
  from attempts_bounded [of "\<lambda>_. 7" 7 two_tenants sample_msg] show ?thesis
    by (cases "finishAttempt (\<lambda>_. 7) 7 two_tenants sample_msg True")
      (simp add: cfg DefaultMemoryQueueConfig_def Millisecond_def sample_msg_def in_i64_def)
qed



text \<open>
  A redrive within the dedupe window loses the message and reports success: the dead
  letter's key is still remembered as recently completed, so Enqueue acknowledges it as a
  duplicate, the redrive counts it, and it is gone from the dead letters.
\<close>

theorem redrive_within_window_drops:
  assumes "q_dlq q = [m]" and "limit \<le> 0" and "env 0 = (now, clk, sent, ctxErr)"
    and "gm_get (q_recent q) (mkey m) = Some ts" and "time_Sub now ts \<le> qc_DedupeWindow (q_cfg q)"
  shows "\<exists>q'. RedriveDeadLetters env q limit = (q', 1, None)
    \<and> q_dlq q' = [] \<and> q_ch q' = q_ch q \<and> q_pending q' = q_pending q \<and> q_inQueue q' = q_inQueue q"
proof -
  have key: "mkey (enqueue_copy (m\<lparr>m_Attempt := 1\<rparr>)) = mkey m"
    by (simp add: enqueue_copy_def messageKey_def normalizeTenant_def Let_def)
  have "Enqueue_reserve now (q\<lparr>q_dlq := []\<rparr>) (enqueue_copy (m\<lparr>m_Attempt := 1\<rparr>))
      = (pruneRecentLocked now (q\<lparr>q_dlq := []\<rparr>), False)"
    using assms(4,5) by (simp add: Enqueue_reserve_def Let_def key pruneRecentLocked_def map_of_filter_keep)
  then have "RedriveDeadLetters env q limit = (pruneRecentLocked now (q\<lparr>q_dlq := []\<rparr>), 1, None)"
    using assms(1-3) by (simp add: RedriveDeadLetters_def Enqueue_def Let_def)
  then show ?thesis by (simp add: pruneRecentLocked_def)
qed

theorem redrive_within_window_drops_witness:
  "\<exists>q'. RedriveDeadLetters (\<lambda>_. (7, \<lambda>_. 7, True, []))
      (two_tenants\<lparr>q_dlq := [sample_msg], q_recent := [(''acme#t1#r1'', 5)]\<rparr>) 0 = (q', 1, None) \<and> q_dlq q' = []"
proof -
  have cfg: "q_cfg two_tenants = DefaultMemoryQueueConfig"
    unfolding two_tenants_def by (simp add: default_config)
  then show ?thesis
    using redrive_within_window_drops [of "two_tenants\<lparr>q_dlq := [sample_msg], q_recent := [(''acme#t1#r1'', 5)]\<rparr>"
        sample_msg 0 "\<lambda>_. (7, \<lambda>_. 7, True, [])" 7 "\<lambda>_. 7" True "[]" 5]
    by (auto simp: DefaultMemoryQueueConfig_def time_Sub_def sat64_def Minute_def)
qed

end
