(* ===== verification/PromptPolicy.thy ===== *)
theory PromptPolicy
  imports Model
begin

text \<open>
  The prompt policy of \<open>internal/promptpolicy/policy.go\<close>: the length limit and the deny
  list read from the environment, and the validation of a prompt against them. Task creation
  (\<open>pkg/task\<close>) and the engine (\<open>pkg/engine\<close>) both call it.
\<close>

section \<open>Definitions\<close>

datatype PromptErr = ErrPromptTooLong | ErrPromptDenied

record PromptPolicy =
  pp_MaxChars :: int64
  pp_DenyList :: "string list"

definition EnvMaxChars :: string where
  "EnvMaxChars = ''AGENTFORGE_PROMPT_MAX_CHARS''"

definition EnvDenyList :: string where
  "EnvDenyList = ''AGENTFORGE_PROMPT_DENYLIST''"

definition DefaultMaxChars :: int64 where
  "DefaultMaxChars = 16000"

text \<open>
  The loops over comma-separated settings and model lists: what is left of each part after
  normalisation, empty parts skipped, first occurrences only (\<open>seen\<close> is the Go map).
\<close>

fun add_new :: "string list \<Rightarrow> string list \<Rightarrow> string list" where
  "add_new out [] = out"
| "add_new out (x # xs) =
     (if x = [] then add_new out xs else if x \<in> set out then add_new out xs else add_new (out @ [x]) xs)"

definition LoadFromEnv :: "goenv \<Rightarrow> PromptPolicy" where
  "LoadFromEnv E =
     \<lparr>pp_MaxChars =
        (let raw = TrimSpace (Getenv E EnvMaxChars)
         in if raw = [] then DefaultMaxChars
            else case Atoi raw of
                   None \<Rightarrow> DefaultMaxChars
                 | Some parsed \<Rightarrow> if 0 < parsed then parsed else DefaultMaxChars),
      pp_DenyList =
        (let raw = Getenv E EnvDenyList
         in if raw = [] then []
            else add_new [] (map (\<lambda>token. ToLower E (TrimSpace token)) (Split raw '','')))\<rparr>"

definition Validate :: "goenv \<Rightarrow> string \<Rightarrow> PromptPolicy \<Rightarrow> PromptErr option" where
  "Validate E prompt p =
     (if 0 < pp_MaxChars p \<and> pp_MaxChars p < int (RuneCountInString prompt) then Some ErrPromptTooLong
      else if pp_DenyList p = [] then None
      else if list_ex (\<lambda>token. Contains (ToLower E prompt) token) (pp_DenyList p) then Some ErrPromptDenied
      else None)"

section \<open>Lemmas\<close>

lemma set_add_new: "set (add_new out xs) = set out \<union> (set xs - {[]})"
  by (induction out xs rule: add_new.induct) auto

lemma distinct_add_new: "distinct out \<Longrightarrow> distinct (add_new out xs)"
  by (induction out xs rule: add_new.induct) auto

lemma add_new_distinct:
  "distinct (out @ xs) \<Longrightarrow> [] \<notin> set xs \<Longrightarrow> add_new out xs = out @ xs"
  by (induction out xs rule: add_new.induct) auto

lemma add_new_idem: "add_new [] (add_new [] xs) = add_new [] xs"
  using add_new_distinct [of "[]" "add_new [] xs"] set_add_new [of "[]" xs] distinct_add_new [of "[]" xs]
  by auto

text \<open>The policy in force: a positive limit, and lower-case terms without repetition.\<close>

lemma LoadFromEnv_ok:
  "0 < pp_MaxChars (LoadFromEnv E) \<and> distinct (pp_DenyList (LoadFromEnv E))
   \<and> [] \<notin> set (pp_DenyList (LoadFromEnv E))"
  by (auto simp: LoadFromEnv_def Let_def DefaultMaxChars_def set_add_new distinct_add_new split: option.split)

lemma Contains_iff: "Contains s sub \<longleftrightarrow> (\<exists>a b. s = a @ sub @ b)"
proof (induction s)
  case Nil
  then show ?case by simp
next
  case (Cons c cs)
  have "Contains (c # cs) sub \<longleftrightarrow> (\<exists>b. c # cs = sub @ b) \<or> (\<exists>a b. cs = a @ sub @ b)"
    using Cons by (simp add: prefix_def)
  also have "\<dots> \<longleftrightarrow> (\<exists>a b. c # cs = a @ sub @ b)"
  proof (intro iffI; elim disjE exE)
    fix a b assume "c # cs = a @ sub @ b"
    then show "(\<exists>b. c # cs = sub @ b) \<or> (\<exists>a b. cs = a @ sub @ b)"
      by (cases a) auto
  qed (force intro: exI [of _ "[]"], metis append_Cons)
  finally show ?case .
qed

text \<open>
  What an accepted prompt satisfies: at most the configured number of code points, and no
  occurrence of any non-empty term of the configured deny list in it, case ignored.
\<close>

lemma Validate_LoadFromEnv:
  assumes "Validate E prompt (LoadFromEnv E) = None"
  shows "int (RuneCountInString prompt) \<le> pp_MaxChars (LoadFromEnv E)
    \<and> (\<forall>token \<in> set (Split (Getenv E EnvDenyList) '','').
         ToLower E (TrimSpace token) \<noteq> [] \<longrightarrow> \<not> Contains (ToLower E prompt) (ToLower E (TrimSpace token)))"
proof -
  have len: "int (RuneCountInString prompt) \<le> pp_MaxChars (LoadFromEnv E)"
    using assms LoadFromEnv_ok [of E] by (auto simp: Validate_def split: if_splits)
  have none: "\<forall>t \<in> set (pp_DenyList (LoadFromEnv E)). \<not> Contains (ToLower E prompt) t"
    using assms by (auto simp: Validate_def list_ex_iff split: if_splits)
  have "Split [] '','' = [[]]" by (simp add: Split_def split_from.simps)
  moreover have "TrimSpace [] = []" by (simp add: TrimSpace_def trim_with_fix find_prefix_def space_seqs_def)
  ultimately show ?thesis
    using len none by (auto simp: LoadFromEnv_def Let_def set_add_new ToLower_def split: if_splits)
qed

end
