(* ===== verification/TaskService.thy ===== *)
theory TaskService
  imports StateContract PromptPolicy
begin

text \<open>
  The task service, \<open>pkg/task/service.go\<close> and \<open>pkg/task/estimation.go\<close>: creation with
  idempotency keys, abort, resume from a checkpoint, and the reads, over any \<open>state.Store\<close>
  (\<open>S\<close>) and any queue (\<open>enq\<close>, the call \<open>queue.Enqueue\<close>). Calls of the store are atomic;
  between two of them the state is changed by the interference \<open>others\<close>, which is what
  every other goroutine and process does to the store. Clock readings and random bytes are
  arguments.
\<close>

section \<open>Requests and errors\<close>

record CreateRequest =
  cq_TenantID :: string
  cq_UserID :: string
  cq_Prompt :: string
  cq_ModelConfig :: "ModelConfig option"
  cq_IdempotencyKey :: string

record CreateResponse =
  cp_TaskID :: string
  cp_RunID :: string

record ResumeRequest =
  rq_TenantID :: string
  rq_UserID :: string
  rq_FromRunID :: string
  rq_FromStepIndex :: int64
  rq_ModelConfigOverride :: "ModelConfig option"

record ResumeResponse =
  rp_TaskID :: string
  rp_RunID :: string

record AbortRequest =
  aq_TenantID :: string
  aq_UserID :: string
  aq_Reason :: string

text \<open>An error is a validation error with its message, or the error of the store or of the queue.\<close>

datatype SvcErr = ErrValidation string | SvcStore StateErr | SvcQueue string

definition validationError :: "string \<Rightarrow> SvcErr" where
  "validationError msg = ErrValidation msg"

record ('s, 'q) Service =
  svc_store :: 's
  svc_queue :: 'q

text \<open>\<open>util.NewID\<close>; \<open>b\<close> are the 12 random bytes.\<close>

definition NewID :: "string \<Rightarrow> nat list \<Rightarrow> string" where
  "NewID pre b = pre @ fmt_x b"

section \<open>Estimation\<close>

definition InferTaskType :: "goenv \<Rightarrow> string \<Rightarrow> string" where
  "InferTaskType E prompt =
     (let p = ToLower E (TrimSpace prompt)
      in if list_ex (Contains p) [''code'', ''golang'', ''python'', ''typescript'', ''bug'', ''test''] then ''coding''
         else if list_ex (Contains p) [''analy'', ''report'', ''metrics'', ''sql''] then ''analysis''
         else if list_ex (Contains p) [''summar'', ''translate'', ''rewrite''] then ''writing''
         else ''general'')"

definition defaultModelID :: string where
  "defaultModelID = ''gpt-4o-mini''"

definition pricing :: "(string, float64) gomap" where
  "pricing =
     [(''gpt-4o-mini'', f64 (35 / 100000)), (''gpt-4o'', f64 (5 / 1000)), (''gpt-4.1'', f64 (6 / 1000)),
      (''claude-3-haiku'', f64 (8 / 10000)), (''claude-3-sonnet'', f64 (3 / 1000)), (''claude-3-opus'', f64 (15 / 1000))]"

definition estimateModelCostUSD :: "goenv \<Rightarrow> string \<Rightarrow> int64 \<Rightarrow> float64" where
  "estimateModelCostUSD E modelID totalTokens =
     (if totalTokens \<le> 0 then 0
      else
        let rate = (case gm_get pricing (ToLower E (TrimSpace modelID)) of
              Some r \<Rightarrow> r | None \<Rightarrow> the (gm_get pricing ''gpt-4o-mini''))
        in f64_mul (f64_div (f64_of_int totalTokens) 1000) rate)"

definition EstimateUsage :: "goenv \<Rightarrow> string \<Rightarrow> ModelConfig option \<Rightarrow> int64 \<times> float64" where
  "EstimateUsage E prompt mc =
     (let modelID = (case mc of
            Some c \<Rightarrow> if TrimSpace (mc_ModelID c) \<noteq> [] then mc_ModelID c else defaultModelID
          | None \<Rightarrow> defaultModelID);
          maxTokens = (case mc of
            Some c \<Rightarrow> if 0 < mc_MaxTokens c then mc_MaxTokens c else 1024
          | None \<Rightarrow> 1024);
          words = int (length (Fields prompt));
          estInput = \<lceil>f64_mul (f64_of_int words) (f64 (13 / 10))\<rceil>;
          t = add64 estInput maxTokens;
          tokens = (if t < 256 then 256 else t)
      in (tokens, estimateModelCostUSD E modelID tokens))"

section \<open>Access and model configuration\<close>

definition hasTaskTenantAccess :: "Task option \<Rightarrow> string \<Rightarrow> bool" where
  "hasTaskTenantAccess task tenantID = (case task of None \<Rightarrow> False | Some t \<Rightarrow> t_TenantID t = tenantID)"

definition hasTaskAccess :: "Task option \<Rightarrow> string \<Rightarrow> string \<Rightarrow> bool" where
  "hasTaskAccess task tenantID userID =
     (if \<not> hasTaskTenantAccess task tenantID then False
      else if TrimSpace userID = [] then False
      else case task of
             None \<Rightarrow> False
           | Some t \<Rightarrow> if TrimSpace (t_UserID t) = [] then False else t_UserID t = userID)"

definition allowedModelsEnv :: string where
  "allowedModelsEnv = ''AGENTFORGE_ALLOWED_MODEL_IDS''"

definition defaultAllowedModelIDs :: "string list" where
  "defaultAllowedModelIDs =
     [''gpt-4o-mini'', ''gpt-4o'', ''gpt-4.1'', ''gpt-4'', ''claude-3'', ''claude-3-haiku'',
      ''claude-3-sonnet'', ''claude-3-opus'', ''claude-sonnet-4-20250514'', ''claude-opus-4-6'']"

definition isAllowedModelID :: "goenv \<Rightarrow> string \<Rightarrow> bool" where
  "isAllowedModelID E modelID =
     (let raw = TrimSpace (Getenv E allowedModelsEnv);
          allowed = (if raw = [] then map (\<lambda>m. ToLower E (TrimSpace m)) defaultAllowedModelIDs
                     else filter (\<lambda>m. m \<noteq> []) (map (\<lambda>part. ToLower E (TrimSpace part)) (Split raw '','')))
      in ToLower E (TrimSpace modelID) \<in> set allowed)"

text \<open>The loop over the fallback models; \<open>None\<close> is the early return on a model that is not allowed.\<close>

fun norm_fallbacks :: "goenv \<Rightarrow> string list \<Rightarrow> string list \<Rightarrow> string list option" where
  "norm_fallbacks E fallback [] = Some fallback"
| "norm_fallbacks E fallback (m # ms) =
     (let modelID = TrimSpace m
      in if modelID = [] then norm_fallbacks E fallback ms
         else if \<not> isAllowedModelID E modelID then None
         else if modelID \<in> set fallback then norm_fallbacks E fallback ms
         else norm_fallbacks E (fallback @ [modelID]) ms)"

definition normalizeAndValidateModelConfig ::
  "goenv \<Rightarrow> ModelConfig option \<Rightarrow> SvcErr + ModelConfig option" where
  "normalizeAndValidateModelConfig E mc0 =
     (case mc0 of
        None \<Rightarrow> Inr None
      | Some mc \<Rightarrow>
          let c = mc\<lparr>mc_ModelID := TrimSpace (mc_ModelID mc)\<rparr>; pm = TrimSpace (mc_PolicyMode c)
          in if mc_ModelID c = [] then Inl (validationError ''model_config.model_id is required'')
             else if \<not> isAllowedModelID E (mc_ModelID c)
               then Inl (validationError ''model_config.model_id is not allowed'')
             else if mc_Temperature c < 0 \<or> 2 < mc_Temperature c
               then Inl (validationError ''model_config.temperature must be between 0 and 2'')
             else if mc_MaxTokens c < 0 then Inl (validationError ''model_config.max_tokens must be >= 0'')
             else if mc_CostCapUSD c < 0 then Inl (validationError ''model_config.cost_cap_usd must be >= 0'')
             else if pm \<noteq> [] \<and> pm \<notin> {''latency-first'', ''quality-first'', ''cost-cap''}
               then Inl (validationError ''model_config.policy_mode is invalid'')
             else
               let c1 = (if pm \<noteq> [] then c\<lparr>mc_PolicyMode := pm\<rparr> else c)
               in if mc_FallbackModelIDs c1 = [] then Inr (Some c1)
                  else case norm_fallbacks E [] (mc_FallbackModelIDs c1) of
                         None \<Rightarrow> Inl (validationError ''model_config.fallback_model_ids contains unsupported model'')
                       | Some fallback \<Rightarrow> Inr (Some (c1\<lparr>mc_FallbackModelIDs := fallback\<rparr>)))"

section \<open>Creation\<close>

text \<open>\<open>enqueueQueuedRun\<close>: the pointer message of a queued run; anything else is left alone.\<close>

definition run_message :: "goenv \<Rightarrow> Task \<Rightarrow> Run \<Rightarrow> gotime \<Rightarrow> SQSMessage" where
  "run_message E t r submittedAt =
     \<lparr>m_TenantID = (if TrimSpace (r_TenantID r) \<noteq> [] then TrimSpace (r_TenantID r) else t_TenantID t),
      m_TaskID = t_TaskID t, m_RunID = r_RunID r, m_TaskType = InferTaskType E (t_Prompt t),
      m_SubmittedAt = time_Unix submittedAt, m_Attempt = 1,
      m_DedupeKey = t_TaskID t @ ''#'' @ r_RunID r,
      m_EstimatedTokens = fst (EstimateUsage E (t_Prompt t) (r_ModelConfig r)),
      m_EstimatedCost = snd (EstimateUsage E (t_Prompt t) (r_ModelConfig r))\<rparr>"

definition enqueueQueuedRun ::
  "goenv \<Rightarrow> ('q \<Rightarrow> SQSMessage \<Rightarrow> 'q \<times> string option) \<Rightarrow> 'q \<Rightarrow> Task option \<Rightarrow> Run option \<Rightarrow> gotime
   \<Rightarrow> 'q \<times> string option" where
  "enqueueQueuedRun E enq q taskObj run submittedAt =
     (case (taskObj, run) of
        (Some t, Some r) \<Rightarrow>
          if t_Status t \<noteq> TaskStatusQueued \<or> r_Status r \<noteq> RunStatusQueued then (q, None)
          else enq q (run_message E t r submittedAt)
      | _ \<Rightarrow> (q, None))"

definition ensureActiveQueuedRunEnqueued ::
  "goenv \<Rightarrow> 's Store \<Rightarrow> ('q \<Rightarrow> SQSMessage \<Rightarrow> 'q \<times> string option) \<Rightarrow> gotime
   \<Rightarrow> ('s, 'q) Service \<Rightarrow> Task option \<Rightarrow> ('s, 'q) Service \<times> SvcErr option" where
  "ensureActiveQueuedRunEnqueued E S enq now v taskObj =
     (case taskObj of
        None \<Rightarrow> (v, None)
      | Some t \<Rightarrow>
          if t_ActiveRunID t = [] then (v, None)
          else case Store_GetRun S (svc_store v) (t_TaskID t) (t_ActiveRunID t) of
                 Inl e \<Rightarrow> (v, Some (SvcStore e))
               | Inr r \<Rightarrow>
                   (case enqueueQueuedRun E enq (svc_queue v) (Some t) (Some r) now of
                      (q, err) \<Rightarrow> (v\<lparr>svc_queue := q\<rparr>, map_option SvcQueue err)))"

definition new_task :: "CreateRequest \<Rightarrow> ModelConfig option \<Rightarrow> string \<Rightarrow> string \<Rightarrow> gotime \<Rightarrow> Task" where
  "new_task req mc taskID runID now =
     \<lparr>t_TaskID = taskID, t_TenantID = cq_TenantID req, t_UserID = cq_UserID req, t_Status = TaskStatusQueued,
      t_ActiveRunID = runID, t_AbortRequested = False, t_AbortReason = [], t_AbortTS = None,
      t_IdempotencyKey = cq_IdempotencyKey req, t_Prompt = cq_Prompt req, t_ModelConfig = mc,
      t_CreatedAt = now, t_UpdatedAt = now\<rparr>"

definition new_run ::
  "string \<Rightarrow> string \<Rightarrow> string \<Rightarrow> gotime \<Rightarrow> string \<Rightarrow> int64 option \<Rightarrow> ModelConfig option \<Rightarrow> Run" where
  "new_run taskID runID tenantID now parent stepIdx mc =
     \<lparr>r_TaskID = taskID, r_RunID = runID, r_TenantID = tenantID, r_Status = RunStatusQueued,
      r_QueuedAt = Some now, r_ParentRunID = parent, r_ResumeFromStepIndex = stepIdx, r_ModelConfig = mc,
      r_StartedAt = None, r_EndedAt = None, r_LastStepIndex = 0, r_TotalTokenUsage = None, r_TotalCostUSD = 0\<rparr>"

text \<open>The checks of a creation request, up to the normalised model configuration.\<close>

definition check_create :: "goenv \<Rightarrow> CreateRequest option \<Rightarrow> SvcErr + CreateRequest \<times> ModelConfig option" where
  "check_create E req0 =
     (case req0 of
        None \<Rightarrow> Inl (validationError ''request is required'')
      | Some req \<Rightarrow>
          if TrimSpace (cq_TenantID req) = [] then Inl (validationError ''tenant_id is required'')
          else if TrimSpace (cq_UserID req) = [] then Inl (validationError ''user_id is required'')
          else if TrimSpace (cq_Prompt req) = [] then Inl (validationError ''prompt is required'')
          else case Validate E (cq_Prompt req) (LoadFromEnv E) of
                 Some ErrPromptTooLong \<Rightarrow> Inl (validationError ''prompt exceeds maximum length'')
               | Some ErrPromptDenied \<Rightarrow> Inl (validationError ''prompt contains denied content'')
               | None \<Rightarrow>
                   (case normalizeAndValidateModelConfig E (cq_ModelConfig req) of
                      Inl e \<Rightarrow> Inl e
                    | Inr mc \<Rightarrow> Inr (req, mc)))"

text \<open>
  The part of \<open>Create\<close> behind the idempotency check: the transition, the answer of a lost
  race, and the message. \<open>clk 0\<close> is its own \<open>time.Now()\<close>, \<open>clk 1\<close> that of the store.
\<close>

definition create_new ::
  "goenv \<Rightarrow> 's Store \<Rightarrow> ('q \<Rightarrow> SQSMessage \<Rightarrow> 'q \<times> string option) \<Rightarrow> 's interference \<Rightarrow> clock \<Rightarrow> (nat \<Rightarrow> nat list)
   \<Rightarrow> ('s, 'q) Service \<Rightarrow> CreateRequest \<Rightarrow> ModelConfig option \<Rightarrow> ('s, 'q) Service \<times> (SvcErr + CreateResponse)" where
  "create_new E S enq others clk rnd v req mc =
     (let now = clk 0; taskID = NewID ''task_'' (rnd 0); runID = NewID ''run_'' (rnd 1);
          task = new_task req mc taskID runID now;
          run = new_run taskID runID (cq_TenantID req) now [] None mc
      in case Store_ApplyCreateTransition S (clk 1) (others 0 (svc_store v)) task run of
           (s1, Some e) \<Rightarrow>
             if e = ErrAlreadyExists \<and> cq_IdempotencyKey req \<noteq> []
             then let s2 = others 1 s1
                  in case Store_GetTaskByIdempotencyKey S s2 (cq_TenantID req) (cq_IdempotencyKey req) of
                       Inl e2 \<Rightarrow> (v\<lparr>svc_store := s2\<rparr>, Inl (SvcStore e2))
                     | Inr existing \<Rightarrow>
                         (v\<lparr>svc_store := s2\<rparr>, Inr \<lparr>cp_TaskID = t_TaskID existing, cp_RunID = t_ActiveRunID existing\<rparr>)
             else (v\<lparr>svc_store := s1\<rparr>, Inl (SvcStore e))
         | (s1, None) \<Rightarrow>
             (case enqueueQueuedRun E enq (svc_queue v) (Some task) (Some run) now of
                (q1, Some e) \<Rightarrow> (\<lparr>svc_store = s1, svc_queue = q1\<rparr>, Inl (SvcQueue e))
              | (q1, None) \<Rightarrow> (\<lparr>svc_store = s1, svc_queue = q1\<rparr>, Inr \<lparr>cp_TaskID = taskID, cp_RunID = runID\<rparr>)))"

definition Service_Create ::
  "goenv \<Rightarrow> 's Store \<Rightarrow> ('q \<Rightarrow> SQSMessage \<Rightarrow> 'q \<times> string option) \<Rightarrow> 's interference \<Rightarrow> clock \<Rightarrow> (nat \<Rightarrow> nat list)
   \<Rightarrow> ('s, 'q) Service \<Rightarrow> CreateRequest option \<Rightarrow> ('s, 'q) Service \<times> (SvcErr + CreateResponse)" where
  "Service_Create E S enq others clk rnd v req0 =
     (case check_create E req0 of
        Inl e \<Rightarrow> (v, Inl e)
      | Inr (req, mc) \<Rightarrow>
          if cq_IdempotencyKey req \<noteq> []
          then case Store_GetTaskByIdempotencyKey S (svc_store v) (cq_TenantID req) (cq_IdempotencyKey req) of
                 Inr existing \<Rightarrow>
                   (case ensureActiveQueuedRunEnqueued E S enq (clk 0)
                           (v\<lparr>svc_store := others 0 (svc_store v)\<rparr>) (Some existing) of
                      (v', Some e) \<Rightarrow> (v', Inl e)
                    | (v', None) \<Rightarrow>
                        (v', Inr \<lparr>cp_TaskID = t_TaskID existing, cp_RunID = t_ActiveRunID existing\<rparr>))
               | Inl e \<Rightarrow>
                   if e \<noteq> ErrNotFound then (v, Inl (SvcStore e))
                   else create_new E S enq others clk rnd v req mc
          else create_new E S enq others clk rnd v req mc)"

section \<open>Reads and abort\<close>

definition Service_Get :: "'s Store \<Rightarrow> 's \<Rightarrow> string \<Rightarrow> string \<Rightarrow> SvcErr + Task" where
  "Service_Get S s tenantID taskID =
     (case Store_GetTask S s taskID of
        Inl e \<Rightarrow> Inl (SvcStore e)
      | Inr t \<Rightarrow> if \<not> hasTaskTenantAccess (Some t) tenantID then Inl (SvcStore ErrNotFound) else Inr t)"

definition GetForUser :: "'s Store \<Rightarrow> 's \<Rightarrow> string \<Rightarrow> string \<Rightarrow> string \<Rightarrow> SvcErr + Task" where
  "GetForUser S s tenantID userID taskID =
     (case Store_GetTask S s taskID of
        Inl e \<Rightarrow> Inl (SvcStore e)
      | Inr t \<Rightarrow> if \<not> hasTaskAccess (Some t) tenantID userID then Inl (SvcStore ErrNotFound) else Inr t)"

text \<open>\<open>SetAbortRequested\<close> and the second read of the task, shared by the two abort methods.\<close>

definition request_abort ::
  "'s Store \<Rightarrow> 's interference \<Rightarrow> gotime \<Rightarrow> 's \<Rightarrow> string \<Rightarrow> string \<Rightarrow> 's \<times> (SvcErr + Task)" where
  "request_abort S others now s taskID reason =
     (case Store_SetAbortRequested S now (others 0 s) taskID reason of
        (s1, Some e) \<Rightarrow> (s1, Inl (SvcStore e))
      | (s1, None) \<Rightarrow>
          let s2 = others 1 s1
          in (s2, case Store_GetTask S s2 taskID of Inl e \<Rightarrow> Inl (SvcStore e) | Inr t \<Rightarrow> Inr t))"

definition AbortForUser ::
  "'s Store \<Rightarrow> 's interference \<Rightarrow> gotime \<Rightarrow> 's \<Rightarrow> string \<Rightarrow> string \<Rightarrow> string \<Rightarrow> AbortRequest \<Rightarrow> 's \<times> (SvcErr + Task)" where
  "AbortForUser S others now s tenantID userID taskID req =
     (case Store_GetTask S s taskID of
        Inl e \<Rightarrow> (s, Inl (SvcStore e))
      | Inr t \<Rightarrow>
          if \<not> hasTaskAccess (Some t) tenantID userID then (s, Inl (SvcStore ErrNotFound))
          else request_abort S others now s taskID (aq_Reason req))"

definition Service_Abort ::
  "'s Store \<Rightarrow> 's interference \<Rightarrow> gotime \<Rightarrow> 's \<Rightarrow> string \<Rightarrow> string \<Rightarrow> AbortRequest option \<Rightarrow> 's \<times> (SvcErr + Task)" where
  "Service_Abort S others now s tenantID taskID req0 =
     (let req = (case req0 of None \<Rightarrow> \<lparr>aq_TenantID = tenantID, aq_UserID = [], aq_Reason = []\<rparr> | Some r \<Rightarrow> r)
      in if aq_UserID req = []
         then case Store_GetTask S s taskID of
                Inl e \<Rightarrow> (s, Inl (SvcStore e))
              | Inr t \<Rightarrow>
                  if \<not> hasTaskTenantAccess (Some t) tenantID then (s, Inl (SvcStore ErrNotFound))
                  else request_abort S others now s taskID (aq_Reason req)
         else AbortForUser S others now s tenantID (aq_UserID req) taskID req)"

text \<open>
  The reads of a run: the task, then the run, then what is asked for (\<open>use\<close>), each at its
  own time.
\<close>

definition with_run ::
  "'s Store \<Rightarrow> 's interference \<Rightarrow> 's \<Rightarrow> (Task \<Rightarrow> bool) \<Rightarrow> string \<Rightarrow> string
   \<Rightarrow> ('s \<Rightarrow> Run \<Rightarrow> 's \<times> (SvcErr + 'a)) \<Rightarrow> 's \<times> (SvcErr + 'a)" where
  "with_run S others s access taskID runID use =
     (case Store_GetTask S s taskID of
        Inl e \<Rightarrow> (s, Inl (SvcStore e))
      | Inr t \<Rightarrow>
          if \<not> access t then (s, Inl (SvcStore ErrNotFound))
          else case Store_GetRun S (others 0 s) taskID runID of
                 Inl e \<Rightarrow> (others 0 s, Inl (SvcStore ErrNotFound))
               | Inr r \<Rightarrow> use (others 0 s) r)"

definition store_result :: "StateErr + 'a \<Rightarrow> SvcErr + 'a" where
  "store_result res = (case res of Inl e \<Rightarrow> Inl (SvcStore e) | Inr x \<Rightarrow> Inr x)"

definition Service_ListSteps ::
  "'s Store \<Rightarrow> 's interference \<Rightarrow> 's \<Rightarrow> string \<Rightarrow> string \<Rightarrow> string \<Rightarrow> int64 \<Rightarrow> int64 \<Rightarrow> 's \<times> (SvcErr + Step list)" where
  "Service_ListSteps S others s tenantID taskID runID from limit =
     with_run S others s (\<lambda>t. hasTaskTenantAccess (Some t) tenantID) taskID runID
       (\<lambda>s1 _. (others 1 s1, store_result (Store_ListSteps S (others 1 s1) runID from limit)))"

definition GetRunForUser ::
  "'s Store \<Rightarrow> 's interference \<Rightarrow> 's \<Rightarrow> string \<Rightarrow> string \<Rightarrow> string \<Rightarrow> string \<Rightarrow> 's \<times> (SvcErr + Run)" where
  "GetRunForUser S others s tenantID userID taskID runID =
     with_run S others s (\<lambda>t. hasTaskAccess (Some t) tenantID userID) taskID runID (\<lambda>s1 r. (s1, Inr r))"

definition ReplayEventsForUser ::
  "'s Store \<Rightarrow> 's interference \<Rightarrow> 's \<Rightarrow> string \<Rightarrow> string \<Rightarrow> string \<Rightarrow> string \<Rightarrow> int64 \<Rightarrow> int64 \<Rightarrow> int64
   \<Rightarrow> 's \<times> (SvcErr + StreamEvent list)" where
  "ReplayEventsForUser S others s tenantID userID taskID runID fromSeq fromTS limit =
     with_run S others s (\<lambda>t. hasTaskAccess (Some t) tenantID userID) taskID runID
       (\<lambda>s1 _. (others 1 s1, store_result (Store_ReplayEvents S (others 1 s1) taskID runID fromSeq fromTS limit)))"

definition CompactRunEventsForUser ::
  "'s Store \<Rightarrow> 's interference \<Rightarrow> 's \<Rightarrow> string \<Rightarrow> string \<Rightarrow> string \<Rightarrow> string \<Rightarrow> int64 \<Rightarrow> 's \<times> (SvcErr + int64)" where
  "CompactRunEventsForUser S others s tenantID userID taskID runID beforeTS =
     with_run S others s (\<lambda>t. hasTaskAccess (Some t) tenantID userID) taskID runID
       (\<lambda>s1 _. case Store_CompactEvents S (others 1 s1) taskID runID beforeTS of (s2, n) \<Rightarrow> (s2, store_result n))"

definition ListStepsForUser ::
  "'s Store \<Rightarrow> 's interference \<Rightarrow> 's \<Rightarrow> string \<Rightarrow> string \<Rightarrow> string \<Rightarrow> string \<Rightarrow> int64 \<Rightarrow> int64
   \<Rightarrow> 's \<times> (SvcErr + Step list)" where
  "ListStepsForUser S others s tenantID userID taskID runID from limit =
     with_run S others s (\<lambda>t. hasTaskAccess (Some t) tenantID userID) taskID runID
       (\<lambda>s1 _. (others 1 s1, store_result (Store_ListSteps S (others 1 s1) runID from limit)))"

section \<open>Resume\<close>

text \<open>Both calls are best effort: their errors are ignored.\<close>

definition markRunAndTaskFailed ::
  "'s Store \<Rightarrow> 's interference \<Rightarrow> clock \<Rightarrow> 's \<Rightarrow> string \<Rightarrow> string \<Rightarrow> 's" where
  "markRunAndTaskFailed S others clk s taskID runID =
     (if taskID = [] \<or> runID = [] then s
      else fst (Store_UpdateTaskStatusForRun S (clk 1)
             (others 0 (fst (Store_CompleteRun S (clk 0) s taskID runID RunStatusFailed)))
             taskID runID [TaskStatusQueued, TaskStatusRunning] TaskStatusFailed))"

definition resume_message ::
  "goenv \<Rightarrow> Task \<Rightarrow> ResumeRequest \<Rightarrow> string \<Rightarrow> string \<Rightarrow> gotime \<Rightarrow> ModelConfig option \<Rightarrow> SQSMessage" where
  "resume_message E task req taskID newRunID now mc =
     \<lparr>m_TenantID = rq_TenantID req, m_TaskID = taskID, m_RunID = newRunID,
      m_TaskType = InferTaskType E (t_Prompt task), m_SubmittedAt = time_Unix now, m_Attempt = 1,
      m_DedupeKey = taskID @ ''#'' @ newRunID,
      m_EstimatedTokens = fst (EstimateUsage E (t_Prompt task) mc),
      m_EstimatedCost = snd (EstimateUsage E (t_Prompt task) mc)\<rparr>"

text \<open>The transition and the message, once the request is checked.\<close>

definition resume_run ::
  "goenv \<Rightarrow> 's Store \<Rightarrow> ('q \<Rightarrow> SQSMessage \<Rightarrow> 'q \<times> string option) \<Rightarrow> 's interference \<Rightarrow> clock \<Rightarrow> nat list
   \<Rightarrow> ('s, 'q) Service \<Rightarrow> string \<Rightarrow> ResumeRequest \<Rightarrow> Task \<Rightarrow> ModelConfig option
   \<Rightarrow> ('s, 'q) Service \<times> (SvcErr + ResumeResponse)" where
  "resume_run E S enq others clk rnd v taskID req task mc =
     (let now = clk 0; newRunID = NewID ''run_'' rnd;
          run = new_run taskID newRunID (rq_TenantID req) now (rq_FromRunID req) (Some (rq_FromStepIndex req)) mc
      in case Store_ApplyResumeTransition S (clk 1) (clk 2) (svc_store v) taskID run
                [TaskStatusQueued, TaskStatusSucceeded, TaskStatusFailed, TaskStatusAborted] TaskStatusQueued of
           (s1, Some e) \<Rightarrow> (v\<lparr>svc_store := s1\<rparr>, Inl (SvcStore e))
         | (s1, None) \<Rightarrow>
             (case enq (svc_queue v) (resume_message E task req taskID newRunID now mc) of
                (q1, Some e) \<Rightarrow>
                  (\<lparr>svc_store = markRunAndTaskFailed S (\<lambda>i. others (i + 4)) (\<lambda>i. clk (i + 3)) (others 3 s1) taskID newRunID,
                    svc_queue = q1\<rparr>, Inl (SvcQueue e))
              | (q1, None) \<Rightarrow>
                  (\<lparr>svc_store = s1, svc_queue = q1\<rparr>, Inr \<lparr>rp_TaskID = taskID, rp_RunID = newRunID\<rparr>)))"

definition Service_Resume ::
  "goenv \<Rightarrow> 's Store \<Rightarrow> ('q \<Rightarrow> SQSMessage \<Rightarrow> 'q \<times> string option) \<Rightarrow> 's interference \<Rightarrow> clock \<Rightarrow> nat list
   \<Rightarrow> ('s, 'q) Service \<Rightarrow> string \<Rightarrow> ResumeRequest option \<Rightarrow> ('s, 'q) Service \<times> (SvcErr + ResumeResponse)" where
  "Service_Resume E S enq others clk rnd v taskID req0 =
     (case req0 of
        None \<Rightarrow> (v, Inl (validationError ''request is required''))
      | Some req \<Rightarrow>
          if TrimSpace (rq_TenantID req) = [] then (v, Inl (validationError ''tenant_id is required''))
          else if TrimSpace (rq_UserID req) = [] then (v, Inl (validationError ''user_id is required''))
          else case Store_GetTask S (svc_store v) taskID of
            Inl e \<Rightarrow> (v, Inl (SvcStore e))
          | Inr task \<Rightarrow>
              if \<not> hasTaskAccess (Some task) (rq_TenantID req) (rq_UserID req) then (v, Inl (SvcStore ErrNotFound))
              else if rq_FromRunID req = [] then (v, Inl (validationError ''from_run_id is required for resume''))
              else if rq_FromStepIndex req < 0
                then (v, Inl (validationError ''from_step_index must be non-negative''))
              else
                let v1 = v\<lparr>svc_store := others 0 (svc_store v)\<rparr>
                in case Store_GetRun S (svc_store v1) taskID (rq_FromRunID req) of
                     Inl _ \<Rightarrow> (v1, Inl (validationError ''from_run_id not found for this task''))
                   | Inr _ \<Rightarrow>
                       let v2 = v1\<lparr>svc_store := others 1 (svc_store v1)\<rparr>
                       in case Store_GetStep S (svc_store v2) (rq_FromRunID req) (rq_FromStepIndex req) of
                            Inl _ \<Rightarrow> (v2, Inl (validationError
                              ''checkpoint step not found: cannot resume from a step that does not exist''))
                          | Inr step \<Rightarrow>
                              if s_CheckpointRef step = None
                              then (v2, Inl (validationError ''checkpoint step has no checkpoint data: cannot resume''))
                              else case normalizeAndValidateModelConfig E
                                     (if rq_ModelConfigOverride req = None then t_ModelConfig task
                                      else rq_ModelConfigOverride req) of
                                Inl e \<Rightarrow> (v2, Inl e)
                              | Inr mc \<Rightarrow>
                                  resume_run E S enq others clk rnd
                                    (v2\<lparr>svc_store := others 2 (svc_store v2)\<rparr>) taskID req task mc)"

end
