(* ===== verification/TaskProps.thy ===== *)
theory TaskProps
  imports TaskService QueueProps StateProps
begin

text \<open>
  Properties of the task service: model configurations, admission estimates, access
  control, creation with idempotency keys, and resume. The lemmas on creation and resume are
  proved for any store and queue that keep their contracts, under the interference of other
  processes, and used for the in-memory ones.
\<close>

section \<open>Model configurations and estimates\<close>

lemma norm_fallbacks_eq:
  "norm_fallbacks E out ms =
     (if \<forall>m \<in> set ms. TrimSpace m = [] \<or> isAllowedModelID E (TrimSpace m)
      then Some (add_new out (map TrimSpace ms)) else None)"
  by (induction E out ms rule: norm_fallbacks.induct) (auto simp: Let_def)

lemma norm_fallbacks_idem:
  assumes "norm_fallbacks E [] ms = Some fs"
  shows "norm_fallbacks E [] fs = Some fs"
proof -
  have fs: "fs = add_new [] (map TrimSpace ms)" and ok: "\<forall>m \<in> set ms. TrimSpace m = [] \<or> isAllowedModelID E (TrimSpace m)"
    using assms by (auto simp: norm_fallbacks_eq split: if_splits)
  have mem: "f \<in> set fs \<Longrightarrow> f \<noteq> [] \<and> TrimSpace f = f \<and> isAllowedModelID E f" for f
    using ok by (auto simp: fs set_add_new)
  then have "map TrimSpace fs = fs" by (simp add: map_idI)
  moreover have "add_new [] fs = fs" by (simp add: fs add_new_idem)
  ultimately show ?thesis using mem by (simp add: norm_fallbacks_eq)
qed

lemma norm_fallbacks_ok:
  "norm_fallbacks E [] ms = Some fs \<Longrightarrow>
   distinct fs \<and> list_all (\<lambda>f. f \<noteq> [] \<and> TrimSpace f = f \<and> isAllowedModelID E f) fs"
  by (auto simp: norm_fallbacks_eq distinct_add_new set_add_new list_all_iff split: if_splits)

definition valid_config :: "goenv \<Rightarrow> ModelConfig \<Rightarrow> bool" where
  "valid_config E c \<longleftrightarrow>
     TrimSpace (mc_ModelID c) = mc_ModelID c \<and> mc_ModelID c \<noteq> [] \<and> isAllowedModelID E (mc_ModelID c)
     \<and> 0 \<le> mc_Temperature c \<and> mc_Temperature c \<le> 2 \<and> 0 \<le> mc_MaxTokens c \<and> 0 \<le> mc_CostCapUSD c
     \<and> (TrimSpace (mc_PolicyMode c) = [] \<or> mc_PolicyMode c \<in> {''latency-first'', ''quality-first'', ''cost-cap''})
     \<and> distinct (mc_FallbackModelIDs c)
     \<and> list_all (\<lambda>f. f \<noteq> [] \<and> TrimSpace f = f \<and> isAllowedModelID E f) (mc_FallbackModelIDs c)"

lemma normalize_valid:
  "normalizeAndValidateModelConfig E (Some mc) = Inr (Some c) \<Longrightarrow> valid_config E c"
  by (auto simp: normalizeAndValidateModelConfig_def valid_config_def Let_def norm_fallbacks_ok
      split: if_splits option.splits)

lemma trim_modes:
  "m \<in> {''latency-first'', ''quality-first'', ''cost-cap''} \<Longrightarrow> TrimSpace m = m"
proof -
  have "TrimSpace ''latency-first'' = ''latency-first''" by code_simp
  moreover have "TrimSpace ''quality-first'' = ''quality-first''" by code_simp
  moreover have "TrimSpace ''cost-cap'' = ''cost-cap''" by code_simp
  ultimately show "m \<in> {''latency-first'', ''quality-first'', ''cost-cap''} \<Longrightarrow> TrimSpace m = m" by auto
qed

lemma normalize_fix:
  assumes "valid_config E c"
  shows "normalizeAndValidateModelConfig E (Some c) = Inr (Some c)"
proof -
  have "map TrimSpace (mc_FallbackModelIDs c) = mc_FallbackModelIDs c"
    using assms by (auto simp: valid_config_def list_all_iff intro: map_idI)
  moreover have "add_new [] (mc_FallbackModelIDs c) = mc_FallbackModelIDs c"
    using assms by (auto simp: valid_config_def list_all_iff intro: add_new_distinct [of "[]", simplified])
  ultimately have fb: "norm_fallbacks E [] (mc_FallbackModelIDs c) = Some (mc_FallbackModelIDs c)"
    using assms by (auto simp: norm_fallbacks_eq valid_config_def list_all_iff)
  show ?thesis
  proof (cases "TrimSpace (mc_PolicyMode c) = []")
    case True
    with fb assms show ?thesis
      by (auto simp: normalizeAndValidateModelConfig_def valid_config_def Let_def)
  next
    case False
    then have "TrimSpace (mc_PolicyMode c) = mc_PolicyMode c"
      using assms by (intro trim_modes) (auto simp: valid_config_def)
    with False fb assms show ?thesis
      by (auto simp: normalizeAndValidateModelConfig_def valid_config_def Let_def)
  qed
qed

definition sample_config :: ModelConfig where
  "sample_config = \<lparr>mc_ModelID = '' GPT-4o '', mc_Temperature = 1, mc_MaxTokens = 100, mc_PolicyMode = ''cost-cap '',
     mc_CostCapUSD = 1, mc_FallbackModelIDs = [''gpt-4'', [], '' gpt-4'']\<rparr>"

definition normal_config :: ModelConfig where
  "normal_config = \<lparr>mc_ModelID = ''GPT-4o'', mc_Temperature = 1, mc_MaxTokens = 100, mc_PolicyMode = ''cost-cap'',
     mc_CostCapUSD = 1, mc_FallbackModelIDs = [''gpt-4'']\<rparr>"

text \<open>
  A model configuration the service accepts satisfies every rule of the service (allowed
  model, temperature between 0 and 2, no negative limit, known policy mode, distinct allowed
  fallback models), and normalising it again changes nothing, so a resume can take over the
  configuration a creation stored.
\<close>

theorem model_config_normalised:
  assumes "normalizeAndValidateModelConfig E (Some mc) = Inr res"
  shows "\<exists>c. res = Some c \<and> valid_config E c \<and> normalizeAndValidateModelConfig E (Some c) = Inr (Some c)"
proof -
  obtain c where "res = Some c"
    using assms by (auto simp: normalizeAndValidateModelConfig_def Let_def split: if_splits option.splits)
  with assms normalize_valid [of E mc c] normalize_fix [of E c] show ?thesis by auto
qed

theorem model_config_normalised_witness:
  "\<exists>c. Some normal_config = Some c \<and> valid_config sample_env c
     \<and> normalizeAndValidateModelConfig sample_env (Some c) = Inr (Some c)"
proof -
  have "normalizeAndValidateModelConfig sample_env (Some sample_config) = Inr (Some normal_config)"
    by code_simp
  from model_config_normalised [OF this] show ?thesis .
qed

lemma EstimateUsage_bounds:
  assumes "EstimateUsage E prompt mc = (tokens, cost)"
  shows "256 \<le> tokens" and "0 \<le> cost"
proof -
  show tok: "256 \<le> tokens"
    using assms by (auto simp: EstimateUsage_def Let_def split: if_splits)
  have "0 \<le> f64 (35 / 100000)" "0 \<le> f64 (5 / 1000)" "0 \<le> f64 (6 / 1000)" "0 \<le> f64 (8 / 10000)"
    "0 \<le> f64 (3 / 1000)" "0 \<le> f64 (15 / 1000)"
    by (simp_all add: f64_nonneg)
  then have rate: "gm_get pricing k = Some r \<Longrightarrow> 0 \<le> r" for k r
    by (auto simp: pricing_def split: if_splits)
  have def: "gm_get pricing ''gpt-4o-mini'' = Some (f64 (35 / 100000))"
    by (simp add: pricing_def)
  have "0 \<le> estimateModelCostUSD E k n" for k n
    using rate def by (auto simp: estimateModelCostUSD_def Let_def f64_mul_def f64_div_def
        f64_of_int_def intro!: f64_nonneg mult_nonneg_nonneg divide_nonneg_nonneg split: option.split)
  then show "0 \<le> cost"
    using assms by (auto simp: EstimateUsage_def Let_def)
qed

section \<open>Access control\<close>

text \<open>The history of the store as interference: other clients call any operations in between.\<close>

abbreviation clients :: "(nat \<Rightarrow> StoreOp list) \<Rightarrow> MemoryStore interference" where
  "clients ops \<equiv> (\<lambda>i. run_ops (ops i))"

lemma run_ops_wf: "store_wf s \<Longrightarrow> store_wf (run_ops ops s)"
  using history.inv_run [of s ops] by (simp add: run_ops_def list_all_iff)

lemma run_ops_extends: "store_wf s \<Longrightarrow> store_extends s (run_ops ops s)"
  using history.le_run [of s ops] by (simp add: run_ops_def list_all_iff)

lemma extends_task:
  "store_extends s s' \<Longrightarrow> task_view s t = Some x \<Longrightarrow> \<exists>x'. task_view s' t = Some x' \<and> task_identity x' = task_identity x"
  by (auto simp: store_extends_def gm_grows_def view_defs)

lemma identity_access:
  "task_identity x' = task_identity x \<Longrightarrow> hasTaskAccess (Some x') tn u = hasTaskAccess (Some x) tn u"
  "task_identity x' = task_identity x \<Longrightarrow> hasTaskTenantAccess (Some x') tn = hasTaskTenantAccess (Some x) tn"
  by (simp_all add: task_identity_def hasTaskAccess_def hasTaskTenantAccess_def)

lemma access_owner:
  "hasTaskAccess (Some t) tenantID userID \<Longrightarrow> t_TenantID t = tenantID \<and> t_UserID t = userID \<and> TrimSpace userID \<noteq> []"
  by (auto simp: hasTaskAccess_def hasTaskTenantAccess_def split: if_splits)

lemma denied_methods:
  assumes "Store_GetTask S s taskID = Inr t" and "\<not> hasTaskAccess (Some t) tenantID userID"
  shows "GetForUser S s tenantID userID taskID = Inl (SvcStore ErrNotFound)"
    and "AbortForUser S others now s tenantID userID taskID areq = (s, Inl (SvcStore ErrNotFound))"
    and "GetRunForUser S others s tenantID userID taskID runID = (s, Inl (SvcStore ErrNotFound))"
    and "ReplayEventsForUser S others s tenantID userID taskID runID fromSeq fromTS limit = (s, Inl (SvcStore ErrNotFound))"
    and "CompactRunEventsForUser S others s tenantID userID taskID runID beforeTS = (s, Inl (SvcStore ErrNotFound))"
    and "ListStepsForUser S others s tenantID userID taskID runID lo limit = (s, Inl (SvcStore ErrNotFound))"
  using assms by (simp_all add: GetForUser_def AbortForUser_def GetRunForUser_def ReplayEventsForUser_def
      CompactRunEventsForUser_def ListStepsForUser_def with_run_def)

lemma denied_resume:
  assumes "Store_GetTask S (svc_store v) taskID = Inr t"
    and "\<not> hasTaskAccess (Some t) (rq_TenantID req) (rq_UserID req)"
  shows "\<exists>e. Service_Resume E S enq others clk rnd v taskID (Some req) = (v, Inl e)"
  using assms by (auto simp: Service_Resume_def)



section \<open>Creation and resume over any store and queue\<close>

text \<open>
  A service between a store and a queue that keep their contracts, with other clients of the
  store: they keep its invariant, and stored tasks keep their identity.
\<close>

locale service_env = state_store S inv tasks runs steps + task_queue enq known key_of
  for S :: "'s Store" and inv and tasks and runs and steps
    and enq :: "'q \<Rightarrow> SQSMessage \<Rightarrow> 'q \<times> string option" and known and key_of +
  fixes others :: "'s interference"
  assumes others_inv: "inv s \<Longrightarrow> inv (others i s)"
    and others_tasks: "inv s \<Longrightarrow> tasks s t = Some x
      \<Longrightarrow> \<exists>x'. tasks (others i s) t = Some x' \<and> task_identity x' = task_identity x"
begin

lemma create_new_stored:
  assumes "inv (svc_store v)" and "cq_IdempotencyKey req = []"
    and "create_new E S enq others clk rnd v req mc = (v', Inr resp)"
  defines "taskID \<equiv> NewID ''task_'' (rnd 0)" and "runID \<equiv> NewID ''run_'' (rnd 1)"
  shows "resp = \<lparr>cp_TaskID = taskID, cp_RunID = runID\<rparr> \<and> inv (svc_store v')
    \<and> tasks (others 0 (svc_store v)) taskID = None
    \<and> tasks (svc_store v') = (tasks (others 0 (svc_store v)))(taskID \<mapsto> new_task req mc taskID runID (clk 0))
    \<and> runs (svc_store v') = (runs (others 0 (svc_store v)))
        (runKey taskID runID \<mapsto> new_run taskID runID (cq_TenantID req) (clk 0) [] None mc)
    \<and> key_of (run_message E (new_task req mc taskID runID (clk 0))
        (new_run taskID runID (cq_TenantID req) (clk 0) [] None mc) (clk 0)) \<in> known (svc_queue v')"
proof -
  let ?t = "new_task req mc taskID runID (clk 0)"
  let ?r = "new_run taskID runID (cq_TenantID req) (clk 0) [] None mc"
  obtain s1 e where tr: "Store_ApplyCreateTransition S (clk 1) (others 0 (svc_store v)) ?t ?r = (s1, e)"
    by fastforce
  have e: "e = None"
    using assms(2,3) tr unfolding taskID_def runID_def by (cases e) (auto simp: create_new_def Let_def)
  have stamped: "ensureQueuedAt (Some ?r) now = Some ?r" for now
    by (simp add: ensureQueuedAt_def new_run_def)
  obtain q1 e1 where q: "enq (svc_queue v) (run_message E ?t ?r (clk 0)) = (q1, e1)" by fastforce
  have queued: "enqueueQueuedRun E enq (svc_queue v) (Some ?t) (Some ?r) (clk 0) = (q1, e1)"
    using q by (simp add: enqueueQueuedRun_def new_task_def new_run_def)
  have res: "v' = \<lparr>svc_store = s1, svc_queue = q1\<rparr>" "e1 = None" "resp = \<lparr>cp_TaskID = taskID, cp_RunID = runID\<rparr>"
    using assms(3) tr e queued unfolding taskID_def runID_def
    by (auto simp: create_new_def Let_def split: option.splits)
  have ids: "t_TaskID ?t = taskID" "r_TaskID ?r = taskID" "r_RunID ?r = runID"
    by (simp_all add: new_task_def new_run_def)
  show ?thesis
    using create_ok [OF others_inv [OF assms(1)] tr [unfolded e]] q res stamped ids enq_ok [of "svc_queue v"]
    by auto
qed

lemma resume_stored:
  assumes "inv (svc_store v)" and "Service_Resume E S enq others clk rnd v taskID (Some req) = (v', Inr resp)"
  defines "runID \<equiv> NewID ''run_'' rnd"
  shows "\<exists>mc x step. resp = \<lparr>rp_TaskID = taskID, rp_RunID = runID\<rparr> \<and> inv (svc_store v')
    \<and> steps (others 1 (others 0 (svc_store v))) (stepKey (rq_FromRunID req) (rq_FromStepIndex req)) = Some step
    \<and> s_CheckpointRef step \<noteq> None
    \<and> t_TenantID x = rq_TenantID req \<and> t_UserID x = rq_UserID req
    \<and> tasks (svc_store v') taskID = Some x \<and> t_Status x = TaskStatusQueued \<and> t_ActiveRunID x = runID
    \<and> \<not> t_AbortRequested x
    \<and> runs (svc_store v') (runKey taskID runID) = Some
        (new_run taskID runID (rq_TenantID req) (clk 0) (rq_FromRunID req) (Some (rq_FromStepIndex req)) mc)
    \<and> (\<exists>m. m_TaskID m = taskID \<and> m_RunID m = runID \<and> m_TenantID m = rq_TenantID req \<and> m_Attempt m = 1
         \<and> key_of m \<in> known (svc_queue v'))"
proof -
  let ?s2 = "others 2 (others 1 (others 0 (svc_store v)))"
  obtain task where task: "Store_GetTask S (svc_store v) taskID = Inr task"
    "hasTaskAccess (Some task) (rq_TenantID req) (rq_UserID req)"
    using assms(2) by (auto simp: Service_Resume_def split: if_splits sum.splits)
  obtain step mc where step: "Store_GetStep S (others 1 (others 0 (svc_store v))) (rq_FromRunID req) (rq_FromStepIndex req) = Inr step"
    "s_CheckpointRef step \<noteq> None"
    and run: "resume_run E S enq others clk rnd (v\<lparr>svc_store := ?s2\<rparr>) taskID req task mc = (v', Inr resp)"
    using assms(2) task by (auto simp: Service_Resume_def Let_def split: if_splits sum.splits)
  have inv2: "inv (others 1 (others 0 (svc_store v)))" "inv ?s2" using assms(1) others_inv by blast+
  let ?r = "new_run taskID runID (rq_TenantID req) (clk 0) (rq_FromRunID req) (Some (rq_FromStepIndex req)) mc"
  let ?m = "resume_message E task req taskID runID (clk 0) mc"
  obtain s3 e where tr: "Store_ApplyResumeTransition S (clk 1) (clk 2) ?s2 taskID ?r
      [TaskStatusQueued, TaskStatusSucceeded, TaskStatusFailed, TaskStatusAborted] TaskStatusQueued = (s3, e)"
    by fastforce
  obtain q1 e1 where q: "enq (svc_queue v) ?m = (q1, e1)" by fastforce
  have ok: "e = None" "e1 = None" "v' = \<lparr>svc_store = s3, svc_queue = q1\<rparr>"
    "resp = \<lparr>rp_TaskID = taskID, rp_RunID = runID\<rparr>"
    using run tr q unfolding runID_def by (auto simp: resume_run_def Let_def split: option.splits)
  have "ensureQueuedAt (Some ?r) (clk 1) = Some ?r" by (simp add: ensureQueuedAt_def new_run_def)
  with resume_ok [OF inv2(2) tr [unfolded ok(1)]] obtain x where x:
    "tasks ?s2 taskID = Some x" "inv s3" "runs s3 (runKey taskID runID) = Some ?r"
    "tasks s3 taskID = Some (x\<lparr>t_ActiveRunID := runID, t_AbortRequested := False, t_AbortReason := [],
       t_AbortTS := None, t_Status := TaskStatusQueued, t_UpdatedAt := clk 2\<rparr>)"
    by (auto simp: new_run_def)
  obtain x' where "tasks ?s2 taskID = Some x'" "task_identity x' = task_identity task"
    using others_tasks [OF assms(1) get_task_ok [OF assms(1) task(1)]] others_tasks others_inv assms(1) by metis
  then have "t_TenantID x = rq_TenantID req \<and> t_UserID x = rq_UserID req"
    using x(1) access_owner [OF task(2)] by (auto simp: task_identity_def)
  moreover have "m_TaskID ?m = taskID \<and> m_RunID ?m = runID \<and> m_TenantID ?m = rq_TenantID req \<and> m_Attempt ?m = 1"
    by (simp add: resume_message_def)
  ultimately show ?thesis
    using x ok step(2) get_step_ok [OF inv2(1) step(1)] enq_ok [OF q [unfolded ok(2)]]
    by (intro exI [of _ mc] exI [of _ "x\<lparr>t_ActiveRunID := runID, t_AbortRequested := False, t_AbortReason := [],
       t_AbortTS := None, t_Status := TaskStatusQueued, t_UpdatedAt := clk 2\<rparr>"] exI [of _ step]) auto
qed

end

interpretation service: service_env memory_store store_wf task_view run_view step_view
    "\<lambda>q m. Enqueue now eclk sent ctxErr q (Some m)" known_keys "\<lambda>m. mkey (enqueue_copy m)" "clients ops"
  for now eclk sent ctxErr ops
  by unfold_locales (auto simp: run_ops_wf intro: extends_task [OF run_ops_extends])

section \<open>Creation\<close>

abbreviation mem_create ::
  "goenv \<Rightarrow> ('q \<Rightarrow> SQSMessage \<Rightarrow> 'q \<times> string option) \<Rightarrow> (nat \<Rightarrow> StoreOp list) \<Rightarrow> clock \<Rightarrow> (nat \<Rightarrow> nat list)
   \<Rightarrow> (MemoryStore, 'q) Service \<Rightarrow> CreateRequest \<Rightarrow> (MemoryStore, 'q) Service \<times> (SvcErr + CreateResponse)" where
  "mem_create E enq ops clk rnd v req \<equiv> Service_Create E memory_store enq (clients ops) clk rnd v (Some req)"

lemma create_checked:
  assumes "Service_Create E S enq others clk rnd v (Some req) = (v', Inr resp)"
  obtains mc where "normalizeAndValidateModelConfig E (cq_ModelConfig req) = Inr mc"
    and "Validate E (cq_Prompt req) (LoadFromEnv E) = None"
    and "check_create E (Some req) = Inr (req, mc)"
  using assms
  by (auto simp: Service_Create_def check_create_def split: if_splits sum.splits option.splits PromptErr.splits)

lemma create_plain:
  assumes "Service_Create E S enq others clk rnd v (Some req) = (v', Inr resp)"
    and "cq_IdempotencyKey req = []" and "check_create E (Some req) = Inr (req, mc)"
  shows "create_new E S enq others clk rnd v req mc = (v', Inr resp)"
  using assms by (simp add: Service_Create_def)


definition sample_request :: CreateRequest where
  "sample_request = \<lparr>cq_TenantID = ''acme'', cq_UserID = ''u1'', cq_Prompt = ''hi'',
     cq_ModelConfig = None, cq_IdempotencyKey = []\<rparr>"

definition sample_service :: "(MemoryStore, MemoryQueue) Service" where
  "sample_service = \<lparr>svc_store = NewMemoryStore, svc_queue = NewMemoryQueue 10\<rparr>"

lemma sample_trim: "TrimSpace ''acme'' = ''acme''" "TrimSpace ''u1'' = ''u1''" "TrimSpace ''hi'' = ''hi''"
  "TrimSpace [] = []"
  by code_simp+

lemma sample_runes: "RuneCountInString ''hi'' = 2"
  by (simp add: RuneCountInString_def runes_def runes_of.simps)

text \<open>A new queue with the default limits admits its first message, whatever it is.\<close>

lemma first_enqueue: "snd (Enqueue now clk True ctxErr (NewMemoryQueue n) (Some m)) = None"
proof -
  define pol where "pol = mg_defaultPolicy (the (qc_TenantManager DefaultMemoryQueueConfig))"
  have pol: "p_MaxQueued pol = 2048" "p_RateLimitPerMinute pol = 1200" "p_TokenBudget pol = 0" "p_CostBudget pol = 0"
    by (simp_all add: pol_def DefaultMemoryQueueConfig_def NewManager_def normalizePolicy_def Let_def)
  have st: "snd (TryEnqueue_st c pol t info new_tenantState) = None" for c t info
    by (simp add: TryEnqueue_st_def new_tenantState_def maybeRecoverBreakerLocked_def pruneOld_def pol Let_def)
  let ?q = "NewMemoryQueue n" and ?M = "NewManager \<lparr>p_MaxRunning = 8, p_MaxQueued = 2048, p_RateLimitPerMinute = 1200,
    p_MaxConsecutiveErrors = 8, p_BreakerCooldown = 30 * Second, p_TokenBudget = 0, p_CostBudget = 0,
    p_AlertQueueDepth = 0, p_AlertErrorBurst = 0, p_AlertBudgetPct = 0\<rparr>"
  have M: "qc_TenantManager (q_cfg ?q) = Some ?M"
    by (simp add: NewMemoryQueue_def NewMemoryQueueWithConfig_def DefaultMemoryQueueConfig_def Let_def)
  have empty: "q_inQueue ?q = {}" "q_inFlight ?q = {}" "q_recent ?q = []"
    by (simp_all add: NewMemoryQueue_def NewMemoryQueueWithConfig_def Let_def)
  have try_: "snd (TryEnqueue c ?M t info) = None" for c t info
  proof -
    have "policyLocked ?M t = pol" "stateLocked ?M t = (put_state ?M t new_tenantState, new_tenantState)"
      by (simp_all add: policyLocked_def stateLocked_def pol_def DefaultMemoryQueueConfig_def NewManager_def put_state_def)
    then show ?thesis using st by (simp add: TryEnqueue_def Let_def split_beta)
  qed
  have "Enqueue_reserve now ?q cp = (?q\<lparr>q_inQueue := {mkey cp}\<rparr>, True)" for cp
    using empty by (simp add: Enqueue_reserve_def pruneRecentLocked_def Let_def)
  moreover obtain m' where "TryEnqueue clk ?M (m_TenantID (enqueue_copy m)) \<lparr>a_MessageKey = mkey (enqueue_copy m),
      a_EstimatedTokens = m_EstimatedTokens (enqueue_copy m), a_EstimatedCost = m_EstimatedCost (enqueue_copy m)\<rparr> = (m', None)"
    using try_ by (metis prod.collapse)
  ultimately show ?thesis
    by (simp add: Enqueue_def Enqueue_admit_def Let_def M)
qed

definition sample_ids :: "nat \<Rightarrow> nat list" where
  "sample_ids i = [i]"

lemma sample_ids: "NewID ''task_'' (sample_ids 0) = ''task_00''" "NewID ''run_'' (sample_ids (Suc 0)) = ''run_01''"
  by (simp_all add: NewID_def sample_ids_def fmt_x_def hex_char_def)

text \<open>A creation on an empty service answers with the new ids, for any request that passes the checks.\<close>

lemma first_create:
  assumes "check_create E (Some req) = Inr (req, mc)"
  shows "\<exists>v. mem_create E (\<lambda>q m. Enqueue now eclk True ctxErr q (Some m)) (\<lambda>_. []) clk sample_ids sample_service req
    = (v, Inr \<lparr>cp_TaskID = ''task_00'', cp_RunID = ''run_01''\<rparr>)"
proof -
  let ?t = "new_task req mc ''task_00'' ''run_01'' (clk 0)"
  let ?r = "new_run ''task_00'' ''run_01'' (cq_TenantID req) (clk 0) [] None mc"
  let ?enq = "\<lambda>q m. Enqueue now eclk True ctxErr q (Some m)"
  have "\<exists>s'. Store_ApplyCreateTransition memory_store (clk (Suc 0)) NewMemoryStore ?t ?r = (s', None)"
    by (simp add: memory_store_def ApplyCreateTransition_def ensureQueuedAt_def new_task_def new_run_def
        NewMemoryStore_def gm_has_def)
  moreover have "\<exists>q'. enqueueQueuedRun E ?enq (NewMemoryQueue 10) (Some ?t) (Some ?r) (clk 0) = (q', None)"
    using first_enqueue by (simp add: enqueueQueuedRun_def new_task_def new_run_def prod_eq_iff)
  ultimately have new: "\<exists>v. create_new E memory_store ?enq (clients (\<lambda>_. [])) clk sample_ids sample_service req mc
      = (v, Inr \<lparr>cp_TaskID = ''task_00'', cp_RunID = ''run_01''\<rparr>)"
    by (auto simp: create_new_def sample_ids sample_service_def run_ops_def Let_def)
  have "Store_GetTaskByIdempotencyKey memory_store (svc_store sample_service) a b = Inl ErrNotFound" for a b
    by (simp add: memory_store_def GetTaskByIdempotencyKey_def sample_service_def NewMemoryStore_def)
  with new assms show ?thesis by (simp add: Service_Create_def)
qed

lemma sample_checked:
  "check_create sample_env (Some (sample_request\<lparr>cq_IdempotencyKey := k\<rparr>)) = Inr (sample_request\<lparr>cq_IdempotencyKey := k\<rparr>, None)"
  by (simp add: check_create_def sample_request_def sample_trim sample_runes Validate_def LoadFromEnv_def
    sample_env_def normalizeAndValidateModelConfig_def DefaultMaxChars_def)

abbreviation sample_enq :: "MemoryQueue \<Rightarrow> SQSMessage \<Rightarrow> MemoryQueue \<times> string option" where
  "sample_enq \<equiv> (\<lambda>q m. Enqueue 7 (\<lambda>_. 7) True [] q (Some m))"

lemma sample_wf: "store_wf (svc_store sample_service)"
  by (simp add: sample_service_def wf_NewMemoryStore)


subsection \<open>Idempotency keys\<close>

lemma mem_idempotent_lookup:
  assumes "store_wf s"
  shows "GetTaskByIdempotencyKey s tn k = Inr t \<Longrightarrow> gm_get (db_idempotency s) (idempKey tn k) = Some (t_TaskID t)"
    and "gm_get (db_idempotency s) (idempKey tn k) = Some tid
      \<Longrightarrow> \<exists>t. GetTaskByIdempotencyKey s tn k = Inr t \<and> t_TaskID t = tid"
  using assms wf_task_key [OF assms] wf_idempotency [OF assms]
  by (auto simp: GetTaskByIdempotencyKey_def gm_has_def split: option.splits)

lemma ensureActive_store:
  "ensureActiveQueuedRunEnqueued E S enq now v t = (v', err) \<Longrightarrow> svc_store v' = svc_store v"
  by (auto simp: ensureActiveQueuedRunEnqueued_def split: option.splits sum.splits if_splits prod.splits)

lemma extends_idempotency:
  "store_extends s s' \<Longrightarrow> gm_get (db_idempotency s) k = Some tid \<Longrightarrow> gm_get (db_idempotency s') k = Some tid"
  by (auto simp: store_extends_def gm_grows_def)

text \<open>After an answered creation with a key, the key resolves to the task of the answer.\<close>

lemma created_entry:
  assumes wf: "store_wf (svc_store v)" and key: "cq_IdempotencyKey req \<noteq> []"
    and res: "mem_create E enq ops clk rnd v req = (v', Inr resp)"
  shows "store_wf (svc_store v')
    \<and> gm_get (db_idempotency (svc_store v')) (idempKey (cq_TenantID req) (cq_IdempotencyKey req)) = Some (cp_TaskID resp)"
proof -
  let ?s0 = "run_ops (ops 0) (svc_store v)"
  have wf0: "store_wf ?s0" using wf by (rule run_ops_wf)
  obtain mc where mc: "check_create E (Some req) = Inr (req, mc)" using create_checked [OF res] by blast
  show ?thesis
  proof (cases "GetTaskByIdempotencyKey (svc_store v) (cq_TenantID req) (cq_IdempotencyKey req)")
    case (Inr t)
    then have look: "Store_GetTaskByIdempotencyKey memory_store (svc_store v) (cq_TenantID req) (cq_IdempotencyKey req) = Inr t"
      by (simp add: memory_store_def)
    have "svc_store v' = ?s0 \<and> cp_TaskID resp = t_TaskID t"
      using res key mc look by (auto simp: Service_Create_def dest!: ensureActive_store split: prod.splits option.splits)
    then show ?thesis
      using wf0 mem_idempotent_lookup(1) [OF wf Inr] extends_idempotency [OF run_ops_extends [OF wf]] by simp
  next
    case (Inl e)
    then have look: "Store_GetTaskByIdempotencyKey memory_store (svc_store v) (cq_TenantID req) (cq_IdempotencyKey req) = Inl e"
      by (simp add: memory_store_def)
    have new: "create_new E memory_store enq (clients ops) clk rnd v req mc = (v', Inr resp)"
      using res key mc look by (simp add: Service_Create_def split: if_splits)
    define tid rid where ids: "tid = NewID ''task_'' (rnd 0)" "rid = NewID ''run_'' (rnd 1)"
    define t where "t = new_task req mc tid rid (clk 0)"
    define r where "r = new_run tid rid (cq_TenantID req) (clk 0) [] None mc"
    obtain s1 err where tr: "ApplyCreateTransition (clk 1) ?s0 (Some t) (Some r) = (s1, err)" by fastforce
    have tr': "Store_ApplyCreateTransition memory_store (clk 1) ?s0 t r = (s1, err)"
      using tr by (simp add: memory_store_def)
    show ?thesis
    proof (cases err)
      case None
      have "svc_store v' = s1 \<and> cp_TaskID resp = tid"
        using new tr' None unfolding create_new_def Let_def ids [symmetric] t_def [symmetric] r_def [symmetric]
        by (auto split: prod.splits option.splits)
      moreover have "store_wf s1" using wf_ApplyCreateTransition [OF wf0] tr by (metis fst_conv)
      moreover have "gm_get (db_idempotency s1) (idempKey (cq_TenantID req) (cq_IdempotencyKey req)) = Some tid"
        using tr None key by (auto simp: ApplyCreateTransition_def t_def new_task_def gomap_simps split: option.splits if_splits)
      ultimately show ?thesis by simp
    next
      case (Some e')
      have s1: "s1 = ?s0" using mem.create_err [OF wf0] tr' Some by blast
      then have wf2: "store_wf (run_ops (ops 1) s1)" using run_ops_wf [OF wf0] by simp
      obtain t' where t': "GetTaskByIdempotencyKey (run_ops (ops 1) s1) (cq_TenantID req) (cq_IdempotencyKey req) = Inr t'"
        "svc_store v' = run_ops (ops 1) s1" "cp_TaskID resp = t_TaskID t'"
        using new tr' Some unfolding create_new_def Let_def ids [symmetric] t_def [symmetric] r_def [symmetric]
        by (auto simp: memory_store_def split: prod.splits sum.splits if_splits)
      then show ?thesis using wf2 mem_idempotent_lookup(1) [OF wf2 t'(1)] by simp
    qed
  qed
qed

lemma second_create:
  assumes wf: "store_wf (svc_store v)" and key: "cq_IdempotencyKey req \<noteq> []"
    and entry: "gm_get (db_idempotency (svc_store v)) (idempKey (cq_TenantID req) (cq_IdempotencyKey req)) = Some tid"
    and res: "mem_create E enq ops clk rnd v req = (v', Inr resp)"
  shows "cp_TaskID resp = tid \<and> svc_store v' = run_ops (ops 0) (svc_store v)"
proof -
  obtain mc where mc: "check_create E (Some req) = Inr (req, mc)" using create_checked [OF res] by blast
  obtain t where t: "Store_GetTaskByIdempotencyKey memory_store (svc_store v) (cq_TenantID req) (cq_IdempotencyKey req) = Inr t"
    "t_TaskID t = tid"
    using mem_idempotent_lookup(2) [OF wf entry] by (auto simp: memory_store_def)
  with res key mc show ?thesis
    by (auto simp: Service_Create_def dest!: ensureActive_store split: prod.splits option.splits)
qed

text \<open>
  C6. Creation is idempotent: once a request with an idempotency key was answered, every later
  request of the tenant with that key that is answered names the same task and creates
  nothing, whatever other clients do to the store before, between and during the two.
\<close>

theorem create_idempotent:
  assumes "store_wf (svc_store v)" and "cq_IdempotencyKey req \<noteq> []"
    and "mem_create E enq ops clk rnd v req = (v1, Inr resp)"
    and "svc_store v2 = run_ops between (svc_store v1)"
    and "mem_create E' enq' ops' clk' rnd' v2 req' = (v3, Inr resp')"
    and "cq_TenantID req' = cq_TenantID req" and "cq_IdempotencyKey req' = cq_IdempotencyKey req"
  shows "cp_TaskID resp' = cp_TaskID resp \<and> svc_store v3 = run_ops (ops' 0) (svc_store v2)"
proof -
  note e = created_entry [OF assms(1-3)]
  have wf2: "store_wf (svc_store v2)" using e run_ops_wf assms(4) by simp
  have "gm_get (db_idempotency (svc_store v2)) (idempKey (cq_TenantID req') (cq_IdempotencyKey req')) = Some (cp_TaskID resp)"
    using e assms(4,6,7) extends_idempotency [OF run_ops_extends] by simp
  from second_create [OF wf2 _ this assms(5)] assms(2,7) show ?thesis by simp
qed

lemma sample_first:
  obtains v where "mem_create sample_env sample_enq (\<lambda>_. []) (\<lambda>_. 7) sample_ids sample_service
      (sample_request\<lparr>cq_IdempotencyKey := k\<rparr>) = (v, Inr \<lparr>cp_TaskID = ''task_00'', cp_RunID = ''run_01''\<rparr>)"
  using first_create [OF sample_checked] by blast

text \<open>What a repeated creation meets: a task that is no longer queued is only looked up.\<close>

lemma repeated_create:
  assumes "check_create E (Some req) = Inr (req, mc)" and "cq_IdempotencyKey req \<noteq> []"
    and "GetTaskByIdempotencyKey (svc_store v) (cq_TenantID req) (cq_IdempotencyKey req) = Inr t"
    and "t_ActiveRunID t = []"
  shows "mem_create E enq (\<lambda>_. []) clk rnd v req = (v, Inr \<lparr>cp_TaskID = t_TaskID t, cp_RunID = []\<rparr>)"
  using assms by (simp add: Service_Create_def memory_store_def ensureActiveQueuedRunEnqueued_def run_ops_def)

theorem create_idempotent_witness:
  "\<exists>v1 v2 v3 resp'. mem_create sample_env sample_enq (\<lambda>_. []) (\<lambda>_. 7) sample_ids sample_service
       (sample_request\<lparr>cq_IdempotencyKey := ''k''\<rparr>) = (v1, Inr \<lparr>cp_TaskID = ''task_00'', cp_RunID = ''run_01''\<rparr>)
    \<and> svc_store v2 = run_ops [OpSetActiveRun 8 ''task_00'' []] (svc_store v1)
    \<and> mem_create sample_env sample_enq (\<lambda>_. []) (\<lambda>_. 7) sample_ids v2
       (sample_request\<lparr>cq_IdempotencyKey := ''k''\<rparr>) = (v3, Inr resp')
    \<and> cp_TaskID resp' = ''task_00'' \<and> svc_store v3 = svc_store v2"
proof -
  let ?req = "sample_request\<lparr>cq_IdempotencyKey := ''k''\<rparr>"
  obtain v1 where v1: "mem_create sample_env sample_enq (\<lambda>_. []) (\<lambda>_. 7) sample_ids sample_service ?req
      = (v1, Inr \<lparr>cp_TaskID = ''task_00'', cp_RunID = ''run_01''\<rparr>)"
    by (rule sample_first)
  have key: "cq_IdempotencyKey ?req \<noteq> []" by simp
  note e = created_entry [OF sample_wf key v1]
  define v2 where "v2 = v1\<lparr>svc_store := run_ops [OpSetActiveRun 8 ''task_00'' []] (svc_store v1)\<rparr>"
  have wf2: "store_wf (svc_store v2)" using e run_ops_wf by (simp add: v2_def)
  have "gm_get (db_idempotency (svc_store v2)) (idempKey (cq_TenantID ?req) ''k'') = Some ''task_00''"
    using e extends_idempotency [OF run_ops_extends] by (simp add: v2_def)
  then obtain t where t: "GetTaskByIdempotencyKey (svc_store v2) (cq_TenantID ?req) ''k'' = Inr t" "t_TaskID t = ''task_00''"
    using mem_idempotent_lookup(2) [OF wf2] by blast
  then have "task_view (svc_store v2) ''task_00'' = Some t"
    using wf_task_key [OF wf2] by (auto simp: GetTaskByIdempotencyKey_def view_defs split: option.splits)
  then have "t_ActiveRunID t = []"
    by (auto simp: v2_def run_ops_def SetActiveRun_def view_defs gomap_simps split: option.splits)
  with t have again: "mem_create sample_env sample_enq (\<lambda>_. []) (\<lambda>_. 7) sample_ids v2 ?req
      = (v2, Inr \<lparr>cp_TaskID = ''task_00'', cp_RunID = []\<rparr>)"
    using repeated_create [OF sample_checked, of "''k''" v2 t] by simp
  have v2: "svc_store v2 = run_ops [OpSetActiveRun 8 ''task_00'' []] (svc_store v1)" by (simp add: v2_def)
  have "cp_TaskID \<lparr>cp_TaskID = ''task_00'', cp_RunID = []\<rparr> = ''task_00'' \<and> svc_store v2 = svc_store v2"
    using create_idempotent [OF sample_wf key v1 v2 again refl refl] by simp
  with v1 v2 again show ?thesis by blast
qed

text \<open>
  C40. The idempotency keys of different tenants collide when a tenant id contains the separator:
  a creation by tenant \<open>a\<close> with key \<open>b#c\<close> after one by tenant \<open>a#b\<close> with key \<open>c\<close> is answered
  with the task of the other tenant, which the caller may not even read, and creates no task.
\<close>

theorem idempotency_keys_collide:
  assumes "store_wf (svc_store v)" and "c \<noteq> []"
    and "cq_TenantID req = a @ ''#'' @ b" and "cq_IdempotencyKey req = c"
    and "mem_create E enq ops clk rnd v req = (v1, Inr resp)"
    and "cq_TenantID req' = a" and "cq_IdempotencyKey req' = b @ ''#'' @ c"
    and "mem_create E' enq' (\<lambda>_. []) clk' rnd' v1 req' = (v2, Inr resp')"
  shows "cp_TaskID resp' = cp_TaskID resp \<and> svc_store v2 = svc_store v1"
proof -
  have key: "cq_IdempotencyKey req \<noteq> []" using assms(2,4) by simp
  note e = created_entry [OF assms(1) key assms(5)]
  have "idempKey (cq_TenantID req) (cq_IdempotencyKey req) = idempKey (cq_TenantID req') (cq_IdempotencyKey req')"
    by (simp add: idempKey_def assms)
  with e have "gm_get (db_idempotency (svc_store v1)) (idempKey (cq_TenantID req') (cq_IdempotencyKey req')) = Some (cp_TaskID resp)"
    by simp
  from second_create [OF _ _ this assms(8)] e show ?thesis by (simp add: assms(7) run_ops_def)
qed

definition other_tenant_store :: MemoryStore where
  "other_tenant_store = NewMemoryStore
     \<lparr>db_tasks := [(''t9'', sample_task\<lparr>t_TaskID := ''t9'', t_TenantID := ''a#b'', t_IdempotencyKey := ''c'', t_ActiveRunID := []\<rparr>)],
      db_idempotency := [(''a#b#c'', ''t9'')]\<rparr>"

theorem idempotency_keys_collide_witness:
  "\<exists>v2 resp'. mem_create sample_env sample_enq (\<lambda>_. []) (\<lambda>_. 7) sample_ids
       \<lparr>svc_store = other_tenant_store, svc_queue = NewMemoryQueue 10\<rparr>
       (sample_request\<lparr>cq_TenantID := ''a'', cq_IdempotencyKey := ''b#c''\<rparr>) = (v2, Inr resp')
    \<and> cp_TaskID resp' = ''t9''
    \<and> GetForUser memory_store (svc_store v2) ''a'' ''u1'' ''t9'' = Inl (SvcStore ErrNotFound)"
proof -
  let ?v = "\<lparr>svc_store = other_tenant_store, svc_queue = NewMemoryQueue 10\<rparr>"
  let ?r1 = "sample_request\<lparr>cq_TenantID := ''a#b'', cq_IdempotencyKey := ''c''\<rparr>"
  let ?r2 = "sample_request\<lparr>cq_TenantID := ''a'', cq_IdempotencyKey := ''b#c''\<rparr>"
  have trim: "TrimSpace ''a#b'' = ''a#b''" "TrimSpace ''a'' = ''a''" by code_simp+
  have chk: "check_create sample_env (Some (sample_request\<lparr>cq_TenantID := tn, cq_IdempotencyKey := k\<rparr>))
      = Inr (sample_request\<lparr>cq_TenantID := tn, cq_IdempotencyKey := k\<rparr>, None)" if "TrimSpace tn = tn" "tn \<noteq> []" for tn k
    using that by (simp add: check_create_def sample_request_def sample_trim sample_runes Validate_def LoadFromEnv_def
      sample_env_def normalizeAndValidateModelConfig_def DefaultMaxChars_def)
  have wf: "store_wf (svc_store ?v)"
    by (simp add: other_tenant_store_def NewMemoryStore_def store_wf_def gm_has_def sample_task_def)
  have look: "GetTaskByIdempotencyKey (svc_store ?v) tn k =
      Inr (sample_task\<lparr>t_TaskID := ''t9'', t_TenantID := ''a#b'', t_IdempotencyKey := ''c'', t_ActiveRunID := []\<rparr>)"
    if "idempKey tn k = ''a#b#c''" for tn k
    using that by (simp add: GetTaskByIdempotencyKey_def other_tenant_store_def NewMemoryStore_def)
  have c1: "mem_create sample_env sample_enq (\<lambda>_. []) (\<lambda>_. 7) sample_ids ?v ?r1 = (?v, Inr \<lparr>cp_TaskID = ''t9'', cp_RunID = []\<rparr>)"
    using repeated_create [OF chk [OF trim(1)] _ look] by (simp add: idempKey_def)
  have c2: "mem_create sample_env sample_enq (\<lambda>_. []) (\<lambda>_. 7) sample_ids ?v ?r2 = (?v, Inr \<lparr>cp_TaskID = ''t9'', cp_RunID = []\<rparr>)"
    using repeated_create [OF chk [OF trim(2)] _ look] by (simp add: idempKey_def)
  have "cp_TaskID \<lparr>cp_TaskID = ''t9'', cp_RunID = []\<rparr> = ''t9''"
    using idempotency_keys_collide [OF wf _ _ _ c1 _ _ c2, of "''c''" "''a''" "''b''"] by simp
  moreover have "GetForUser memory_store (svc_store ?v) ''a'' ''u1'' ''t9'' = Inl (SvcStore ErrNotFound)"
    by (simp add: GetForUser_def memory_store_def GetTask_def other_tenant_store_def NewMemoryStore_def
        hasTaskAccess_def hasTaskTenantAccess_def)
  ultimately show ?thesis using c2 by blast
qed

section \<open>Resume\<close>

abbreviation mem_resume ::
  "goenv \<Rightarrow> ('q \<Rightarrow> SQSMessage \<Rightarrow> 'q \<times> string option) \<Rightarrow> (nat \<Rightarrow> StoreOp list) \<Rightarrow> clock \<Rightarrow> nat list
   \<Rightarrow> (MemoryStore, 'q) Service \<Rightarrow> string \<Rightarrow> ResumeRequest \<Rightarrow> (MemoryStore, 'q) Service \<times> (SvcErr + ResumeResponse)" where
  "mem_resume E enq ops clk rnd v taskID req \<equiv> Service_Resume E memory_store enq (clients ops) clk rnd v taskID (Some req)"

text \<open>
  C22. A resume that is answered went through a stored step with a checkpoint, on a task the
  caller owns; afterwards the task is queued with the new run active and no abort pending, the
  new run is queued with the run and step to continue from, and the queue knows its message.
\<close>

theorem resume_queued:
  assumes "store_wf (svc_store v)"
    and "mem_resume E (\<lambda>q m. Enqueue now eclk sent ctxErr q (Some m)) ops clk rnd v taskID req = (v', Inr resp)"
  shows "\<exists>mc x step m. resp = \<lparr>rp_TaskID = taskID, rp_RunID = NewID ''run_'' rnd\<rparr> \<and> store_wf (svc_store v')
    \<and> step_view (run_ops (ops 1) (run_ops (ops 0) (svc_store v))) (stepKey (rq_FromRunID req) (rq_FromStepIndex req)) = Some step
    \<and> s_CheckpointRef step \<noteq> None
    \<and> task_view (svc_store v') taskID = Some x \<and> t_TenantID x = rq_TenantID req \<and> t_UserID x = rq_UserID req
    \<and> t_Status x = TaskStatusQueued \<and> t_ActiveRunID x = rp_RunID resp \<and> \<not> t_AbortRequested x
    \<and> run_view (svc_store v') (runKey taskID (rp_RunID resp)) = Some (new_run taskID (rp_RunID resp)
        (rq_TenantID req) (clk 0) (rq_FromRunID req) (Some (rq_FromStepIndex req)) mc)
    \<and> m_TaskID m = taskID \<and> m_RunID m = rp_RunID resp \<and> mkey (enqueue_copy m) \<in> known_keys (svc_queue v')"
  using service.resume_stored [OF assms] by auto

lemma mark_failed:
  assumes wf: "store_wf s" and t: "task_view s taskID = Some x" "t_ActiveRunID x = runID" "t_Status x = TaskStatusQueued"
    and r: "run_view s (runKey taskID runID) = Some y" and ids: "taskID \<noteq> []" "runID \<noteq> []"
  shows "task_view (markRunAndTaskFailed memory_store (\<lambda>_ s. s) clk s taskID runID) taskID
        = Some (x\<lparr>t_Status := TaskStatusFailed, t_UpdatedAt := clk 1\<rparr>)
    \<and> run_view (markRunAndTaskFailed memory_store (\<lambda>_ s. s) clk s taskID runID) (runKey taskID runID)
        = Some (y\<lparr>r_Status := RunStatusFailed, r_EndedAt := Some (clk 0)\<rparr>)"
  using t r ids by (simp add: markRunAndTaskFailed_def memory_store_def CompleteRun_def UpdateTaskStatusForRun_def
      view_defs gomap_simps)

text \<open>
  When the queue refuses the message of a resume, the new run does not linger: run and task
  are marked failed (unless other clients change them in between), and the caller gets the
  error of the queue.
\<close>

theorem resume_refused_fails:
  assumes "store_wf (svc_store v)"
    and "mem_resume E enq ops clk rnd v taskID req = (v', Inl (SvcQueue e))" and "ops 3 = []" and "ops 4 = []"
  shows "\<exists>x y. task_view (svc_store v') taskID = Some x \<and> t_Status x = TaskStatusFailed
    \<and> t_ActiveRunID x = NewID ''run_'' rnd
    \<and> run_view (svc_store v') (runKey taskID (NewID ''run_'' rnd)) = Some y \<and> r_Status y = RunStatusFailed
    \<and> r_ParentRunID y = rq_FromRunID req"
proof -
  let ?s2 = "run_ops (ops 2) (run_ops (ops 1) (run_ops (ops 0) (svc_store v)))" and ?id = "NewID ''run_'' rnd"
  have wf2: "store_wf ?s2" using assms(1) run_ops_wf by blast
  have vals: "normalizeAndValidateModelConfig E c \<noteq> Inl (SvcQueue e)" for c
    by (auto simp: normalizeAndValidateModelConfig_def validationError_def Let_def split: option.splits)
  obtain task mc where run: "resume_run E memory_store enq (clients ops) clk rnd (v\<lparr>svc_store := ?s2\<rparr>) taskID req task mc
      = (v', Inl (SvcQueue e))"
    using assms(2) vals by (auto simp: Service_Resume_def validationError_def Let_def split: if_splits sum.splits)
  define r where "r = new_run taskID ?id (rq_TenantID req) (clk 0) (rq_FromRunID req) (Some (rq_FromStepIndex req)) mc"
  obtain s3 err where tr: "ApplyResumeTransition (clk 1) (clk 2) ?s2 taskID (Some r)
      [TaskStatusQueued, TaskStatusSucceeded, TaskStatusFailed, TaskStatusAborted] TaskStatusQueued = (s3, err)"
    by fastforce
  obtain q1 e1 where q: "enq (svc_queue v) (resume_message E task req taskID ?id (clk 0) mc) = (q1, e1)" by fastforce
  have res: "err = None"
    "svc_store v' = markRunAndTaskFailed memory_store (\<lambda>i. run_ops (ops (i + 4))) (\<lambda>i. clk (i + 3)) s3 taskID ?id"
    using run tr q assms(3) by (auto simp: resume_run_def memory_store_def run_ops_def r_def Let_def split: option.splits)
  have st: "ensureQueuedAt (Some r) (clk 1) = Some r" by (simp add: r_def ensureQueuedAt_def new_run_def)
  have id: "?id \<noteq> []" "taskID \<noteq> []" "r_RunID r = ?id" "r_TaskID r = taskID"
    using tr res(1) st by (auto simp: NewID_def ApplyResumeTransition_def r_def new_run_def)
  have tr': "Store_ApplyResumeTransition memory_store (clk 1) (clk 2) ?s2 taskID r
      [TaskStatusQueued, TaskStatusSucceeded, TaskStatusFailed, TaskStatusAborted] TaskStatusQueued = (s3, None)"
    using tr res(1) by (simp add: memory_store_def)
  obtain x where x: "task_view s3 taskID = Some x" "t_ActiveRunID x = ?id" "t_Status x = TaskStatusQueued"
    and y: "run_view s3 (runKey taskID ?id) = Some r" and wf3: "store_wf s3"
    using mem.resume_ok [OF wf2 tr'] st id by auto
  have quiet: "markRunAndTaskFailed memory_store (\<lambda>i. run_ops (ops (i + 4))) (\<lambda>i. clk (i + 3)) s3 taskID ?id
      = markRunAndTaskFailed memory_store (\<lambda>_ s. s) (\<lambda>i. clk (i + 3)) s3 taskID ?id"
    using assms(4) by (simp add: markRunAndTaskFailed_def run_ops_def)
  show ?thesis
    using mark_failed [OF wf3 x y id(2,1), of "\<lambda>i. clk (i + 3)"] x(2) unfolding res(2) quiet
    by (auto simp: r_def new_run_def)
qed

definition ckpt_step :: Step where
  "ckpt_step = \<lparr>s_RunID = ''run_1'', s_StepIndex = 0, s_Type = StepTypeLLMCall, s_Status = StepStatusOK, s_Input = [],
     s_Output = [], s_TSStart = 5, s_TSEnd = 6, s_LatencyMS = 0, s_TokenUsage = None,
     s_CheckpointRef = Some \<lparr>cr_Memory = None, cr_Workspace = None\<rparr>, s_ErrorCode = [], s_ErrorMessage = []\<rparr>"

definition ckpt_store :: MemoryStore where
  "ckpt_store = sample_store\<lparr>db_steps := [(stepKey ''run_1'' 0, ckpt_step)]\<rparr>"

definition sample_resume :: ResumeRequest where
  "sample_resume = \<lparr>rq_TenantID = ''acme'', rq_UserID = ''u1'', rq_FromRunID = ''run_1'', rq_FromStepIndex = 0,
     rq_ModelConfigOverride = None\<rparr>"

lemma ckpt_store_wf: "store_wf ckpt_store"
  by (simp add: ckpt_store_def sample_store_eval store_wf_def NewMemoryStore_def gm_has_def sample_task_def
      sample_run_def ckpt_step_def runKey_def)

lemma sample_resume_result:
  assumes "snd (enq q (resume_message sample_env sample_task sample_resume ''task_1'' ''run_02'' 7 None)) = err"
  shows "\<exists>v'. mem_resume sample_env enq (\<lambda>_. []) (\<lambda>_. 7) [2] \<lparr>svc_store = ckpt_store, svc_queue = q\<rparr> ''task_1'' sample_resume
    = (v', case err of None \<Rightarrow> Inr \<lparr>rp_TaskID = ''task_1'', rp_RunID = ''run_02''\<rparr> | Some e \<Rightarrow> Inl (SvcQueue e))"
proof -
  have id: "NewID ''run_'' [2] = ''run_02''" by (simp add: NewID_def fmt_x_def hex_char_def)
  let ?v = "\<lparr>svc_store = ckpt_store, svc_queue = q\<rparr>"
  have reads: "GetTask ckpt_store ''task_1'' = Inr sample_task" "GetStep ckpt_store ''run_1'' 0 = Inr ckpt_step"
    "\<exists>r. GetRun ckpt_store ''task_1'' ''run_1'' = Inr r"
    by (simp_all add: ckpt_store_def sample_store_eval GetTask_def GetStep_def GetRun_def runKey_def)
  have access: "hasTaskAccess (Some sample_task) ''acme'' ''u1''" "t_ModelConfig sample_task = None" "s_CheckpointRef ckpt_step \<noteq> None"
    by (simp_all add: hasTaskAccess_def hasTaskTenantAccess_def sample_task_def sample_trim ckpt_step_def)
  have "mem_resume sample_env enq (\<lambda>_. []) (\<lambda>_. 7) [2] ?v ''task_1'' sample_resume
      = resume_run sample_env memory_store enq (clients (\<lambda>_. [])) (\<lambda>_. 7) [2] ?v ''task_1'' sample_resume sample_task None"
    using reads access by (auto simp: Service_Resume_def sample_resume_def sample_trim memory_store_def run_ops_def Let_def
        normalizeAndValidateModelConfig_def)
  moreover have "\<exists>s'. ApplyResumeTransition 7 7 ckpt_store ''task_1'' (Some (new_run ''task_1'' ''run_02'' ''acme'' 7 ''run_1'' (Some 0) None))
      [TaskStatusQueued, TaskStatusSucceeded, TaskStatusFailed, TaskStatusAborted] TaskStatusQueued = (s', None)"
    by (simp add: ApplyResumeTransition_def ensureQueuedAt_def new_run_def ckpt_store_def sample_store_eval
        gm_has_def runKey_def sample_task_def)
  ultimately show ?thesis
    using assms by (auto simp: resume_run_def id memory_store_def sample_resume_def Let_def split: option.splits prod.splits)
qed

theorem resume_queued_witness:
  "\<exists>v' x. mem_resume sample_env sample_enq (\<lambda>_. []) (\<lambda>_. 7) [2] \<lparr>svc_store = ckpt_store, svc_queue = NewMemoryQueue 10\<rparr>
       ''task_1'' sample_resume = (v', Inr \<lparr>rp_TaskID = ''task_1'', rp_RunID = ''run_02''\<rparr>)
    \<and> task_view (svc_store v') ''task_1'' = Some x \<and> t_ActiveRunID x = ''run_02''"
proof -
  have ok: "snd (sample_enq (NewMemoryQueue 10) m) = None" for m by (rule first_enqueue)
  then obtain v' where v': "mem_resume sample_env sample_enq (\<lambda>_. []) (\<lambda>_. 7) [2]
      \<lparr>svc_store = ckpt_store, svc_queue = NewMemoryQueue 10\<rparr> ''task_1'' sample_resume
      = (v', Inr \<lparr>rp_TaskID = ''task_1'', rp_RunID = ''run_02''\<rparr>)"
    using sample_resume_result [of sample_enq "NewMemoryQueue 10" None] by auto
  from resume_queued [OF _ v'] ckpt_store_wf v' show ?thesis by auto
qed

theorem resume_refused_fails_witness:
  "\<exists>v' x. mem_resume sample_env (\<lambda>q m. (q, Some ''full'')) (\<lambda>_. []) (\<lambda>_. 7) [2] \<lparr>svc_store = ckpt_store, svc_queue = ()\<rparr>
       ''task_1'' sample_resume = (v', Inl (SvcQueue ''full''))
    \<and> task_view (svc_store v') ''task_1'' = Some x \<and> t_Status x = TaskStatusFailed"
proof -
  obtain v' where v': "mem_resume sample_env (\<lambda>q m. (q, Some ''full'')) (\<lambda>_. []) (\<lambda>_. 7) [2]
      \<lparr>svc_store = ckpt_store, svc_queue = ()\<rparr> ''task_1'' sample_resume = (v', Inl (SvcQueue ''full''))"
    using sample_resume_result [of "\<lambda>q m. (q, Some ''full'')" "()"] by auto
  from resume_refused_fails [OF _ v'] ckpt_store_wf v' show ?thesis by auto
qed

end
