(* ===== verification/Routing.thy ===== *)
theory Routing
  imports Model
begin

text \<open>
  The language-model interface (\<open>pkg/engine/llm.go\<close>, \<open>tool.go\<close>), prices
  (\<open>pkg/engine/pricing.go\<close>) and the router (\<open>pkg/engine/router.go\<close>): which provider and
  model are tried in which order, and when an error moves on to the next one. A provider's
  client is a parameter; its calls return what the provider answers.
\<close>

section \<open>Requests, responses, tools\<close>

record ToolSpec =
  tsp_Name :: string
  tsp_Description :: string
  tsp_Parameters :: string

record ToolCall =
  tcl_ID :: string
  tcl_Name :: string
  tcl_Args :: string

record ToolResult =
  tr_Output :: string
  tr_Error :: string

record LLMRequest =
  lq_Messages :: "MemoryMessage list"
  lq_ModelConfig :: "ModelConfig option"
  lq_Tools :: "ToolSpec list"
  lq_TaskType :: string

record LLMResponse =
  lr_Content :: string
  lr_ToolCalls :: "ToolCall list"
  lr_TokenUsage :: "TokenUsage option"
  lr_FinishReason :: string
  lr_ModelID :: string
  lr_Provider :: string

section \<open>Prices\<close>

definition modelPricingOverridesEnv :: string where
  "modelPricingOverridesEnv = ''AGENTFORGE_MODEL_PRICING_OVERRIDES''"

definition defaultRequestModelPricingUSDPer1K :: "(string, float64) gomap" where
  "defaultRequestModelPricingUSDPer1K =
     [(''gpt-4o-mini'', f64 (35 / 100000)), (''gpt-4o'', f64 (5 / 1000)), (''gpt-4.1'', f64 (6 / 1000))]"

definition defaultUsageModelPricingUSDPer1K :: "(string, float64) gomap" where
  "defaultUsageModelPricingUSDPer1K =
     [(''gpt-4o-mini'', f64 (35 / 100000)), (''gpt-4o'', f64 (5 / 1000)), (''gpt-4.1'', f64 (6 / 1000)),
      (''claude-3-haiku'', f64 (8 / 10000)), (''claude-3-sonnet'', f64 (3 / 1000)), (''claude-3-opus'', f64 (15 / 1000))]"

text \<open>\<open>strings.SplitN(s, "=", 2)\<close> when it gives two parts.\<close>

definition split_pair :: "string \<Rightarrow> (string \<times> string) option" where
  "split_pair s =
     (case dropWhile (\<lambda>c. c \<noteq> CHR ''='') s of
        [] \<Rightarrow> None
      | _ # r \<Rightarrow> Some (takeWhile (\<lambda>c. c \<noteq> CHR ''='') s, r))"

definition apply_override :: "goenv \<Rightarrow> string \<Rightarrow> (string, float64) gomap \<Rightarrow> (string, float64) gomap" where
  "apply_override E entry merged =
     (case split_pair (TrimSpace entry) of
        None \<Rightarrow> merged
      | Some (p0, p1) \<Rightarrow>
          let model = ToLower E (TrimSpace p0)
          in if model = [] then merged
             else case ParseFloat (TrimSpace p1) of
                    None \<Rightarrow> merged
                  | Some rate \<Rightarrow> if rate \<le> 0 then merged else gm_put model rate merged)"

definition mergePricingOverrides :: "goenv \<Rightarrow> (string, float64) gomap \<Rightarrow> string \<Rightarrow> (string, float64) gomap" where
  "mergePricingOverrides E defaults raw =
     (let merged = fold (\<lambda>(model, rate) m. gm_put (ToLower E (TrimSpace model)) rate m) defaults []
      in if TrimSpace raw = [] then merged else fold (apply_override E) (Split raw '','') merged)"

definition resolveModelRateUSDPer1K :: "goenv \<Rightarrow> string \<Rightarrow> (string, float64) gomap \<Rightarrow> float64" where
  "resolveModelRateUSDPer1K E modelID defaults =
     (let rates = mergePricingOverrides E defaults (Getenv E modelPricingOverridesEnv);
          model = ToLower E (TrimSpace modelID);
          fallback = (case gm_get defaults ''gpt-4o-mini'' of Some r \<Rightarrow> r | None \<Rightarrow> 0)
      in if model \<noteq> [] then (case gm_get rates model of Some rate \<Rightarrow> rate | None \<Rightarrow> fallback) else fallback)"

definition EstimateUsageCostUSD :: "goenv \<Rightarrow> string \<Rightarrow> TokenUsage option \<Rightarrow> float64" where
  "EstimateUsageCostUSD E modelID usage =
     (case usage of
        None \<Rightarrow> 0
      | Some u \<Rightarrow>
          if tu_Total u \<le> 0 then 0
          else f64_mul (f64_div (f64_of_int (tu_Total u)) 1000)
                 (resolveModelRateUSDPer1K E modelID defaultUsageModelPricingUSDPer1K))"

definition estimateRequestCostUSD :: "goenv \<Rightarrow> LLMRequest option \<Rightarrow> string \<Rightarrow> float64" where
  "estimateRequestCostUSD E req modelID =
     (case req of
        None \<Rightarrow> 0
      | Some q \<Rightarrow>
          let approxTokens = (case lq_ModelConfig q of
                Some mc \<Rightarrow> if 0 < mc_MaxTokens mc then add64 (mc_MaxTokens mc) 256 else 256
              | None \<Rightarrow> 256)
          in f64_mul (f64_div (f64_of_int approxTokens) 1000)
               (resolveModelRateUSDPer1K E modelID defaultRequestModelPricingUSDPer1K))"

section \<open>The route plan\<close>

record RouteCandidate =
  rc_Provider :: string
  rc_ModelID :: string

record RouterConfig =
  ro_DefaultMode :: string
  ro_FallbackProviders :: "string list"

definition NewModelRouter :: "RouterConfig \<Rightarrow> RouterConfig" where
  "NewModelRouter cfg =
     (if TrimSpace (ro_DefaultMode cfg) = [] then cfg\<lparr>ro_DefaultMode := ''latency-first''\<rparr> else cfg)"

definition chooseModel :: "goenv \<Rightarrow> string \<Rightarrow> string \<Rightarrow> string" where
  "chooseModel E taskType mode =
     (if ToLower E (TrimSpace mode) = ''quality-first'' then ''gpt-4o'' else ''gpt-4o-mini'')"

definition llmProviderMock :: string where
  "llmProviderMock = ''mock''"

definition normalizeProvider :: "goenv \<Rightarrow> string \<Rightarrow> string" where
  "normalizeProvider E provider =
     (let p = ToLower E (TrimSpace provider) in if p = [] then llmProviderMock else p)"

fun dedupe_from :: "string set \<Rightarrow> RouteCandidate list \<Rightarrow> RouteCandidate list" where
  "dedupe_from seen [] = []"
| "dedupe_from seen (c # cs) =
     (let key = rc_Provider c @ ''#'' @ rc_ModelID c
      in if key \<in> seen then dedupe_from seen cs else c # dedupe_from (insert key seen) cs)"

definition dedupeRouteCandidates :: "RouteCandidate list \<Rightarrow> RouteCandidate list" where
  "dedupeRouteCandidates cs = dedupe_from {} cs"

definition inferTaskType :: "goenv \<Rightarrow> LLMRequest option \<Rightarrow> string" where
  "inferTaskType E req =
     (case req of
        None \<Rightarrow> ''general''
      | Some q \<Rightarrow>
          if TrimSpace (lq_TaskType q) \<noteq> [] then TrimSpace (lq_TaskType q)
          else
            let content = (case find (\<lambda>m. mm_Role m = MessageRoleUser) (rev (lq_Messages q)) of
                    Some m \<Rightarrow> mm_Content m | None \<Rightarrow> []);
                s = ToLower E content
            in if list_ex (Contains s) [''code'', ''test'', ''refactor'', ''bug''] then ''coding''
               else if list_ex (Contains s) [''analy'', ''report'', ''sql'', ''metric''] then ''analysis''
               else ''general'')"

text \<open>The configuration of a request, with the value a missing one gives.\<close>

definition req_config :: "LLMRequest option \<Rightarrow> ModelConfig option" where
  "req_config req = (case req of None \<Rightarrow> None | Some q \<Rightarrow> lq_ModelConfig q)"

definition primary_candidate :: "goenv \<Rightarrow> LLMRequest option \<Rightarrow> string \<Rightarrow> string \<Rightarrow> RouteCandidate" where
  "primary_candidate E req primaryProvider baseModel =
     \<lparr>rc_Provider = normalizeProvider E primaryProvider,
      rc_ModelID = (case req_config req of
          Some mc \<Rightarrow> if 0 < mc_CostCapUSD mc \<and> mc_CostCapUSD mc < estimateRequestCostUSD E req baseModel
                     then ''gpt-4o-mini'' else baseModel
        | None \<Rightarrow> baseModel)\<rparr>"

definition Resolve :: "goenv \<Rightarrow> RouterConfig \<Rightarrow> LLMRequest option \<Rightarrow> string \<Rightarrow> RouteCandidate list" where
  "Resolve E cfg req primaryProvider =
     (let taskType = inferTaskType E req;
          mode = (case req_config req of
            Some mc \<Rightarrow> if TrimSpace (mc_PolicyMode mc) \<noteq> [] then TrimSpace (mc_PolicyMode mc) else ro_DefaultMode cfg
          | None \<Rightarrow> ro_DefaultMode cfg);
          baseModel = (case req_config req of
            Some mc \<Rightarrow> if TrimSpace (mc_ModelID mc) \<noteq> [] then TrimSpace (mc_ModelID mc) else chooseModel E taskType mode
          | None \<Rightarrow> chooseModel E taskType mode);
          primary = primary_candidate E req primaryProvider baseModel;
          models = (case req_config req of
            Some mc \<Rightarrow> map (\<lambda>m. \<lparr>rc_Provider = rc_Provider primary, rc_ModelID = TrimSpace m\<rparr>)
                        (filter (\<lambda>m. TrimSpace m \<noteq> []) (mc_FallbackModelIDs mc))
          | None \<Rightarrow> []);
          provs = map (\<lambda>p. \<lparr>rc_Provider = normalizeProvider E p, rc_ModelID = chooseModel E taskType mode\<rparr>)
                    (filter (\<lambda>p. normalizeProvider E p \<noteq> []) (ro_FallbackProviders cfg))
      in dedupeRouteCandidates (primary # models @ provs))"

section \<open>Routed calls\<close>

definition withModel :: "LLMRequest option \<Rightarrow> string \<Rightarrow> LLMRequest" where
  "withModel req modelID =
     (let bare = \<lparr>mc_ModelID = modelID, mc_Temperature = 0, mc_MaxTokens = 0, mc_PolicyMode = [],
                  mc_CostCapUSD = 0, mc_FallbackModelIDs = []\<rparr>
      in case req of
           None \<Rightarrow> \<lparr>lq_Messages = [], lq_ModelConfig = Some bare, lq_Tools = [], lq_TaskType = []\<rparr>
         | Some q \<Rightarrow>
             q\<lparr>lq_ModelConfig := Some (case lq_ModelConfig q of
                 Some mc \<Rightarrow> mc\<lparr>mc_ModelID := modelID\<rparr> | None \<Rightarrow> bare)\<rparr>)"

text \<open>Errors of a provider are their messages.\<close>

definition shouldFallbackOnError :: "goenv \<Rightarrow> string option \<Rightarrow> bool" where
  "shouldFallbackOnError E err =
     (case err of
        None \<Rightarrow> False
      | Some e \<Rightarrow>
          let msg = ToLower E e
          in if Contains msg ''context canceled'' \<or> Contains msg ''deadline exceeded'' then False
             else if list_ex (Contains msg) [''invalid'', ''bad request'', ''401'', ''403'', ''permission'', ''unauthorized'']
               then False
             else list_ex (Contains msg)
               [''timeout'', ''temporary'', ''temporarily'', ''429'', ''500'', ''502'', ''503'', ''504'',
                ''unavailable'', ''connection reset'', ''refused'', ''eof'', ''rate limit''])"

text \<open>
  A provider's client: its \<open>Chat\<close>, and its \<open>ChatStream\<close> when it has one, with the tokens it
  passes to the callback. The first argument is the number of the call.
\<close>

record LLMClient =
  cl_Chat :: "nat \<Rightarrow> LLMRequest \<Rightarrow> string + LLMResponse"
  cl_ChatStream :: "(nat \<Rightarrow> LLMRequest \<Rightarrow> string list \<times> (string + LLMResponse)) option"

definition fill_route :: "RouteCandidate \<Rightarrow> LLMResponse \<Rightarrow> LLMResponse" where
  "fill_route cand resp =
     (let r1 = (if lr_ModelID resp = [] then resp\<lparr>lr_ModelID := rc_ModelID cand\<rparr> else resp)
      in if lr_Provider r1 = [] then r1\<lparr>lr_Provider := rc_Provider cand\<rparr> else r1)"

definition routing_error :: "string \<Rightarrow> string option \<Rightarrow> string" where
  "routing_error pre lastErr =
     pre @ (case lastErr of Some e \<Rightarrow> e | None \<Rightarrow> ''no available routed providers'')"

text \<open>
  The loops over the candidates; besides the answer they give the candidates whose client
  was called, and the streamed tokens.
\<close>

fun chat_loop ::
  "goenv \<Rightarrow> (string, LLMClient) gomap \<Rightarrow> LLMRequest option \<Rightarrow> nat \<Rightarrow> string option \<Rightarrow> RouteCandidate list
   \<Rightarrow> RouteCandidate list \<times> (string + LLMResponse)" where
  "chat_loop E clients req i lastErr [] = ([], Inl (routing_error ''routing failed: '' lastErr))"
| "chat_loop E clients req i lastErr (cand # rest) =
     (case gm_get clients (rc_Provider cand) of
        None \<Rightarrow> chat_loop E clients req (Suc i) lastErr rest
      | Some client \<Rightarrow>
          (case cl_Chat client i (withModel req (rc_ModelID cand)) of
             Inr resp \<Rightarrow> ([cand], Inr (fill_route cand resp))
           | Inl err \<Rightarrow>
               if \<not> shouldFallbackOnError E (Some err) \<or> rest = []
               then ([cand], Inl (routing_error ''routing failed: '' (Some err)))
               else case chat_loop E clients req (Suc i) (Some err) rest of (tried, res) \<Rightarrow> (cand # tried, res)))"

definition Routed_Chat ::
  "goenv \<Rightarrow> RouterConfig \<Rightarrow> string \<Rightarrow> (string, LLMClient) gomap \<Rightarrow> LLMRequest option
   \<Rightarrow> RouteCandidate list \<times> (string + LLMResponse)" where
  "Routed_Chat E cfg primaryProvider clients req = chat_loop E clients req 0 None (Resolve E cfg req primaryProvider)"

text \<open>One streamed call; a client without streaming passes its whole answer to the callback.\<close>

definition stream_call :: "LLMClient \<Rightarrow> nat \<Rightarrow> LLMRequest \<Rightarrow> string list \<times> (string + LLMResponse)" where
  "stream_call client i req =
     (case cl_ChatStream client of
        Some f \<Rightarrow> f i req
      | None \<Rightarrow>
          (case cl_Chat client i req of
             Inl err \<Rightarrow> ([], Inl err)
           | Inr resp \<Rightarrow> (if lr_Content resp \<noteq> [] then [lr_Content resp] else [], Inr resp)))"

fun stream_loop ::
  "goenv \<Rightarrow> (string, LLMClient) gomap \<Rightarrow> LLMRequest option \<Rightarrow> nat \<Rightarrow> string option \<Rightarrow> RouteCandidate list
   \<Rightarrow> string list \<times> (string + LLMResponse)" where
  "stream_loop E clients req i lastErr [] = ([], Inl (routing_error ''routing stream failed: '' lastErr))"
| "stream_loop E clients req i lastErr (cand # rest) =
     (case gm_get clients (rc_Provider cand) of
        None \<Rightarrow> stream_loop E clients req (Suc i) lastErr rest
      | Some client \<Rightarrow>
          (case stream_call client i (withModel req (rc_ModelID cand)) of
             (tokens, Inr resp) \<Rightarrow> (tokens, Inr (fill_route cand resp))
           | (tokens, Inl err) \<Rightarrow>
               if \<not> shouldFallbackOnError E (Some err) \<or> rest = []
               then (tokens, Inl (routing_error ''routing stream failed: '' (Some err)))
               else case stream_loop E clients req (Suc i) (Some err) rest of
                      (tokens', res) \<Rightarrow> (tokens @ tokens', res)))"

definition Routed_ChatStream ::
  "goenv \<Rightarrow> RouterConfig \<Rightarrow> string \<Rightarrow> (string, LLMClient) gomap \<Rightarrow> LLMRequest option
   \<Rightarrow> string list \<times> (string + LLMResponse)" where
  "Routed_ChatStream E cfg primaryProvider clients req =
     stream_loop E clients req 0 None (Resolve E cfg req primaryProvider)"

end
