(* ===== verification/RoutingProps.thy ===== *)
theory RoutingProps
  imports Routing StateProps
begin

text \<open>
  Properties of the router: the shape of a route plan, and when a routed call moves on to
  the next provider.
\<close>

section \<open>The route plan\<close>

abbreviation cand_key :: "RouteCandidate \<Rightarrow> string" where
  "cand_key c \<equiv> rc_Provider c @ ''#'' @ rc_ModelID c"

lemma dedupe_from_keys:
  "distinct (map cand_key (dedupe_from seen cs)) \<and> cand_key ` set (dedupe_from seen cs) = cand_key ` set cs - seen
   \<and> set (dedupe_from seen cs) \<subseteq> set cs"
  by (induction seen cs rule: dedupe_from.induct) (auto simp: Let_def)

lemma dedupe_Cons: "dedupeRouteCandidates (c # cs) = c # dedupe_from {cand_key c} cs"
  by (simp add: dedupeRouteCandidates_def Let_def)

lemma cand_eq: "rc_Provider d = rc_Provider c \<Longrightarrow> rc_ModelID d = rc_ModelID c \<Longrightarrow> d = (c :: RouteCandidate)"
  by (cases d, cases c) simp

lemma dedupe_same_provider:
  assumes "c \<in> set cs" and "\<forall>d \<in> set (takeWhile (\<lambda>d. d \<noteq> c) cs). rc_Provider d = rc_Provider c" and "cand_key c \<notin> seen"
  shows "c \<in> set (dedupe_from seen cs)"
  using assms
proof (induction seen cs rule: dedupe_from.induct)
  case (1 seen)
  then show ?case by simp
next
  case (2 seen d cs)
  show ?case
  proof (cases "d = c")
    case True
    with "2.prems"(3) show ?thesis by (simp add: Let_def)
  next
    case False
    have tw: "takeWhile (\<lambda>d. d \<noteq> c) (d # cs) = d # takeWhile (\<lambda>d. d \<noteq> c) cs" using False by simp
    have mem: "c \<in> set cs" using "2.prems"(1) False by simp
    have pre: "\<forall>d \<in> set (takeWhile (\<lambda>d. d \<noteq> c) cs). rc_Provider d = rc_Provider c"
      and prov: "rc_Provider d = rc_Provider c"
      using "2.prems"(2) unfolding tw by (meson list.set_intros)+
    have "rc_ModelID d \<noteq> rc_ModelID c"
    proof
      assume "rc_ModelID d = rc_ModelID c"
      with prov have "d = c" by (rule cand_eq)
      with False show False by contradiction
    qed
    then have key: "cand_key d \<noteq> cand_key c" using prov by simp
    show ?thesis
    proof (cases "cand_key d \<in> seen")
      case True
      with "2.IH"(1) [OF refl True mem pre "2.prems"(3)] show ?thesis by (simp add: Let_def)
    next
      case new: False
      have "cand_key c \<notin> insert (cand_key d) seen" using key "2.prems"(3) by simp
      from "2.IH"(2) [OF refl new mem pre this] new show ?thesis by (simp add: Let_def)
    qed
  qed
qed

text \<open>
  C33. The plan for a request with a configured model starts with the primary provider and that
  model, unless the estimate exceeds the cost cap of the request, in which case the cheap model
  takes its place; it never repeats a provider and model; and every configured fallback model is
  in it, with the primary provider.
\<close>

theorem route_plan:
  assumes "req_config req = Some mc" and "TrimSpace (mc_ModelID mc) \<noteq> []"
  shows "\<exists>c cs. Resolve E cfg req p = c # cs \<and> rc_Provider c = normalizeProvider E p
    \<and> rc_ModelID c = (if 0 < mc_CostCapUSD mc
           \<and> mc_CostCapUSD mc < estimateRequestCostUSD E req (TrimSpace (mc_ModelID mc))
         then ''gpt-4o-mini'' else TrimSpace (mc_ModelID mc))
    \<and> distinct (map (\<lambda>c. rc_Provider c @ ''#'' @ rc_ModelID c) (c # cs))
    \<and> (\<forall>m \<in> set (mc_FallbackModelIDs mc). TrimSpace m \<noteq> [] \<longrightarrow>
         \<lparr>rc_Provider = normalizeProvider E p, rc_ModelID = TrimSpace m\<rparr> \<in> set (c # cs))"
proof -
  define prim where "prim = primary_candidate E req p (TrimSpace (mc_ModelID mc))"
  define models where "models = map (\<lambda>m. \<lparr>rc_Provider = rc_Provider prim, rc_ModelID = TrimSpace m\<rparr>)
    (filter (\<lambda>m. TrimSpace m \<noteq> []) (mc_FallbackModelIDs mc))"
  obtain provs where plan: "Resolve E cfg req p = dedupeRouteCandidates (prim # models @ provs)"
    using assms by (simp add: Resolve_def prim_def models_def Let_def)
  have prov: "rc_Provider prim = normalizeProvider E p" by (simp add: prim_def primary_candidate_def)
  have same: "\<forall>d \<in> set (prim # models). rc_Provider d = normalizeProvider E p"
    using prov by (auto simp: models_def)
  have "c \<in> set (dedupeRouteCandidates (prim # models @ provs))" if c: "c \<in> set models" for c
  proof -
    have "set (takeWhile (\<lambda>d. d \<noteq> c) (prim # models @ provs)) \<subseteq> set (prim # models)"
      using c by (auto simp: takeWhile_append1 dest: set_takeWhileD)
    then show ?thesis
      using dedupe_same_provider [of c "prim # models @ provs" "{}"] c same
      by (auto simp: dedupeRouteCandidates_def)
  qed
  moreover have "distinct (map cand_key (dedupeRouteCandidates (prim # models @ provs)))"
    using dedupe_from_keys by (simp add: dedupeRouteCandidates_def)
  ultimately show ?thesis
    using assms(1) prov unfolding plan dedupe_Cons
    by (auto simp: models_def) (auto simp: prim_def primary_candidate_def)
qed

definition sample_llm_request :: "ModelConfig \<Rightarrow> LLMRequest option" where
  "sample_llm_request mc = Some \<lparr>lq_Messages = [], lq_ModelConfig = Some mc, lq_Tools = [], lq_TaskType = ''general''\<rparr>"

definition opus_config :: ModelConfig where
  "opus_config = \<lparr>mc_ModelID = ''claude-3-opus'', mc_Temperature = 0, mc_MaxTokens = 0, mc_PolicyMode = [],
     mc_CostCapUSD = 1 / 2 ^ 10, mc_FallbackModelIDs = [''gpt-4'']\<rparr>"

lemma opus_trim: "TrimSpace ''claude-3-opus'' = ''claude-3-opus''" "TrimSpace ''gpt-4'' = ''gpt-4''"
  by code_simp+

lemma opus_rates:
  "resolveModelRateUSDPer1K sample_env ''claude-3-opus'' defaultRequestModelPricingUSDPer1K = f64 (35 / 100000)"
  "resolveModelRateUSDPer1K sample_env ''claude-3-opus'' defaultUsageModelPricingUSDPer1K = f64 (15 / 1000)"
proof -
  have names: "TrimSpace ''gpt-4o-mini'' = ''gpt-4o-mini''" "TrimSpace ''gpt-4o'' = ''gpt-4o''" "TrimSpace ''gpt-4.1'' = ''gpt-4.1''"
    "TrimSpace ''claude-3-haiku'' = ''claude-3-haiku''" "TrimSpace ''claude-3-sonnet'' = ''claude-3-sonnet''" "TrimSpace [] = []"
    by code_simp+
  have lower: "ToLower sample_env ''gpt-4o-mini'' = ''gpt-4o-mini''" "ToLower sample_env ''gpt-4o'' = ''gpt-4o''"
    "ToLower sample_env ''gpt-4.1'' = ''gpt-4.1''" "ToLower sample_env ''claude-3-haiku'' = ''claude-3-haiku''"
    "ToLower sample_env ''claude-3-sonnet'' = ''claude-3-sonnet''" "ToLower sample_env ''claude-3-opus'' = ''claude-3-opus''"
    by code_simp+
  have none: "Getenv sample_env k = []" for k by (simp add: sample_env_def)
  show "resolveModelRateUSDPer1K sample_env ''claude-3-opus'' defaultRequestModelPricingUSDPer1K = f64 (35 / 100000)"
    "resolveModelRateUSDPer1K sample_env ''claude-3-opus'' defaultUsageModelPricingUSDPer1K = f64 (15 / 1000)"
    by (simp_all add: resolveModelRateUSDPer1K_def mergePricingOverrides_def defaultRequestModelPricingUSDPer1K_def
        defaultUsageModelPricingUSDPer1K_def names lower none opus_trim gomap_simps)
qed

theorem route_plan_witness:
  "\<exists>c cs. Resolve sample_env \<lparr>ro_DefaultMode = ''latency-first'', ro_FallbackProviders = [''openai'']\<rparr>
       (sample_llm_request opus_config) ''openai'' = c # cs \<and> rc_Provider c = normalizeProvider sample_env ''openai''
    \<and> \<lparr>rc_Provider = normalizeProvider sample_env ''openai'', rc_ModelID = ''gpt-4''\<rparr> \<in> set (c # cs)"
proof -
  have "req_config (sample_llm_request opus_config) = Some opus_config"
    by (simp add: req_config_def sample_llm_request_def)
  moreover have "TrimSpace (mc_ModelID opus_config) \<noteq> []" by (simp add: opus_config_def opus_trim)
  ultimately show ?thesis
    using route_plan [of "sample_llm_request opus_config" opus_config sample_env
        "\<lparr>ro_DefaultMode = ''latency-first'', ro_FallbackProviders = [''openai'']\<rparr>" "''openai''"]
    by (auto simp: opus_config_def opus_trim)
qed

text \<open>
  The estimate behind the cost cap has no price for the Claude models and takes that of the
  cheapest model instead: a request for \<open>claude-3-opus\<close> whose own usage price is beyond its
  cost cap keeps that model, where the plan was to fall back to the cheap one.
\<close>

theorem cost_cap_misses_unpriced:
  "rc_ModelID (hd (Resolve sample_env cfg (sample_llm_request opus_config) p)) = ''claude-3-opus''
   \<and> mc_CostCapUSD opus_config
       < EstimateUsageCostUSD sample_env ''claude-3-opus'' (Some \<lparr>tu_Input = 256, tu_Output = 0, tu_Total = 256\<rparr>)"
proof -
  have rq: "req_config (sample_llm_request opus_config) = Some opus_config"
    by (simp add: req_config_def sample_llm_request_def)
  have half: "f64 (1 / 2 ^ 1) = 1 / 2 ^ 1" "f64 (1 / 2 ^ 2) = 1 / 2 ^ 2" "f64 (1 / 2 ^ 7) = 1 / 2 ^ 7"
    "f64 (1 / 2 ^ 9) = 1 / 2 ^ 9" "f64 (1 / 2 ^ 10) = 1 / 2 ^ 10"
    by (rule f64_half_power, simp)+
  have k: "f64 (256 / 1000) \<le> 1 / 2" "1 / 4 \<le> f64 (256 / 1000)"
    using f64_mono [of "256 / 1000" "1 / 2 ^ 1"] f64_mono [of "1 / 2 ^ 2" "256 / 1000"] half by simp_all
  have r: "f64 (35 / 100000) \<le> 1 / 2 ^ 10" "1 / 2 ^ 7 \<le> f64 (15 / 1000)"
    using f64_mono [of "35 / 100000" "1 / 2 ^ 10"] f64_mono [of "1 / 2 ^ 7" "15 / 1000"] half by simp_all
  have t: "f64_div (f64_of_int 256) 1000 = f64 (256 / 1000)"
    using f64_int_exact [of 256] by (simp add: f64_div_def f64_of_int_def)
  have "f64 (256 / 1000) * f64 (35 / 100000) \<le> 1 / 2 * (1 / 2 ^ 10)"
    by (rule mult_mono) (use k r in \<open>simp_all add: f64_nonneg\<close>)
  then have "f64_mul (f64 (256 / 1000)) (f64 (35 / 100000)) \<le> f64 (1 / 2 ^ 10)"
    unfolding f64_mul_def by (intro f64_mono) simp
  then have low: "f64_mul (f64 (256 / 1000)) (f64 (35 / 100000)) \<le> 1 / 2 ^ 10" using half by simp
  have "1 / 4 * (1 / 2 ^ 7) \<le> f64 (256 / 1000) * f64 (15 / 1000)"
    by (rule mult_mono) (use k r in simp_all)
  then have "f64 (1 / 2 ^ 9) \<le> f64_mul (f64 (256 / 1000)) (f64 (15 / 1000))"
    unfolding f64_mul_def by (intro f64_mono) simp
  then have high: "1 / 2 ^ 10 < f64_mul (f64 (256 / 1000)) (f64 (15 / 1000))" using half by simp
  have est: "\<not> mc_CostCapUSD opus_config < estimateRequestCostUSD sample_env (sample_llm_request opus_config) ''claude-3-opus''"
    using low t by (simp add: estimateRequestCostUSD_def sample_llm_request_def opus_rates opus_config_def)
  have use: "mc_CostCapUSD opus_config
      < EstimateUsageCostUSD sample_env ''claude-3-opus'' (Some \<lparr>tu_Input = 256, tu_Output = 0, tu_Total = 256\<rparr>)"
    using high t by (simp add: EstimateUsageCostUSD_def opus_rates opus_config_def)
  have id: "mc_ModelID opus_config = ''claude-3-opus''" by (simp add: opus_config_def)
  show ?thesis
    using est use rq by (simp add: Resolve_def dedupe_Cons primary_candidate_def id opus_trim Let_def)
qed

section \<open>Falling back\<close>

text \<open>A candidate was called and failed with an error that lets the next one be tried.\<close>

definition failed_retryably :: "goenv \<Rightarrow> (string, LLMClient) gomap \<Rightarrow> LLMRequest option \<Rightarrow> RouteCandidate \<Rightarrow> bool" where
  "failed_retryably E clients req c \<longleftrightarrow>
     (\<exists>k client err. gm_get clients (rc_Provider c) = Some client
        \<and> cl_Chat client k (withModel req (rc_ModelID c)) = Inl err \<and> shouldFallbackOnError E (Some err))"

text \<open>
  The answer of the last candidate called is the result; when it is an error that lets the
  next one be tried, there was no other candidate with a client (\<open>exhausted\<close>).
\<close>

definition answered_by ::
  "goenv \<Rightarrow> (string, LLMClient) gomap \<Rightarrow> LLMRequest option \<Rightarrow> RouteCandidate \<Rightarrow> bool \<Rightarrow> string + LLMResponse \<Rightarrow> bool" where
  "answered_by E clients req c exhausted res \<longleftrightarrow>
     (\<exists>k client. gm_get clients (rc_Provider c) = Some client
        \<and> (case cl_Chat client k (withModel req (rc_ModelID c)) of
             Inr resp \<Rightarrow> res = Inr (fill_route c resp)
           | Inl err \<Rightarrow> res = Inl (''routing failed: '' @ err) \<and> (shouldFallbackOnError E (Some err) \<longrightarrow> exhausted)))"

definition available :: "(string, LLMClient) gomap \<Rightarrow> RouteCandidate list \<Rightarrow> RouteCandidate list" where
  "available clients cs = filter (\<lambda>c. gm_get clients (rc_Provider c) \<noteq> None) cs"

lemma chat_loop_tried:
  assumes "chat_loop E clients req i le cs = (tried, res)"
  shows "subseq tried cs \<and> list_all (failed_retryably E clients req) (butlast tried)
    \<and> (tried = [] \<longrightarrow> res = Inl (routing_error ''routing failed: '' le) \<and> available clients cs = [])
    \<and> (tried \<noteq> [] \<longrightarrow> answered_by E clients req (last tried) (tried = available clients cs) res)"
  using assms
proof (induction cs arbitrary: i le tried res)
  case Nil
  then show ?case by (auto simp: available_def)
next
  case (Cons cand rest)
  show ?case
  proof (cases "gm_get clients (rc_Provider cand)")
    case None
    then have loop: "chat_loop E clients req (Suc i) le rest = (tried, res)" using Cons.prems by simp
    have "available clients (cand # rest) = available clients rest" using None by (simp add: available_def)
    with Cons.IH [OF loop] show ?thesis by auto
  next
    case client: (Some client)
    then have av: "available clients (cand # rest) = cand # available clients rest" by (simp add: available_def)
    show ?thesis
    proof (cases "cl_Chat client i (withModel req (rc_ModelID cand))")
      case (Inr resp)
      then have "tried = [cand]" "res = Inr (fill_route cand resp)" using Cons.prems client by simp_all
      then show ?thesis using client Inr by (auto simp: answered_by_def intro!: exI [of _ i])
    next
      case err: (Inl err)
      show ?thesis
      proof (cases "\<not> shouldFallbackOnError E (Some err) \<or> rest = []")
        case True
        then have "tried = [cand]" "res = Inl (''routing failed: '' @ err)"
          using Cons.prems client err by (simp_all add: routing_error_def)
        then show ?thesis using client err True by (auto simp: answered_by_def available_def intro!: exI [of _ i])
      next
        case False
        obtain tried' where t: "chat_loop E clients req (Suc i) (Some err) rest = (tried', res)" "tried = cand # tried'"
          using Cons.prems client err False by (auto split: prod.splits)
        have "failed_retryably E clients req cand" using client err False by (auto simp: failed_retryably_def)
        moreover have "answered_by E clients req cand True (Inl (''routing failed: '' @ err))"
          using client err by (auto simp: answered_by_def intro!: exI [of _ i])
        ultimately show ?thesis
          using Cons.IH [OF t(1)] t(2) av by (cases "tried' = []") (simp_all add: routing_error_def)
      qed
    qed
  qed
qed

text \<open>
  C17. A routed call tries candidates of the plan in its order, moves on only after an error
  that is worth a retry elsewhere, and returns the answer of the last one it called: the
  first success, an error that must not be masked, or the last error when nothing is left.
\<close>

theorem routed_chat_fallback:
  assumes "Routed_Chat E cfg p clients req = (tried, res)"
  shows "subseq tried (Resolve E cfg req p) \<and> list_all (failed_retryably E clients req) (butlast tried)
    \<and> (tried = [] \<longrightarrow> res = Inl ''routing failed: no available routed providers'' \<and> available clients (Resolve E cfg req p) = [])
    \<and> (tried \<noteq> [] \<longrightarrow> answered_by E clients req (last tried) (tried = available clients (Resolve E cfg req p)) res)"
  using chat_loop_tried [of E clients req 0 None "Resolve E cfg req p" tried res] assms
  by (simp add: Routed_Chat_def routing_error_def)

definition sample_response :: LLMResponse where
  "sample_response = \<lparr>lr_Content = ''done'', lr_ToolCalls = [], lr_TokenUsage = None, lr_FinishReason = ''stop'',
     lr_ModelID = [], lr_Provider = []\<rparr>"

definition flaky_client :: LLMClient where
  "flaky_client = \<lparr>cl_Chat = (\<lambda>_ _. Inl ''503 unavailable''),
     cl_ChatStream = Some (\<lambda>_ _. ([''Hel''], Inl ''503 unavailable''))\<rparr>"

definition good_client :: LLMClient where
  "good_client = \<lparr>cl_Chat = (\<lambda>_ _. Inr sample_response), cl_ChatStream = Some (\<lambda>_ _. ([''Hello''], Inr sample_response))\<rparr>"

lemma flaky_retryable: "shouldFallbackOnError sample_env (Some ''503 unavailable'')"
  by code_simp

lemma sample_plan:
  "Resolve sample_env \<lparr>ro_DefaultMode = [], ro_FallbackProviders = [''b'']\<rparr> None ''a'' =
    [\<lparr>rc_Provider = ''a'', rc_ModelID = ''gpt-4o-mini''\<rparr>, \<lparr>rc_Provider = ''b'', rc_ModelID = ''gpt-4o-mini''\<rparr>]"
  by code_simp

theorem routed_chat_fallback_witness:
  "Routed_Chat sample_env \<lparr>ro_DefaultMode = [], ro_FallbackProviders = [''b'']\<rparr> ''a''
      [(''a'', flaky_client), (''b'', good_client)] None
    = ([\<lparr>rc_Provider = ''a'', rc_ModelID = ''gpt-4o-mini''\<rparr>, \<lparr>rc_Provider = ''b'', rc_ModelID = ''gpt-4o-mini''\<rparr>],
       Inr (fill_route \<lparr>rc_Provider = ''b'', rc_ModelID = ''gpt-4o-mini''\<rparr> sample_response))
   \<and> failed_retryably sample_env [(''a'', flaky_client), (''b'', good_client)] None
       \<lparr>rc_Provider = ''a'', rc_ModelID = ''gpt-4o-mini''\<rparr>"
proof -
  have eval: "Routed_Chat sample_env \<lparr>ro_DefaultMode = [], ro_FallbackProviders = [''b'']\<rparr> ''a''
      [(''a'', flaky_client), (''b'', good_client)] None
    = ([\<lparr>rc_Provider = ''a'', rc_ModelID = ''gpt-4o-mini''\<rparr>, \<lparr>rc_Provider = ''b'', rc_ModelID = ''gpt-4o-mini''\<rparr>],
       Inr (fill_route \<lparr>rc_Provider = ''b'', rc_ModelID = ''gpt-4o-mini''\<rparr> sample_response))"
    by (simp add: Routed_Chat_def sample_plan flaky_client_def good_client_def flaky_retryable)
  with routed_chat_fallback [OF eval] show ?thesis by simp
qed

text \<open>
  A streamed call that falls back has already handed the tokens of the failed attempt to the
  caller, and hands those of the next attempt to it as well: what is streamed is not what
  the response contains.
\<close>

theorem stream_fallback_repeats:
  assumes "Resolve E cfg req p = c1 # c2 # rest"
    and "gm_get clients (rc_Provider c1) = Some cl1" and "gm_get clients (rc_Provider c2) = Some cl2"
    and "stream_call cl1 0 (withModel req (rc_ModelID c1)) = (tokens1, Inl err)" and "shouldFallbackOnError E (Some err)"
    and "stream_call cl2 1 (withModel req (rc_ModelID c2)) = (tokens2, Inr resp)"
  shows "Routed_ChatStream E cfg p clients req = (tokens1 @ tokens2, Inr (fill_route c2 resp))"
  using assms by (simp add: Routed_ChatStream_def)

theorem stream_fallback_repeats_witness:
  "Routed_ChatStream sample_env \<lparr>ro_DefaultMode = [], ro_FallbackProviders = [''b'']\<rparr> ''a''
      [(''a'', flaky_client), (''b'', good_client)] None
    = ([''Hel'', ''Hello''], Inr (fill_route \<lparr>rc_Provider = ''b'', rc_ModelID = ''gpt-4o-mini''\<rparr> sample_response))"
proof -
  have "stream_call flaky_client 0 r = ([''Hel''], Inl ''503 unavailable'')"
    and "stream_call good_client 1 r = ([''Hello''], Inr sample_response)" for r
    by (simp_all add: stream_call_def flaky_client_def good_client_def)
  then show ?thesis
    using stream_fallback_repeats [OF sample_plan, of "[(''a'', flaky_client), (''b'', good_client)]" flaky_client good_client
        "[''Hel'']" "''503 unavailable''" "[''Hello'']" sample_response]
    by (simp add: flaky_retryable)
qed

end
