(* ===== verification/EventText.thy ===== *)
theory EventText
  imports Model
begin

text \<open>
  What the engine shows of tool arguments, tool results and answers in stream events: the
  redaction and truncation functions of \<open>pkg/engine/engine.go\<close>. The two regular expressions
  are given by the matchers they denote (leftmost match, alternatives in order, greedy
  repetition, ASCII word boundaries, Unicode case folding of \<open>k\<close> and \<open>s\<close>); parsing and
  printing of JSON is a parameter.
\<close>

section \<open>JSON values\<close>

definition eventTextRedacted :: string where
  "eventTextRedacted = ''[REDACTED]''"

definition isSensitiveKey :: "goenv \<Rightarrow> string \<Rightarrow> bool" where
  "isSensitiveKey E key \<longleftrightarrow>
     filter (\<lambda>c. c \<noteq> CHR ''-'') (filter (\<lambda>c. c \<noteq> CHR ''_'') (ToLower E (TrimSpace key)))
     \<in> {''apikey'', ''accesstoken'', ''refreshtoken'', ''token'', ''secret'', ''password'', ''authorization'',
        ''authtoken'', ''clientsecret''}"

fun redactJSONValue :: "goenv \<Rightarrow> json \<Rightarrow> json" where
  "redactJSONValue E (JObj fs) =
     JObj (map (\<lambda>(key, v). (key, if isSensitiveKey E key then JStr eventTextRedacted else redactJSONValue E v)) fs)"
| "redactJSONValue E (JArr vs) = JArr (map (redactJSONValue E) vs)"
| "redactJSONValue E v = v"

text \<open>
  \<open>json.Unmarshal\<close> into an \<open>interface{}\<close> and \<open>json.Marshal\<close> of the value that the struct
  tags denote; the left value is the error message.
\<close>

record jsonlib =
  json_parse :: "string \<Rightarrow> string + json"
  json_print :: "json \<Rightarrow> string + string"

definition redactJSONSecrets :: "goenv \<Rightarrow> jsonlib \<Rightarrow> string \<Rightarrow> string option" where
  "redactJSONSecrets E J raw =
     (case json_parse J raw of
        Inl _ \<Rightarrow> None
      | Inr decoded \<Rightarrow>
          (case json_print J (redactJSONValue E decoded) of Inl _ \<Rightarrow> None | Inr b \<Rightarrow> Some b))"

section \<open>Pattern matching\<close>

definition word_char :: "char \<Rightarrow> bool" where
  "word_char c \<longleftrightarrow> is_digit c \<or> c = CHR ''_'' \<or> (97 \<le> (of_char (ascii_lower c) :: nat) \<and> (of_char (ascii_lower c) :: nat) \<le> 122)"

definition re_space :: "char \<Rightarrow> bool" where
  "re_space c \<longleftrightarrow> c \<in> {CHR 0x09, CHR 0x0A, CHR 0x0C, CHR 0x0D, CHR 0x20}"

text \<open>The assertion \<open>\b\<close> between the byte before (if any) and the rest.\<close>

definition boundary :: "char option \<Rightarrow> string \<Rightarrow> bool" where
  "boundary prev s \<longleftrightarrow>
     (case prev of None \<Rightarrow> False | Some c \<Rightarrow> word_char c) \<noteq> (case s of [] \<Rightarrow> False | c # _ \<Rightarrow> word_char c)"

text \<open>A lower-case literal under \<open>(?i)\<close>: what is left after it.\<close>

definition fold_char :: "char \<Rightarrow> string \<Rightarrow> string option" where
  "fold_char p s =
     (case s of
        [] \<Rightarrow> None
      | c # cs \<Rightarrow>
          if ascii_lower c = p then Some cs
          else if p = CHR ''k'' \<and> prefix [CHR 0xE2, CHR 0x84, CHR 0xAA] s then Some (drop 3 s)
          else if p = CHR ''s'' \<and> prefix [CHR 0xC5, CHR 0xBF] s then Some (drop 2 s)
          else None)"

fun eat :: "string \<Rightarrow> string \<Rightarrow> string option" where
  "eat [] s = Some s"
| "eat (p # ps) s = (case fold_char p s of None \<Rightarrow> None | Some r \<Rightarrow> eat ps r)"

lemma fold_char_length: "fold_char p s = Some r \<Longrightarrow> length r < length s"
  by (cases s) (auto simp: fold_char_def split: if_splits)

lemma eat_length: "eat p s = Some r \<Longrightarrow> length r \<le> length s \<and> (p \<noteq> [] \<longrightarrow> length r < length s)"
proof (induction p arbitrary: s)
  case (Cons p ps)
  then obtain t where "fold_char p s = Some t" "eat ps t = Some r" by (auto split: option.splits)
  with Cons.IH [of t] fold_char_length [of p s t] show ?case by simp
qed simp

subsection \<open>Bearer tokens\<close>

text \<open>The class \<open>[A-Za-z0-9._~+/=-]\<close>.\<close>

definition token_char :: "char \<Rightarrow> bool" where
  "token_char c \<longleftrightarrow> (word_char c \<and> c \<noteq> CHR ''_'') \<or> c \<in> set ''._~+/=-''"

text \<open>\<open>(?i)\bBearer\s+[A-Za-z0-9._~+/=-]+\<close> at the head of the text: what follows the match.\<close>

definition bearer_match :: "char option \<Rightarrow> string \<Rightarrow> string option" where
  "bearer_match prev s =
     (if \<not> boundary prev s then None
      else case eat ''bearer'' s of
        None \<Rightarrow> None
      | Some r \<Rightarrow>
          let t = dropWhile re_space r
          in if t = r \<or> t = [] \<or> \<not> token_char (hd t) then None else Some (dropWhile token_char t))"

definition last_char :: "char option \<Rightarrow> string \<Rightarrow> string \<Rightarrow> char option" where
  "last_char prev s rest = (if length rest < length s then Some (s ! (length s - length rest - 1)) else prev)"

lemma bearer_match_length: "bearer_match prev s = Some r \<Longrightarrow> length r < length s"
proof -
  assume "bearer_match prev s = Some r"
  then obtain t where t: "eat ''bearer'' s = Some t" "r = dropWhile token_char (dropWhile re_space t)"
    by (auto simp: bearer_match_def Let_def split: if_splits option.splits)
  have "length r \<le> length t" unfolding t(2) by (meson le_trans length_dropWhile_le)
  with eat_length [OF t(1)] show "length r < length s" by simp
qed

text \<open>\<open>bearerTokenPattern.ReplaceAllString(s, "Bearer [REDACTED]")\<close>.\<close>

function redact_bearer :: "char option \<Rightarrow> string \<Rightarrow> string" where
  "redact_bearer prev s =
     (case s of
        [] \<Rightarrow> []
      | c # cs \<Rightarrow>
          (case bearer_match prev s of
             Some r \<Rightarrow> ''Bearer '' @ eventTextRedacted @ redact_bearer (last_char prev s r) r
           | None \<Rightarrow> c # redact_bearer (Some c) cs))"
  by pat_completeness auto
termination
  by (relation "measure (\<lambda>(prev, s). length s)") (auto dest: bearer_match_length)

declare redact_bearer.simps [simp del]

subsection \<open>Named secrets\<close>

definition secret_names :: "string list" where
  "secret_names =
     [''api_key'', ''api-key'', ''apikey'', ''access_token'', ''access-token'', ''accesstoken'',
      ''refresh_token'', ''refresh-token'', ''refreshtoken'', ''token'', ''secret'', ''password'', ''authorization'']"

text \<open>
  \<open>(?i)\b(api[_-]?key|...)\b(\s*[:=]\s*)([^\s,;]+)\<close> at the head of the text: the name with
  the separator (kept), and what follows the value.
\<close>

definition secret_with :: "char option \<Rightarrow> string \<Rightarrow> string \<Rightarrow> (string \<times> string) option" where
  "secret_with prev s name =
     (case eat name s of
        None \<Rightarrow> None
      | Some r \<Rightarrow>
          if \<not> boundary (last_char prev s r) r then None
          else case dropWhile re_space r of
                 [] \<Rightarrow> None
               | c # cs \<Rightarrow>
                   let v = dropWhile re_space cs; rest = dropWhile (\<lambda>c. \<not> re_space c \<and> c \<noteq> CHR '','' \<and> c \<noteq> CHR '';'') v
                   in if c \<notin> {CHR '':'', CHR ''=''} \<or> rest = v then None
                      else Some (take (length s - length v) s, rest))"

definition secret_match :: "char option \<Rightarrow> string \<Rightarrow> (string \<times> string) option" where
  "secret_match prev s =
     (if \<not> boundary prev s then None
      else case filter (\<lambda>n. secret_with prev s n \<noteq> None) secret_names of
             [] \<Rightarrow> None
           | n # _ \<Rightarrow> secret_with prev s n)"

lemma secret_with_length: "secret_with prev s n = Some (kept, r) \<Longrightarrow> length r < length s"
proof -
  assume "secret_with prev s n = Some (kept, r)"
  then obtain t c cs where t: "eat n s = Some t" "dropWhile re_space t = c # cs"
    "r = dropWhile (\<lambda>c. \<not> re_space c \<and> c \<noteq> CHR '','' \<and> c \<noteq> CHR '';'') (dropWhile re_space cs)"
    by (auto simp: secret_with_def Let_def split: option.splits list.splits if_splits)
  have "length r \<le> length cs" unfolding t(3) by (meson le_trans length_dropWhile_le)
  moreover have "length (c # cs) \<le> length t" using length_dropWhile_le [of re_space t] t(2) by simp
  ultimately show "length r < length s" using eat_length [OF t(1)] by simp
qed

lemma secret_match_length: "secret_match prev s = Some (kept, r) \<Longrightarrow> length r < length s"
  by (auto simp: secret_match_def dest: secret_with_length split: if_splits list.splits)

text \<open>\<open>plainSecretPattern.ReplaceAllString(s, "$1$2[REDACTED]")\<close>.\<close>

function redact_secrets :: "char option \<Rightarrow> string \<Rightarrow> string" where
  "redact_secrets prev s =
     (case s of
        [] \<Rightarrow> []
      | c # cs \<Rightarrow>
          (case secret_match prev s of
             Some (kept, r) \<Rightarrow> kept @ eventTextRedacted @ redact_secrets (last_char prev s r) r
           | None \<Rightarrow> c # redact_secrets (Some c) cs))"
  by pat_completeness auto
termination
  by (relation "measure (\<lambda>(prev, s). length s)") (auto dest: secret_match_length)

declare redact_secrets.simps [simp del]

section \<open>Event text\<close>

definition eventTextTruncatedSuffix :: string where
  "eventTextTruncatedSuffix = ''...[truncated]''"

definition maxSanitizedEventTextRunes :: int64 where
  "maxSanitizedEventTextRunes = 2048"

definition truncateEventText :: "string \<Rightarrow> int64 \<Rightarrow> string" where
  "truncateEventText raw maxRunes =
     (if maxRunes \<le> 0 then []
      else
        let rs = runes raw; suffixRunes = runes eventTextTruncatedSuffix
        in if int (length rs) \<le> maxRunes then raw
           else if maxRunes \<le> int (length suffixRunes) then string_of_runes (take (nat maxRunes) rs)
           else string_of_runes (take (nat maxRunes - length suffixRunes) rs) @ eventTextTruncatedSuffix)"

definition sanitizeEventText :: "goenv \<Rightarrow> jsonlib \<Rightarrow> string \<Rightarrow> string" where
  "sanitizeEventText E J raw =
     (let out = (case redactJSONSecrets E J raw of Some redacted \<Rightarrow> redacted | None \<Rightarrow> raw)
      in truncateEventText (redact_secrets None (redact_bearer None out)) maxSanitizedEventTextRunes)"

text \<open>The text field of the event that is sanitised, by the type of the event.\<close>

fun sanitized_field :: "StreamEventType \<Rightarrow> string option" where
  "sanitized_field StreamEventToolCall = Some ''args''"
| "sanitized_field StreamEventToolResult = Some ''output''"
| "sanitized_field StreamEventComplete = Some ''final_answer''"
| "sanitized_field _ = None"

definition sanitizeEventData :: "goenv \<Rightarrow> jsonlib \<Rightarrow> StreamEventType \<Rightarrow> json \<Rightarrow> json" where
  "sanitizeEventData E J eventType data =
     (case data of
        JObj fs \<Rightarrow>
          (case sanitized_field eventType of
             None \<Rightarrow> JObj fs
           | Some k \<Rightarrow>
               JObj (map (\<lambda>(key, v). (key, if key = k then (case v of JStr s \<Rightarrow> JStr (sanitizeEventText E J s) | _ \<Rightarrow> v) else v)) fs))
      | _ \<Rightarrow> data)"

end
