(* ===== verification/EventProps.thy ===== *)
theory EventProps
  imports EventText StateProps
begin

text \<open>
  Properties of the text shown in stream events: secrets are redacted and the text is bounded.
\<close>

section \<open>UTF-8\<close>

lemma mod_offset: "k * n \<le> b \<Longrightarrow> b < k * n + n \<Longrightarrow> b mod n = b - k * n" for b k n :: nat
proof -
  assume "k * n \<le> b" "b < k * n + n"
  then obtain j where j: "b = k * n + j" "j < n" by (metis add_less_cancel_left le_iff_add)
  then show "b mod n = b - k * n" by simp
qed

lemma low_bits: "x mod 64 \<le> 63" "x mod 32 \<le> 31" for x :: nat
  using mod_less_divisor [of 64 x] mod_less_divisor [of 32 x] by linarith+

lemma three_bytes_valid:
  assumes "0xE0 \<le> b0" "b0 \<le> 0xEF" "second_ok b0 b1"
  shows "valid_rune (b0 mod 16 * 4096 + b1 mod 64 * 64 + b2 mod 64)"
proof -
  have b0: "b0 mod 16 = b0 - 0xE0" using mod_offset [of 14 16 b0] assms(1,2) by simp
  show ?thesis
  proof (cases "b0 = 0xED")
    case True
    with assms(3) have "0x80 \<le> b1" "b1 \<le> 0x9F" by (simp_all add: second_ok_def)
    then have "b1 mod 64 \<le> 31" using mod_offset [of 2 64 b1] by simp
    then show ?thesis using b0 True low_bits(1) [of b2] by (simp add: valid_rune_def)
  next
    case False
    then have "b0 mod 16 \<le> 12 \<or> 14 \<le> b0 mod 16 \<and> b0 mod 16 \<le> 15" using b0 assms(1,2) by linarith
    then show ?thesis using low_bits(1) [of b1] low_bits(1) [of b2] unfolding valid_rune_def by linarith
  qed
qed

lemma four_bytes_valid:
  assumes "0xF0 \<le> b0" "b0 \<le> 0xF4" "second_ok b0 b1"
  shows "valid_rune (b0 mod 8 * 262144 + b1 mod 64 * 4096 + b2 mod 64 * 64 + b3 mod 64)"
proof -
  have b0: "b0 mod 8 = b0 - 0xF0" using mod_offset [of 30 8 b0] assms(1,2) by simp
  note b = low_bits(1) [of b1] low_bits(1) [of b2] low_bits(1) [of b3]
  consider "b0 = 0xF0" | "b0 = 0xF4" | "0xF1 \<le> b0" "b0 \<le> 0xF3" using assms(1,2) by linarith
  then show ?thesis
  proof cases
    case 1
    with assms(3) have "0x90 \<le> b1" "b1 \<le> 0xBF" by (simp_all add: second_ok_def)
    then have "16 \<le> b1 mod 64" using mod_offset [of 2 64 b1] by simp
    then show ?thesis using b0 1 b unfolding valid_rune_def by simp
  next
    case 2
    with assms(3) have "0x80 \<le> b1" "b1 \<le> 0x8F" by (simp_all add: second_ok_def)
    then have "b1 mod 64 \<le> 15" using mod_offset [of 2 64 b1] by simp
    then show ?thesis using b0 2 b unfolding valid_rune_def by simp
  next
    case 3
    then have "1 \<le> b0 mod 8" "b0 mod 8 \<le> 3" using b0 by linarith+
    with b show ?thesis unfolding valid_rune_def by linarith
  qed
qed

lemma decode_rune_valid: "valid_rune (fst (decode_rune bs))"
proof (cases bs)
  case Nil
  then show ?thesis by (simp add: rune_error_def valid_rune_def)
next
  case (Cons b0 rest)
  have err: "valid_rune rune_error" by (simp add: rune_error_def valid_rune_def)
  have two: "valid_rune (b0 mod 32 * 64 + rest ! 0 mod 64)"
    using low_bits(2) [of b0] low_bits(1) [of "rest ! 0"] unfolding valid_rune_def by linarith
  have one: "b0 < 0x80 \<Longrightarrow> valid_rune b0" by (simp add: valid_rune_def)
  note three = three_bytes_valid [of b0 "rest ! 0" "rest ! 1"] and four = four_bytes_valid [of b0 "rest ! 0" "rest ! 1" "rest ! 2"]
  show ?thesis
    unfolding Cons decode_rune.simps
    by (cases "b0 < 0x80"; cases "0xC2 \<le> b0 \<and> b0 \<le> 0xDF \<and> 1 \<le> length rest \<and> cont_byte (rest ! 0)";
        cases "0xE0 \<le> b0 \<and> b0 \<le> 0xEF \<and> 2 \<le> length rest \<and> second_ok b0 (rest ! 0) \<and> cont_byte (rest ! 1)";
        cases "0xF0 \<le> b0 \<and> b0 \<le> 0xF4 \<and> 3 \<le> length rest \<and> second_ok b0 (rest ! 0)
           \<and> cont_byte (rest ! 1) \<and> cont_byte (rest ! 2)")
      (simp_all only: if_True if_False fst_conv one two three four err simp_thms)
qed

lemma div64: "r div 4096 = r div 64 div 64" "r div 262144 = r div 4096 div 64" for r :: nat
  by (simp_all add: div_mult2_eq [symmetric])

lemma rebuild64: "r div 64 * 64 + r mod 64 = r" for r :: nat
  by (rule div_mult_mod_eq)

lemma rebuild4096: "r div 4096 * 4096 + r div 64 mod 64 * 64 + r mod 64 = r" for r :: nat
proof -
  have "r div 4096 * 64 + r div 64 mod 64 = r div 64" unfolding div64 by (rule div_mult_mod_eq)
  with rebuild64 [of r] show ?thesis by linarith
qed

lemma rebuild262144: "r div 262144 * 262144 + r div 4096 mod 64 * 4096 + r div 64 mod 64 * 64 + r mod 64 = r" for r :: nat
proof -
  have "r div 262144 * 64 + r div 4096 mod 64 = r div 4096" unfolding div64(2) by (rule div_mult_mod_eq)
  with rebuild4096 [of r] show ?thesis by linarith
qed

lemma cont_low: "cont_byte (0x80 + x mod 64)" "(0x80 + x mod 64) mod 64 = x mod 64" for x :: nat
  using low_bits(1) [of x] mod_offset [of 2 64 "0x80 + x mod 64"] by (simp_all add: cont_byte_def)

lemma second_three:
  "q \<le> 15 \<Longrightarrow> m \<le> 63 \<Longrightarrow> (q = 0 \<Longrightarrow> 32 \<le> m) \<Longrightarrow> (q = 13 \<Longrightarrow> m \<le> 31) \<Longrightarrow> second_ok (0xE0 + q) (0x80 + m)"
  by (auto simp: second_ok_def cont_byte_def)

lemma second_four:
  "q \<le> 4 \<Longrightarrow> m \<le> 63 \<Longrightarrow> (q = 0 \<Longrightarrow> 16 \<le> m) \<Longrightarrow> (q = 4 \<Longrightarrow> m \<le> 15) \<Longrightarrow> second_ok (0xF0 + q) (0x80 + m)"
  by (auto simp: second_ok_def cont_byte_def)

lemma decode_two:
  assumes "0x80 \<le> r" "r \<le> 0x7FF"
  shows "decode_rune ((0xC0 + r div 64) # (0x80 + r mod 64) # bs) = (r, 2)"
proof -
  have q: "2 \<le> r div 64" "r div 64 \<le> 31" using div_le_mono [of 128 r 64] div_le_mono [of r 2047 64] assms by simp_all
  then have "(0xC0 + r div 64) mod 32 = r div 64" using mod_offset [of 6 32 "0xC0 + r div 64"] by simp
  with q show ?thesis using cont_low [of r] rebuild64 [of r] by simp
qed

lemma decode_three:
  assumes "0x800 \<le> r" "r \<le> 0xFFFF" "valid_rune r"
  shows "decode_rune ((0xE0 + r div 4096) # (0x80 + r div 64 mod 64) # (0x80 + r mod 64) # bs) = (r, 3)"
proof -
  have q: "r div 4096 \<le> 15" using div_le_mono [of r 65535 4096] assms by simp
  then have b0: "(0xE0 + r div 4096) mod 16 = r div 4096" using mod_offset [of 14 16 "0xE0 + r div 4096"] by simp
  have "second_ok (0xE0 + r div 4096) (0x80 + r div 64 mod 64)"
  proof -
    have zero: "32 \<le> r div 64 mod 64" if "r div 4096 = 0"
    proof -
      have "r div 64 < 64" using that unfolding div64 by (simp add: div_eq_0_iff)
      moreover have "32 \<le> r div 64" using div_le_mono [of 2048 r 64] assms by simp
      ultimately show ?thesis by simp
    qed
    have surr: "r div 64 mod 64 \<le> 31" if "r div 4096 = 13"
    proof -
      have "r < 0xD800" using rebuild4096 [of r] that low_bits(1) [of "r div 64"] low_bits(1) [of r] assms(3)
        unfolding valid_rune_def by linarith
      with rebuild4096 [of r] that show ?thesis by linarith
    qed
    show ?thesis using q low_bits(1) zero surr by (rule second_three)
  qed
  then show ?thesis using q b0 cont_low [of r] cont_low [of "r div 64"] rebuild4096 [of r] by simp
qed

lemma decode_four:
  assumes "0x10000 \<le> r" "r \<le> 0x10FFFF"
  shows "decode_rune ((0xF0 + r div 262144) # (0x80 + r div 4096 mod 64) # (0x80 + r div 64 mod 64) # (0x80 + r mod 64) # bs) = (r, 4)"
proof -
  have q: "r div 262144 \<le> 4" using div_le_mono [of r 1114111 262144] assms by simp
  then have b0: "(0xF0 + r div 262144) mod 8 = r div 262144" using mod_offset [of 30 8 "0xF0 + r div 262144"] by simp
  note low = low_bits(1) [of r] low_bits(1) [of "r div 64"] low_bits(1) [of "r div 4096"]
  have "second_ok (0xF0 + r div 262144) (0x80 + r div 4096 mod 64)"
  proof -
    have "16 \<le> r div 4096 mod 64" if "r div 262144 = 0"
      using rebuild262144 [of r] that low assms(1) by linarith
    moreover have "r div 4096 mod 64 \<le> 15" if "r div 262144 = 4"
      using rebuild262144 [of r] that low assms(2) by linarith
    ultimately show ?thesis using q low(3) by (intro second_four)
  qed
  then show ?thesis
    using q b0 cont_low [of r] cont_low [of "r div 64"] cont_low [of "r div 4096"] rebuild262144 [of r] by simp
qed

lemma decode_encode:
  assumes "valid_rune r"
  shows "decode_rune (encode_rune r @ bs) = (r, length (encode_rune r))"
proof -
  have r: "r \<le> 0x10FFFF" using assms by (auto simp: valid_rune_def)
  consider "r \<le> 0x7F" | "0x80 \<le> r" "r \<le> 0x7FF" | "0x800 \<le> r" "r \<le> 0xFFFF" | "0x10000 \<le> r" by linarith
  then show ?thesis
  proof cases
    case 1
    then show ?thesis using assms by (simp add: encode_rune_def)
  next
    case 2
    then show ?thesis using assms decode_two [of r bs] by (simp add: encode_rune_def)
  next
    case 3
    then show ?thesis using assms decode_three [of r bs] by (simp add: encode_rune_def)
  next
    case 4
    then show ?thesis using assms decode_four [of r bs] r by (simp add: encode_rune_def)
  qed
qed

lemma runes_of_encode: "valid_rune r \<Longrightarrow> runes_of (encode_rune r @ bs) = r # runes_of bs"
proof -
  assume v: "valid_rune r"
  obtain b rest where e: "encode_rune r = b # rest"
    by (cases "encode_rune r") (auto simp: encode_rune_def Let_def split: if_splits)
  have "runes_of (b # rest @ bs) = r # runes_of (drop (length (encode_rune r)) (b # rest @ bs))"
    using decode_encode [OF v, of bs] unfolding e by (subst runes_of.simps) (simp del: decode_rune.simps)
  then show ?thesis by (simp add: e)
qed

lemma runes_of_string: "list_all valid_rune rs \<Longrightarrow> runes_of (concat (map encode_rune rs) @ bs) = rs @ runes_of bs"
  by (induction rs) (simp_all add: runes_of_encode)

lemma runes_valid: "list_all valid_rune (runes_of bs)"
proof (induction bs rule: runes_of.induct)
  case 1
  then show ?case by (simp add: runes_of.simps)
next
  case (2 b bs)
  then show ?case using decode_rune_valid [of "b # bs"] by (subst runes_of.simps) (simp del: decode_rune.simps)
qed

section \<open>Bounded text\<close>

lemma encode_bytes: "b \<in> set (encode_rune r) \<Longrightarrow> b < 256"
proof -
  define v where "v = (if valid_rune r then r else rune_error)"
  have v: "v \<le> 1114111" by (auto simp: v_def valid_rune_def rune_error_def)
  assume "b \<in> set (encode_rune r)"
  then have "b \<in> set (if v \<le> 0x7F then [v]
         else if v \<le> 0x7FF then [0xC0 + v div 64, 0x80 + v mod 64]
         else if v \<le> 0xFFFF then [0xE0 + v div 4096, 0x80 + v div 64 mod 64, 0x80 + v mod 64]
         else [0xF0 + v div 262144, 0x80 + v div 4096 mod 64, 0x80 + v div 64 mod 64, 0x80 + v mod 64])"
    unfolding encode_rune_def Let_def v_def [symmetric] .
  moreover have "v \<le> 0x7FF \<Longrightarrow> v div 64 \<le> 31" "v \<le> 0xFFFF \<Longrightarrow> v div 4096 \<le> 15" "v div 262144 \<le> 4"
    using div_le_mono [of v 2047 64] div_le_mono [of v 65535 4096] div_le_mono [of v 1114111 262144] v by simp_all
  ultimately show "b < 256"
    using low_bits(1) [of v] low_bits(1) [of "v div 64"] low_bits(1) [of "v div 4096"] by (auto split: if_splits)
qed

lemma runes_string:
  assumes "list_all valid_rune rs"
  shows "runes (string_of_runes rs @ s) = rs @ runes s"
proof -
  have "map (of_char :: char \<Rightarrow> nat) (string_of_runes rs) = concat (map encode_rune rs)"
    unfolding string_of_runes_def map_map by (rule map_idI) (auto dest: encode_bytes)
  then show ?thesis using runes_of_string [OF assms] by (simp add: runes_def)
qed

lemma length_suffixRunes: "length (runes eventTextTruncatedSuffix) = 14"
  by (simp add: runes_def eventTextTruncatedSuffix_def runes_of.simps)

lemma truncate_bound:
  assumes "0 < n"
  shows "int (RuneCountInString (truncateEventText raw n)) \<le> n"
proof -
  have valid: "list_all valid_rune (take k (runes raw))" for k
    using runes_valid [of "map of_char raw"] by (auto simp: runes_def list_all_iff dest: in_set_takeD)
  have cut: "RuneCountInString (string_of_runes (take k (runes raw)) @ s) = length (take k (runes raw)) + length (runes s)" for k s
    by (simp add: RuneCountInString_def runes_string [OF valid])
  have plain: "RuneCountInString (string_of_runes (take k (runes raw))) \<le> k" for k
    using cut [of k "[]"] by (simp add: runes_def runes_of.simps)
  show ?thesis
  proof (cases "int (length (runes raw)) \<le> n")
    case True
    then show ?thesis using assms by (simp add: truncateEventText_def RuneCountInString_def Let_def)
  next
    case False
    show ?thesis
    proof (cases "n \<le> 14")
      case True
      then have "truncateEventText raw n = string_of_runes (take (nat n) (runes raw))"
        using assms False by (simp add: truncateEventText_def length_suffixRunes Let_def)
      then show ?thesis using plain [of "nat n"] assms by simp
    next
      case large: False
      then have "truncateEventText raw n = string_of_runes (take (nat n - 14) (runes raw)) @ eventTextTruncatedSuffix"
        using assms False by (simp add: truncateEventText_def length_suffixRunes Let_def)
      then show ?thesis using cut [of "nat n - 14"] large by (simp add: length_suffixRunes)
    qed
  qed
qed


section \<open>Redacted JSON\<close>

text \<open>Every member under a sensitive key, at any depth, is the redaction mark.\<close>

fun json_clean :: "goenv \<Rightarrow> json \<Rightarrow> bool" where
  "json_clean E (JObj fs) = list_all (\<lambda>(k, v). if isSensitiveKey E k then v = JStr eventTextRedacted else json_clean E v) fs"
| "json_clean E (JArr vs) = list_all (json_clean E) vs"
| "json_clean E _ = True"

text \<open>
  C31. Redaction of a JSON value replaces whatever stands under a sensitive key, at any depth,
  and leaves nothing to do for a second pass.
\<close>

theorem redacted_json_clean:
  "json_clean E (redactJSONValue E v) \<and> redactJSONValue E (redactJSONValue E v) = redactJSONValue E v"
proof (induction E v rule: redactJSONValue.induct)
  case (1 E fs)
  then show ?case by (fastforce simp: list_all_iff)
next
  case (2 E vs)
  then show ?case by (simp add: list_all_iff)
qed simp_all

end
