(* ===== verification/Effects.thy ===== *)
theory Effects
  imports Prelude "HOL-Library.State_Monad"
begin

text \<open>
  Programs that thread a state through many calls, in the state monad of the library: the
  early return of Go's \<open>if err != nil\<close>, loops over a slice, and the rules of a Hoare logic
  that the proofs about the engine and the worker are made of.
\<close>

section \<open>Programs\<close>

abbreviation ret :: "'a \<Rightarrow> ('s, 'a) state" where
  "ret \<equiv> State_Monad.return"

definition gets :: "('s \<Rightarrow> 'a) \<Rightarrow> ('s, 'a) state" where
  "gets f = State (\<lambda>s. (f s, s))"

definition modify :: "('s \<Rightarrow> 's) \<Rightarrow> ('s, unit) state" where
  "modify f = State (\<lambda>s. ((), f s))"

text \<open>Sequencing with an early return: \<open>Inl\<close> ends the method, \<open>Inr\<close> goes on.\<close>

definition attempt :: "('s, 'e + 'a) state \<Rightarrow> ('a \<Rightarrow> ('s, 'e + 'b) state) \<Rightarrow> ('s, 'e + 'b) state" where
  "attempt m f = State_Monad.bind m (\<lambda>x. case x of Inl e \<Rightarrow> ret (Inl e) | Inr a \<Rightarrow> f a)"

fun for_each :: "('a \<Rightarrow> ('s, unit) state) \<Rightarrow> 'a list \<Rightarrow> ('s, unit) state" where
  "for_each f [] = ret ()"
| "for_each f (x # xs) = State_Monad.bind (f x) (\<lambda>_. for_each f xs)"

text \<open>A loop over a slice that carries a value and may return early.\<close>

fun fold_attempt :: "('a \<Rightarrow> 'b \<Rightarrow> ('s, 'e + 'b) state) \<Rightarrow> 'a list \<Rightarrow> 'b \<Rightarrow> ('s, 'e + 'b) state" where
  "fold_attempt f [] b = ret (Inr b)"
| "fold_attempt f (x # xs) b = attempt (f x b) (fold_attempt f xs)"

section \<open>Partial correctness of programs\<close>

text \<open>Every program here ends, so this is total correctness as well.\<close>

definition triple :: "('s \<Rightarrow> bool) \<Rightarrow> ('s, 'a) state \<Rightarrow> ('a \<Rightarrow> 's \<Rightarrow> bool) \<Rightarrow> bool" where
  "triple P m Q \<longleftrightarrow> (\<forall>s. P s \<longrightarrow> Q (fst (run_state m s)) (snd (run_state m s)))"

named_theorems triple_rules \<open>rules of the program logic, applied from the outside in\<close>

lemma run_gets [simp]: "run_state (gets f) s = (f s, s)"
  by (simp add: gets_def)

lemma run_modify [simp]: "run_state (modify f) s = ((), f s)"
  by (simp add: modify_def)

lemma run_attempt [simp]:
  "run_state (attempt m f) s =
     (case run_state m s of (Inl e, s') \<Rightarrow> (Inl e, s') | (Inr a, s') \<Rightarrow> run_state (f a) s')"
  by (simp add: attempt_def split: prod.split sum.split)

lemma tripleD: "triple P m Q \<Longrightarrow> P s \<Longrightarrow> run_state m s = (a, s') \<Longrightarrow> Q a s'"
  by (auto simp: triple_def)

lemma tripleI: "(\<And>s a s'. P s \<Longrightarrow> run_state m s = (a, s') \<Longrightarrow> Q a s') \<Longrightarrow> triple P m Q"
  by (simp add: triple_def)

lemma triple_post: "triple P m Q \<Longrightarrow> (\<And>a s. Q a s \<Longrightarrow> Q' a s) \<Longrightarrow> triple P m Q'"
  by (auto simp: triple_def)

lemma triple_pre: "triple P' m Q \<Longrightarrow> (\<And>s. P s \<Longrightarrow> P' s) \<Longrightarrow> triple P m Q"
  by (auto simp: triple_def)

lemma triple_conj: "triple P m Q \<Longrightarrow> triple P' m Q' \<Longrightarrow> triple (\<lambda>s. P s \<and> P' s) m (\<lambda>a s. Q a s \<and> Q' a s)"
  by (auto simp: triple_def)

lemma triple_fact: "(C \<Longrightarrow> triple P m Q) \<Longrightarrow> triple (\<lambda>s. P s \<and> C) m Q"
  by (auto simp: triple_def)

lemma triple_ret [triple_rules]: "(\<And>s. P s \<Longrightarrow> Q a s) \<Longrightarrow> triple P (ret a) Q"
  by (simp add: triple_def)

lemma triple_gets [triple_rules]: "(\<And>s. P s \<Longrightarrow> Q (f s) s) \<Longrightarrow> triple P (gets f) Q"
  by (simp add: triple_def)

lemma triple_modify [triple_rules]: "(\<And>s. P s \<Longrightarrow> Q () (f s)) \<Longrightarrow> triple P (modify f) Q"
  by (simp add: triple_def)

lemma triple_bind:
  "triple P m R \<Longrightarrow> (\<And>a. triple (R a) (f a) Q) \<Longrightarrow> triple P (State_Monad.bind m f) Q"
  by (auto simp: triple_def split: prod.split)

lemma triple_attempt:
  assumes "triple P m R" and "\<And>e s. R (Inl e) s \<Longrightarrow> Q (Inl e) s" and "\<And>a. triple (R (Inr a)) (f a) Q"
  shows "triple P (attempt m f) Q"
  unfolding attempt_def
  by (rule triple_bind [OF assms(1)]) (use assms(2,3) in \<open>auto simp: triple_def split: sum.split\<close>)

lemma triple_if: "(b \<Longrightarrow> triple P m Q) \<Longrightarrow> (\<not> b \<Longrightarrow> triple P n Q) \<Longrightarrow> triple P (if b then m else n) Q"
  by simp

lemma triple_for_each:
  assumes "\<And>x. x \<in> set xs \<Longrightarrow> triple P (f x) (\<lambda>_. P)"
  shows "triple P (for_each f xs) (\<lambda>_. P)"
  using assms
proof (induction xs)
  case (Cons x xs)
  then have "triple P (f x) (\<lambda>_. P)" "triple P (for_each f xs) (\<lambda>_. P)" by simp_all
  then show ?case by (auto intro: triple_bind)
qed (simp add: triple_ret)

lemma triple_fold_attempt:
  assumes "\<And>x b. x \<in> set xs \<Longrightarrow> triple (P b) (f x b) (\<lambda>r s. case r of Inl e \<Rightarrow> Q e s | Inr b' \<Rightarrow> P b' s)"
  shows "triple (P b) (fold_attempt f xs b) (\<lambda>r s. case r of Inl e \<Rightarrow> Q e s | Inr b' \<Rightarrow> P b' s)"
  using assms
proof (induction xs arbitrary: b)
  case (Cons x xs)
  have "triple (P b) (f x b) (\<lambda>r s. case r of Inl e \<Rightarrow> Q e s | Inr b' \<Rightarrow> P b' s)"
    using Cons.prems by simp
  then show ?case
    by (auto intro!: triple_attempt Cons.IH Cons.prems)
qed (simp add: triple_ret)

text \<open>Invariants: what a program keeps, whatever it returns.\<close>

abbreviation keeps :: "('s \<Rightarrow> bool) \<Rightarrow> ('s, 'a) state \<Rightarrow> bool" where
  "keeps I m \<equiv> triple I m (\<lambda>_. I)"

lemma keepsD: "keeps I m \<Longrightarrow> I s \<Longrightarrow> I (snd (run_state m s))"
  by (auto simp: triple_def)

named_theorems keeps_rules \<open>what the parts of a program keep\<close>

lemma keeps_ret [keeps_rules]: "keeps I (ret a)"
  by (simp add: triple_ret)

lemma keeps_gets [keeps_rules]: "keeps I (gets f)"
  by (simp add: triple_gets)

lemma keeps_bind [keeps_rules]: "keeps I m \<Longrightarrow> (\<And>a. keeps I (f a)) \<Longrightarrow> keeps I (State_Monad.bind m f)"
  by (rule triple_bind)

lemma keeps_attempt [keeps_rules]: "keeps I m \<Longrightarrow> (\<And>a. keeps I (f a)) \<Longrightarrow> keeps I (attempt m f)"
  by (rule triple_attempt)

lemma keeps_for_each [keeps_rules]: "(\<And>x. keeps I (f x)) \<Longrightarrow> keeps I (for_each f xs)"
  by (rule triple_for_each)

lemma keeps_fold_attempt [keeps_rules]: "(\<And>x b. keeps I (f x b)) \<Longrightarrow> keeps I (fold_attempt f xs b)"
proof -
  assume f: "\<And>x b. keeps I (f x b)"
  have "triple ((\<lambda>_. I) b) (fold_attempt f xs b) (\<lambda>r s. case r of Inl e \<Rightarrow> (\<lambda>_. I) e s | Inr b' \<Rightarrow> (\<lambda>_. I) b' s)"
    by (rule triple_fold_attempt) (auto simp: triple_def split: sum.split dest: keepsD [OF f])
  then show ?thesis by (auto simp: triple_def split: sum.splits)
qed

lemma keeps_if [keeps_rules]: "keeps I m \<Longrightarrow> keeps I n \<Longrightarrow> keeps I (if b then m else n)"
  by simp

lemma keeps_option [keeps_rules]:
  "keeps I m \<Longrightarrow> (\<And>x. keeps I (f x)) \<Longrightarrow> keeps I (case v of None \<Rightarrow> m | Some x \<Rightarrow> f x)"
  by (cases v) simp_all

lemma keeps_sum [keeps_rules]:
  "(\<And>e. keeps I (g e)) \<Longrightarrow> (\<And>x. keeps I (f x)) \<Longrightarrow> keeps I (case v of Inl e \<Rightarrow> g e | Inr x \<Rightarrow> f x)"
  by (cases v) simp_all

lemma keeps_prod [keeps_rules]: "(\<And>x y. keeps I (f x y)) \<Longrightarrow> keeps I (case v of (x, y) \<Rightarrow> f x y)"
  by (cases v) simp

lemma keeps_let [keeps_rules]: "(\<And>x. keeps I (f x)) \<Longrightarrow> keeps I (let x = v in f x)"
  by simp

section \<open>Programs that may return early\<close>

text \<open>A program that always returns early, and one that keeps a predicate when it does not.\<close>

definition ends :: "('s, 'e + 'a) state \<Rightarrow> bool" where
  "ends m \<longleftrightarrow> triple (\<lambda>_. True) m (\<lambda>r _. \<exists>x. r = Inl x)"

definition goes :: "('s \<Rightarrow> bool) \<Rightarrow> ('s, 'e + 'a) state \<Rightarrow> bool" where
  "goes I m \<longleftrightarrow> triple I m (\<lambda>r s. \<forall>a. r = Inr a \<longrightarrow> I s)"

named_theorems ends_rules \<open>programs that always return early\<close>
named_theorems goes_rules \<open>what the parts of a program keep when they do not return early\<close>

lemma ends_bind [ends_rules]: "(\<And>a. ends (f a)) \<Longrightarrow> ends (State_Monad.bind m f)"
  unfolding ends_def by (auto simp: triple_def split: prod.split)

lemma ends_ret [ends_rules]: "ends (ret (Inl x))"
  unfolding ends_def by (auto simp: triple_def)

lemma ends_let [ends_rules]: "(\<And>x. ends (f x)) \<Longrightarrow> ends (let x = v in f x)"
  by simp

lemma goes_ends [goes_rules]: "ends m \<Longrightarrow> goes I m"
  unfolding ends_def goes_def triple_def by (metis Inl_Inr_False)

lemma goes_keeps: "keeps I m \<Longrightarrow> goes I m"
  unfolding goes_def by (auto simp: triple_def)

lemma goes_ret [goes_rules]: "goes I (ret x)"
  by (rule goes_keeps) (rule keeps_ret)

lemma goes_bind [goes_rules]: "keeps I m \<Longrightarrow> (\<And>a. goes I (f a)) \<Longrightarrow> goes I (State_Monad.bind m f)"
  unfolding goes_def by (rule triple_bind)

lemma goes_attempt [goes_rules]: "goes I m \<Longrightarrow> (\<And>a. goes I (f a)) \<Longrightarrow> goes I (attempt m f)"
  unfolding goes_def by (rule triple_attempt) (auto simp: triple_def)

lemma goes_fold_attempt [goes_rules]: "(\<And>x b. goes I (f x b)) \<Longrightarrow> goes I (fold_attempt f xs b)"
proof -
  assume f: "\<And>x b. goes I (f x b)"
  show ?thesis by (induction xs arbitrary: b) (auto intro: goes_rules f)
qed

lemma goes_if [goes_rules]: "goes I m \<Longrightarrow> goes I n \<Longrightarrow> goes I (if b then m else n)"
  by simp

lemma goes_option [goes_rules]:
  "goes I m \<Longrightarrow> (\<And>x. goes I (f x)) \<Longrightarrow> goes I (case v of None \<Rightarrow> m | Some x \<Rightarrow> f x)"
  by (cases v) simp_all

lemma goes_sum [goes_rules]:
  "(\<And>e. goes I (g e)) \<Longrightarrow> (\<And>x. goes I (f x)) \<Longrightarrow> goes I (case v of Inl e \<Rightarrow> g e | Inr x \<Rightarrow> f x)"
  by (cases v) simp_all

lemma goes_prod [goes_rules]: "(\<And>x y. goes I (f x y)) \<Longrightarrow> goes I (case v of (x, y) \<Rightarrow> f x y)"
  by (cases v) simp

lemma goes_let [goes_rules]: "(\<And>x. goes I (f x)) \<Longrightarrow> goes I (let x = v in f x)"
  by simp

end
