(* ===== verification/Artifacts.thy ===== *)
theory Artifacts
  imports EventText StateContract
begin

text \<open>
  Large objects: the artifact store interface (\<open>pkg/artifact/store.go\<close>) and its in-memory
  implementation (\<open>memory_store.go\<close>), the workspace interface (\<open>pkg/workspace/workspace.go\<close>),
  memory snapshots (\<open>pkg/memory/snapshot.go\<close>) and workspace snapshots
  (\<open>pkg/engine/workspace_snapshot.go\<close>). Bytes are strings; an \<open>io.Reader\<close> is what reading it
  to the end gives, the bytes or an error.
\<close>

section \<open>Libraries\<close>

text \<open>
  SHA-256, gzip and the decoding of a snapshot are functions of Go's standard library that the
  code only composes; an error is its message.
\<close>

type_synonym reader = "string + string"

record golib =
  lib_Sum256 :: "string \<Rightarrow> nat list"
  lib_gzip :: "string \<Rightarrow> string"
  lib_gzip_reader :: "string \<Rightarrow> string + reader"
  lib_unmarshal_snapshot :: "string \<Rightarrow> string + MemorySnapshot"
  lib_Quote :: "string \<Rightarrow> string"

definition sha256hex :: "golib \<Rightarrow> string \<Rightarrow> string" where
  "sha256hex L data = fmt_x (lib_Sum256 L data)"

section \<open>The artifact store\<close>

datatype ArtErr = ArtNotFound string | ArtErr string

fun ArtErr_Error :: "ArtErr \<Rightarrow> string" where
  "ArtErr_Error (ArtNotFound key) = ''artifact: not found: '' @ key"
| "ArtErr_Error (ArtErr msg) = msg"

record 'a ArtStore =
  Art_Put :: "'a \<Rightarrow> string \<Rightarrow> reader \<Rightarrow> 'a \<times> (ArtErr + string \<times> int64)"
  Art_Get :: "'a \<Rightarrow> string \<Rightarrow> ArtErr + reader"
  Art_Exists :: "'a \<Rightarrow> string \<Rightarrow> ArtErr + bool"
  Art_PresignedURL :: "'a \<Rightarrow> string \<Rightarrow> ArtErr + string"

type_synonym blobs = "(string, string) gomap"

definition Blob_Put :: "golib \<Rightarrow> blobs \<Rightarrow> string \<Rightarrow> reader \<Rightarrow> blobs \<times> (ArtErr + string \<times> int64)" where
  "Blob_Put L s key r =
     (case r of
        Inl err \<Rightarrow> (s, Inl (ArtErr (''memory store put: '' @ err)))
      | Inr data \<Rightarrow> (gm_put key data s, Inr (sha256hex L data, int (length data))))"

definition Blob_Get :: "blobs \<Rightarrow> string \<Rightarrow> ArtErr + reader" where
  "Blob_Get s key = (case gm_get s key of None \<Rightarrow> Inl (ArtNotFound key) | Some data \<Rightarrow> Inr (Inr data))"

definition Blob_Exists :: "blobs \<Rightarrow> string \<Rightarrow> ArtErr + bool" where
  "Blob_Exists s key = Inr (gm_has s key)"

definition memory_artifacts :: "golib \<Rightarrow> blobs ArtStore" where
  "memory_artifacts L =
     \<lparr>Art_Put = Blob_Put L, Art_Get = Blob_Get, Art_Exists = Blob_Exists, Art_PresignedURL = (\<lambda>_ _. Inr [])\<rparr>"

section \<open>The workspace interface\<close>

datatype WsErr = ErrPathTraversal string | ErrQuotaBytes string | ErrQuotaFiles string | WsErr string

text \<open>The sentinel's text, with what the code appends to it.\<close>

fun WsErr_Error :: "WsErr \<Rightarrow> string" where
  "WsErr_Error (ErrPathTraversal d) = ''workspace: path traversal detected'' @ d"
| "WsErr_Error (ErrQuotaBytes d) = ''workspace: total bytes quota exceeded'' @ d"
| "WsErr_Error (ErrQuotaFiles d) = ''workspace: file count quota exceeded'' @ d"
| "WsErr_Error (WsErr msg) = msg"

record FileInfo =
  fi_Name :: string
  fi_Path :: string
  fi_IsDir :: bool
  fi_Size :: int64

record 'w WsManager =
  Ws_Write :: "'w \<Rightarrow> string \<Rightarrow> string \<Rightarrow> 'w \<times> WsErr option"
  Ws_Read :: "'w \<Rightarrow> string \<Rightarrow> WsErr + string"
  Ws_List :: "'w \<Rightarrow> string \<Rightarrow> WsErr + FileInfo list"
  Ws_Stat :: "'w \<Rightarrow> string \<Rightarrow> WsErr + FileInfo"
  Ws_Delete :: "'w \<Rightarrow> string \<Rightarrow> 'w \<times> WsErr option"
  Ws_Snapshot :: "'w \<Rightarrow> WsErr + reader"
  Ws_Restore :: "'w \<Rightarrow> string \<Rightarrow> 'w \<times> WsErr option"
  Ws_Usage :: "'w \<Rightarrow> int64 \<times> int64"

section \<open>Memory snapshots\<close>

fun MessageRole_str :: "MessageRole \<Rightarrow> string" where
  "MessageRole_str MessageRoleSystem = ''system''"
| "MessageRole_str MessageRoleUser = ''user''"
| "MessageRole_str MessageRoleAssistant = ''assistant''"
| "MessageRole_str MessageRoleTool = ''tool''"

text \<open>The JSON values that the struct tags of \<open>pkg/model/memory.go\<close> describe.\<close>

definition omitempty :: "string \<Rightarrow> string \<Rightarrow> (string \<times> json) list" where
  "omitempty key v = (if v = [] then [] else [(key, JStr v)])"

definition toolcall_json :: "MemoryToolCall \<Rightarrow> json" where
  "toolcall_json tc =
     JObj (omitempty ''id'' (tc_ID tc) @ [(''name'', JStr (tc_Name tc)), (''args'', JStr (tc_Args tc))])"

definition message_json :: "MemoryMessage \<Rightarrow> json" where
  "message_json m =
     JObj ([(''role'', JStr (MessageRole_str (mm_Role m)))] @ omitempty ''content'' (mm_Content m)
       @ omitempty ''tool_call_id'' (mm_ToolCallID m)
       @ (if mm_ToolCalls m = [] then [] else [(''tool_calls'', JArr (map toolcall_json (mm_ToolCalls m)))]))"

definition snapshot_json :: "MemorySnapshot \<Rightarrow> json" where
  "snapshot_json m =
     JObj ([(''run_id'', JStr (ms_RunID m)), (''step_index'', JNum (of_int (ms_StepIndex m))),
            (''messages'', JArr (map message_json (ms_Messages m)))]
       @ omitempty ''scratchpad'' (ms_Scratchpad m)
       @ (if ms_ToolState m = [] then [] else [(''tool_state'', JObj (sort_key fst (ms_ToolState m)))]))"

datatype SnapErr = SnapIntegrity string | SnapErr string

fun SnapErr_Error :: "SnapErr \<Rightarrow> string" where
  "SnapErr_Error (SnapIntegrity d) = ''memory: snapshot integrity check failed: '' @ d"
| "SnapErr_Error (SnapErr msg) = msg"

definition S3Key :: "string \<Rightarrow> string \<Rightarrow> string \<Rightarrow> int64 \<Rightarrow> string" where
  "S3Key tenantID taskID runID stepIndex =
     ''memory/'' @ tenantID @ ''/'' @ taskID @ ''/'' @ runID @ ''/step_'' @ fmt_08d stepIndex @ ''.json.gz''"

definition Save ::
  "golib \<Rightarrow> jsonlib \<Rightarrow> 'a ArtStore \<Rightarrow> 'a \<Rightarrow> string \<Rightarrow> string \<Rightarrow> MemorySnapshot \<Rightarrow> 'a \<times> (SnapErr + ArtifactRef)" where
  "Save L J A a tenantID taskID snap =
     (case json_print J (snapshot_json snap) of
        Inl err \<Rightarrow> (a, Inl (SnapErr (''memory: marshal: '' @ err)))
      | Inr data \<Rightarrow>
          let key = S3Key tenantID taskID (ms_RunID snap) (ms_StepIndex snap)
          in case Art_Put A a key (Inr (lib_gzip L data)) of
               (a', Inl err) \<Rightarrow> (a', Inl (SnapErr (''memory: put: '' @ ArtErr_Error err)))
             | (a', Inr (sha, n)) \<Rightarrow> (a', Inr \<lparr>ar_S3Key = key, ar_SHA256 = sha, ar_Size = n\<rparr>))"

text \<open>The two integrity checks a reference carries, and the text of the one that fails.\<close>

definition integrity_error :: "golib \<Rightarrow> string \<Rightarrow> ArtifactRef \<Rightarrow> string \<Rightarrow> string option" where
  "integrity_error L label ref raw =
     (if 0 < ar_Size ref \<and> int (length raw) \<noteq> ar_Size ref
      then Some (label @ '' size mismatch (expected='' @ fmt_d (ar_Size ref) @ '' got='' @ fmt_d (int (length raw)) @ '')'')
      else if ar_SHA256 ref \<noteq> [] \<and> sha256hex L raw \<noteq> ar_SHA256 ref
      then Some (label @ '' sha256 mismatch (expected='' @ ar_SHA256 ref @ '' got='' @ sha256hex L raw @ '')'')
      else None)"

definition Load :: "golib \<Rightarrow> 'a ArtStore \<Rightarrow> 'a \<Rightarrow> ArtifactRef \<Rightarrow> SnapErr + MemorySnapshot" where
  "Load L A a ref =
     (case Art_Get A a (ar_S3Key ref) of
        Inl err \<Rightarrow> Inl (SnapErr (''memory: get: '' @ ArtErr_Error err))
      | Inr (Inl err) \<Rightarrow> Inl (SnapErr (''memory: read raw snapshot: '' @ err))
      | Inr (Inr raw) \<Rightarrow>
          (case integrity_error L ''snapshot'' ref raw of
             Some d \<Rightarrow> Inl (SnapIntegrity d)
           | None \<Rightarrow>
               (case lib_gzip_reader L raw of
                  Inl err \<Rightarrow> Inl (SnapErr (''memory: gzip reader: '' @ err))
                | Inr (Inl err) \<Rightarrow> Inl (SnapErr (''memory: read: '' @ err))
                | Inr (Inr data) \<Rightarrow>
                    (case lib_unmarshal_snapshot L data of
                       Inl err \<Rightarrow> Inl (SnapErr (''memory: unmarshal: '' @ err))
                     | Inr snap \<Rightarrow> Inr snap))))"

section \<open>Workspace snapshots\<close>

datatype WsSnapErr = WsSnapIntegrity string | WsSnapErr string

fun WsSnapErr_Error :: "WsSnapErr \<Rightarrow> string" where
  "WsSnapErr_Error (WsSnapIntegrity d) = ''engine: workspace snapshot integrity check failed: '' @ d"
| "WsSnapErr_Error (WsSnapErr msg) = msg"

definition WorkspaceS3Key :: "string \<Rightarrow> string \<Rightarrow> string \<Rightarrow> int64 \<Rightarrow> string" where
  "WorkspaceS3Key tenantID taskID runID stepIndex =
     ''workspaces/'' @ tenantID @ ''/'' @ taskID @ ''/'' @ runID @ ''/step_'' @ fmt_08d stepIndex @ ''.tar.gz''"

definition SnapshotWorkspace ::
  "'w WsManager \<Rightarrow> 'w \<Rightarrow> 'a ArtStore \<Rightarrow> 'a \<Rightarrow> string \<Rightarrow> string \<Rightarrow> string \<Rightarrow> int64 \<Rightarrow> 'a \<times> (WsSnapErr + ArtifactRef)" where
  "SnapshotWorkspace W w A a tenantID taskID runID stepIndex =
     (case Ws_Snapshot W w of
        Inl err \<Rightarrow> (a, Inl (WsSnapErr (''snapshot workspace: '' @ WsErr_Error err)))
      | Inr rc \<Rightarrow>
          let key = WorkspaceS3Key tenantID taskID runID stepIndex
          in case Art_Put A a key rc of
               (a', Inl err) \<Rightarrow> (a', Inl (WsSnapErr (''put workspace snapshot: '' @ ArtErr_Error err)))
             | (a', Inr (sha, n)) \<Rightarrow> (a', Inr \<lparr>ar_S3Key = key, ar_SHA256 = sha, ar_Size = n\<rparr>))"

definition RestoreWorkspace ::
  "golib \<Rightarrow> 'w WsManager \<Rightarrow> 'w \<Rightarrow> 'a ArtStore \<Rightarrow> 'a \<Rightarrow> ArtifactRef \<Rightarrow> 'w \<times> WsSnapErr option" where
  "RestoreWorkspace L W w A a ref =
     (case Art_Get A a (ar_S3Key ref) of
        Inl err \<Rightarrow> (w, Some (WsSnapErr (''get workspace snapshot: '' @ ArtErr_Error err)))
      | Inr (Inl err) \<Rightarrow> (w, Some (WsSnapErr (''read workspace snapshot: '' @ err)))
      | Inr (Inr raw) \<Rightarrow>
          (case integrity_error L ''workspace snapshot'' ref raw of
             Some d \<Rightarrow> (w, Some (WsSnapIntegrity d))
           | None \<Rightarrow>
               (case Ws_Restore W w raw of
                  (w', Some err) \<Rightarrow> (w', Some (WsSnapErr (''restore workspace: '' @ WsErr_Error err)))
                | (w', None) \<Rightarrow> (w', None))))"

end
