(* ===== verification/Engine.thy ===== *)
theory Engine
  imports Effects Artifacts PromptPolicy Routing
begin

text \<open>
  The execution engine (\<open>pkg/engine/engine.go\<close>, \<open>metrics.go\<close>, \<open>registry.go\<close>, \<open>tool.go\<close>):
  one run of the ReAct loop as a program over the state the engine works on. The model client,
  the tools and the pusher are parameters; so are the clock, the cancellation of the context
  and what other goroutines and processes do to the store between two calls, each read at the
  next tick of the state. Logging and tracing have no effect on any of this and are left out.
\<close>

section \<open>Constants, results, metrics\<close>

definition maxEngineMemoryMessages :: int64 where
  "maxEngineMemoryMessages = 64"

definition maxConsecutiveLengthStops :: int64 where
  "maxConsecutiveLengthStops = 3"

definition maxInlineStepFieldBytes :: int64 where
  "maxInlineStepFieldBytes = 128 * 1024"

definition externalizedStepFieldTag :: string where
  "externalizedStepFieldTag = ''[EXTERNALIZED_STEP_FIELD]''"

definition lengthContinuePrompt :: string where
  "lengthContinuePrompt =
     ''Your previous response was truncated due to length. Continue exactly from where you stopped, without repeating prior content.''"

definition DefaultEngineConfig :: int64 where
  "DefaultEngineConfig = 50"

record RunResult =
  rr_Status :: RunStatus
  rr_LastStep :: int64
  rr_ErrorMessage :: string
  rr_TotalTokens :: int64
  rr_TotalCostUSD :: float64

record Metrics =
  mt_taskStarted :: int64
  mt_taskSucceeded :: int64
  mt_taskFailed :: int64
  mt_taskAborted :: int64
  mt_stepLatencyTotal :: int64
  mt_stepCount :: int64
  mt_streamPushErrors :: int64

definition NewMetrics :: Metrics where
  "NewMetrics =
     \<lparr>mt_taskStarted = 0, mt_taskSucceeded = 0, mt_taskFailed = 0, mt_taskAborted = 0,
      mt_stepLatencyTotal = 0, mt_stepCount = 0, mt_streamPushErrors = 0\<rparr>"

definition TaskStarted :: "Metrics \<Rightarrow> Metrics" where
  "TaskStarted m = m\<lparr>mt_taskStarted := add64 (mt_taskStarted m) 1\<rparr>"

definition TaskSucceeded :: "Metrics \<Rightarrow> Metrics" where
  "TaskSucceeded m = m\<lparr>mt_taskSucceeded := add64 (mt_taskSucceeded m) 1\<rparr>"

definition TaskFailed :: "Metrics \<Rightarrow> Metrics" where
  "TaskFailed m = m\<lparr>mt_taskFailed := add64 (mt_taskFailed m) 1\<rparr>"

definition TaskAborted :: "Metrics \<Rightarrow> Metrics" where
  "TaskAborted m = m\<lparr>mt_taskAborted := add64 (mt_taskAborted m) 1\<rparr>"

definition StepLatency :: "int64 \<Rightarrow> Metrics \<Rightarrow> Metrics" where
  "StepLatency ms m =
     m\<lparr>mt_stepLatencyTotal := add64 (mt_stepLatencyTotal m) ms, mt_stepCount := add64 (mt_stepCount m) 1\<rparr>"

definition StreamPushError :: "Metrics \<Rightarrow> Metrics" where
  "StreamPushError m = m\<lparr>mt_streamPushErrors := add64 (mt_streamPushErrors m) 1\<rparr>"

fun StateErr_Error :: "StateErr \<Rightarrow> string" where
  "StateErr_Error ErrNotFound = ''not found''"
| "StateErr_Error ErrConflict = ''conflict: condition check failed''"
| "StateErr_Error ErrAlreadyExists = ''already exists''"
| "StateErr_Error (ErrOther msg) = msg"

section \<open>Tools\<close>

text \<open>A tool works on the artifacts and the workspace; the number is that of the reading.\<close>

record ('a, 'w) Tool =
  tl_Name :: string
  tl_Description :: string
  tl_Schema :: string
  tl_Execute :: "nat \<Rightarrow> 'a \<times> 'w \<Rightarrow> string \<Rightarrow> ('a \<times> 'w) \<times> (string + ToolResult)"

type_synonym ('a, 'w) registry = "(string, ('a, 'w) Tool) gomap"

definition Register :: "('a, 'w) Tool \<Rightarrow> ('a, 'w) registry \<Rightarrow> ('a, 'w) registry" where
  "Register tool r = gm_put (tl_Name tool) tool r"

definition Registry_Get :: "('a, 'w) registry \<Rightarrow> string \<Rightarrow> ('a, 'w) Tool option" where
  "Registry_Get r name = gm_get r name"

definition Registry_List :: "('a, 'w) registry \<Rightarrow> string list" where
  "Registry_List r = map fst r"

definition collectToolSpecs :: "('a, 'w) registry \<Rightarrow> ToolSpec list" where
  "collectToolSpecs reg =
     concat (map (\<lambda>name. case Registry_Get reg name of
          None \<Rightarrow> []
        | Some t \<Rightarrow> [\<lparr>tsp_Name = tl_Name t, tsp_Description = tl_Description t, tsp_Parameters = tl_Schema t\<rparr>])
       (sort (Registry_List reg)))"

section \<open>Pure parts of the loop\<close>

definition classifyTaskPrompt :: "goenv \<Rightarrow> string \<Rightarrow> string" where
  "classifyTaskPrompt E prompt =
     (let p = ToLower E prompt
      in if Contains p ''code'' \<or> Contains p ''bug'' \<or> Contains p ''test'' \<or> Contains p ''refactor'' then ''coding''
         else if Contains p ''analy'' \<or> Contains p ''report'' \<or> Contains p ''sql'' \<or> Contains p ''metric'' then ''analysis''
         else if Contains p ''summar'' \<or> Contains p ''rewrite'' \<or> Contains p ''translate'' then ''writing''
         else ''general'')"

definition trimMemoryMessages :: "MemoryMessage list \<Rightarrow> int64 \<Rightarrow> MemoryMessage list" where
  "trimMemoryMessages messages limit =
     (if limit \<le> 0 \<or> int (length messages) \<le> limit then messages
      else
        let keepHead = (if messages \<noteq> [] \<and> mm_Role (hd messages) = MessageRoleSystem then 1 else 0 :: int);
            tailBudget = limit - keepHead
        in if tailBudget \<le> 0 then take (nat keepHead) messages
           else
             let start0 = int (length messages) - tailBudget;
                 start = (if start0 < keepHead then keepHead else start0)
             in take (nat keepHead) messages @ drop (nat start) messages)"

record budgetExceeded =
  be_Code :: string
  be_Message :: string

definition checkBudgetExceeded :: "ModelConfig option \<Rightarrow> int64 \<Rightarrow> float64 \<Rightarrow> budgetExceeded option" where
  "checkBudgetExceeded cfg totalTokens totalCostUSD =
     (case cfg of
        None \<Rightarrow> None
      | Some c \<Rightarrow>
          if 0 < mc_MaxTokens c \<and> mc_MaxTokens c < totalTokens
          then Some \<lparr>be_Code = ''TOKEN_CAP_EXCEEDED'',
                 be_Message = ''token cap exceeded: total_tokens='' @ fmt_d totalTokens @ '' cap='' @ fmt_d (mc_MaxTokens c)\<rparr>
          else if 0 < mc_CostCapUSD c \<and> f64_add (mc_CostCapUSD c) (f64 (1 / 1000000000)) < totalCostUSD
          then Some \<lparr>be_Code = ''COST_CAP_EXCEEDED'',
                 be_Message = ''cost cap exceeded: total_cost_usd='' @ fmt_f 6 totalCostUSD @ '' cap_usd='' @ fmt_f 6 (mc_CostCapUSD c)\<rparr>
          else None)"

definition StepFieldS3Key :: "string \<Rightarrow> string \<Rightarrow> string \<Rightarrow> int64 \<Rightarrow> string \<Rightarrow> string" where
  "StepFieldS3Key tenantID taskID runID stepIndex field =
     ''steps/'' @ tenantID @ ''/'' @ taskID @ ''/'' @ runID @ ''/step_'' @ fmt_08d stepIndex @ ''_'' @ field @ ''.txt''"

text \<open>The calls of a response with their identifiers filled in.\<close>

definition fill_call_ids :: "int64 \<Rightarrow> ToolCall list \<Rightarrow> ToolCall list" where
  "fill_call_ids stepIdx calls =
     map (\<lambda>(idx, tc). if tcl_ID tc = [] then tc\<lparr>tcl_ID := ''call_'' @ fmt_d stepIdx @ ''_'' @ fmt_d (int idx)\<rparr> else tc)
       (enumerate 0 calls)"

record persistedToolOutput =
  po_Tool :: string
  po_ToolCallID :: string
  po_Output :: string

definition toolOutputs_json :: "persistedToolOutput list \<Rightarrow> json" where
  "toolOutputs_json outs =
     JArr (map (\<lambda>o'. JObj ([(''tool'', JStr (po_Tool o'))] @ omitempty ''tool_call_id'' (po_ToolCallID o')
       @ [(''output'', JStr (po_Output o'))])) outs)"

definition artifact_json :: "ArtifactRef \<Rightarrow> json" where
  "artifact_json ref =
     JObj [(''s3_key'', JStr (ar_S3Key ref)), (''sha256'', JStr (ar_SHA256 ref)), (''size'', JNum (of_int (ar_Size ref)))]"

definition externalizedStepField_json :: "string \<Rightarrow> ArtifactRef \<Rightarrow> int64 \<Rightarrow> json" where
  "externalizedStepField_json field ref originalBytes =
     JObj [(''storage'', JStr ''artifact''), (''field'', JStr field), (''artifact'', artifact_json ref),
           (''original_bytes'', JNum (of_int originalBytes))]"

section \<open>The state of a run and its environment\<close>

text \<open>
  What the engine changes: the store, the artifacts, the workspace, its event counter and its
  metrics; and, in the order they happen, the pushes it makes and the requests it sends.
\<close>

record ('s, 'a, 'w) EngineState =
  es_store :: 's
  es_art :: 'a
  es_ws :: 'w
  es_eventSeq :: int64
  es_metrics :: Metrics
  es_pushed :: "(string \<times> StreamEvent) list"
  es_requests :: "LLMRequest list"
  es_tick :: nat

text \<open>
  The engine with its dependencies. \<open>en_cancelled\<close> tells whether the context is done,
  \<open>en_dispatched\<close> how many pushes of an event start before that is noticed; a push answers
  whether the connection is alive and its error.
\<close>

record ('s, 'a, 'w) Engine =
  en_MaxSteps :: int64
  en_store :: "'s Store"
  en_artifacts :: "'a ArtStore"
  en_llm :: LLMClient
  en_tools :: "('a, 'w) registry"
  en_pusher :: "(nat \<Rightarrow> string \<Rightarrow> StreamEvent \<Rightarrow> bool \<times> string option) option"
  en_ws :: "'w WsManager"
  en_env :: goenv
  en_json :: jsonlib
  en_lib :: golib
  en_clock :: clock
  en_cancelled :: "nat \<Rightarrow> bool"
  en_dispatched :: "nat \<Rightarrow> nat"
  en_others :: "'s interference"

type_synonym ('s, 'a, 'w, 'r) engine_prog = "(('s, 'a, 'w) EngineState, 'r) state"

text \<open>A reading of the environment, and a call of the store after what others did to it.\<close>

definition tick :: "('s, 'a, 'w, nat) engine_prog" where
  "tick = State (\<lambda>st. (es_tick st, st\<lparr>es_tick := Suc (es_tick st)\<rparr>))"

definition time_Now :: "('s, 'a, 'w) Engine \<Rightarrow> ('s, 'a, 'w, gotime) engine_prog" where
  "time_Now e = do { i \<leftarrow> tick; ret (en_clock e i) }"

definition store_call :: "('s, 'a, 'w) Engine \<Rightarrow> ('s \<Rightarrow> 's \<times> 'r) \<Rightarrow> ('s, 'a, 'w, 'r) engine_prog" where
  "store_call e f = do {
     i \<leftarrow> tick;
     s \<leftarrow> gets es_store;
     (case f (en_others e i s) of (s', r) \<Rightarrow> do { modify (\<lambda>st. st\<lparr>es_store := s'\<rparr>); ret r })
   }"

definition store_read :: "('s, 'a, 'w) Engine \<Rightarrow> ('s \<Rightarrow> 'r) \<Rightarrow> ('s, 'a, 'w, 'r) engine_prog" where
  "store_read e f = store_call e (\<lambda>s. (s, f s))"

definition art_call :: "('a \<Rightarrow> 'a \<times> 'r) \<Rightarrow> ('s, 'a, 'w, 'r) engine_prog" where
  "art_call f = do {
     a \<leftarrow> gets es_art;
     (case f a of (a', r) \<Rightarrow> do { modify (\<lambda>st. st\<lparr>es_art := a'\<rparr>); ret r })
   }"

definition bump :: "(Metrics \<Rightarrow> Metrics) \<Rightarrow> ('s, 'a, 'w, unit) engine_prog" where
  "bump f = modify (\<lambda>st. st\<lparr>es_metrics := f (es_metrics st)\<rparr>)"

section \<open>Stream events\<close>

text \<open>One push; its value is the connection when it turned out to be gone.\<close>

definition push_one ::
  "(nat \<Rightarrow> string \<Rightarrow> StreamEvent \<Rightarrow> bool \<times> string option) \<Rightarrow> StreamEvent \<Rightarrow> Connection
   \<Rightarrow> ('s, 'a, 'w, string list) engine_prog" where
  "push_one push event c = do {
     i \<leftarrow> tick;
     modify (\<lambda>st. st\<lparr>es_pushed := es_pushed st @ [(c_ConnectionID c, event)]\<rparr>);
     (case push i (c_ConnectionID c) event of (alive, pushErr) \<Rightarrow> do {
        (if pushErr \<noteq> None then bump StreamPushError else ret ());
        ret (if alive then [] else [c_ConnectionID c]) })
   }"

fun push_all ::
  "(nat \<Rightarrow> string \<Rightarrow> StreamEvent \<Rightarrow> bool \<times> string option) \<Rightarrow> StreamEvent \<Rightarrow> Connection list
   \<Rightarrow> ('s, 'a, 'w, string list) engine_prog" where
  "push_all push event [] = ret []"
| "push_all push event (c # cs) = do {
     gone \<leftarrow> push_one push event c;
     rest \<leftarrow> push_all push event cs;
     ret (gone @ rest)
   }"

definition pushEvent ::
  "('s, 'a, 'w) Engine \<Rightarrow> string \<Rightarrow> string \<Rightarrow> string \<Rightarrow> StreamEventType \<Rightarrow> json \<Rightarrow> ('s, 'a, 'w, unit) engine_prog" where
  "pushEvent e tenantID taskID runID eventType data =
     (case en_pusher e of
        None \<Rightarrow> ret ()
      | Some push \<Rightarrow> do {
          modify (\<lambda>st. st\<lparr>es_eventSeq := add64 (es_eventSeq st) 1\<rparr>);
          seq \<leftarrow> gets es_eventSeq;
          ts \<leftarrow> time_Now e;
          now1 \<leftarrow> time_Now e;
          now2 \<leftarrow> time_Now e;
          stored \<leftarrow> store_call e (\<lambda>s. Store_PutEvent (en_store e) now1 now2 s
            \<lparr>e_TaskID = taskID, e_RunID = runID, e_Seq = seq, e_TS = time_Unix ts, e_Type = eventType,
             e_Data = sanitizeEventData (en_env e) (en_json e) eventType data\<rparr>);
          conns \<leftarrow> store_read e (\<lambda>s. Store_GetConnectionsByTask (en_store e) s taskID);
          (case conns of
             Inl err \<Rightarrow> ret ()
           | Inr cs \<Rightarrow> do {
               i \<leftarrow> tick;
               stale \<leftarrow> push_all push (fst stored)
                 (take (en_dispatched e i) (filter (\<lambda>c. \<not> (tenantID \<noteq> [] \<and> c_TenantID c \<noteq> tenantID)) cs));
               for_each (\<lambda>cid. do { err \<leftarrow> store_call e (\<lambda>s. Store_DeleteConnection (en_store e) s cid); ret () })
                 (remdups stale) })
        })"

definition writeErrorStep ::
  "('s, 'a, 'w) Engine \<Rightarrow> string \<Rightarrow> int64 \<Rightarrow> gotime \<Rightarrow> string \<Rightarrow> string \<Rightarrow> ('s, 'a, 'w, unit) engine_prog" where
  "writeErrorStep e runID stepIdx start errorCode stepErr = do {
     now \<leftarrow> time_Now e;
     err \<leftarrow> store_call e (\<lambda>s. Store_PutStep (en_store e) s
       \<lparr>s_RunID = runID, s_StepIndex = stepIdx, s_Type = StepTypeLLMCall, s_Status = StepStatusError,
        s_Input = [], s_Output = [], s_TSStart = start, s_TSEnd = now,
        s_LatencyMS = Milliseconds (time_Sub now start), s_TokenUsage = None, s_CheckpointRef = None,
        s_ErrorCode = (if errorCode = [] then ''STEP_ERROR'' else errorCode), s_ErrorMessage = stepErr\<rparr>);
     ret ()
   }"

definition externalizeStepField ::
  "('s, 'a, 'w) Engine \<Rightarrow> string \<Rightarrow> string \<Rightarrow> string \<Rightarrow> int64 \<Rightarrow> string \<Rightarrow> string
   \<Rightarrow> ('s, 'a, 'w, string + string) engine_prog" where
  "externalizeStepField e tenantID taskID runID stepIndex field value =
     (if int (length value) \<le> maxInlineStepFieldBytes then ret (Inr value)
      else
        let key = StepFieldS3Key tenantID taskID runID stepIndex field
        in do {
          put \<leftarrow> art_call (\<lambda>a. Art_Put (en_artifacts e) a key (Inr value));
          ret (case put of
              Inl err \<Rightarrow> Inl (''externalize step '' @ field @ '' field: '' @ ArtErr_Error err)
            | Inr (sha, n) \<Rightarrow>
                (case json_print (en_json e) (externalizedStepField_json field
                         \<lparr>ar_S3Key = key, ar_SHA256 = sha, ar_Size = n\<rparr> (int (length value))) of
                   Inl err \<Rightarrow> Inl (''marshal externalized step field metadata: '' @ err)
                 | Inr payload \<Rightarrow> Inr (externalizedStepFieldTag @ payload)))
        })"

definition externalizeLargeStepFields ::
  "('s, 'a, 'w) Engine \<Rightarrow> string \<Rightarrow> string \<Rightarrow> string \<Rightarrow> Step \<Rightarrow> ('s, 'a, 'w, string + Step) engine_prog" where
  "externalizeLargeStepFields e tenantID taskID runID step =
     attempt (externalizeStepField e tenantID taskID runID (s_StepIndex step) ''input'' (s_Input step))
       (\<lambda>input. attempt (externalizeStepField e tenantID taskID runID (s_StepIndex step) ''output'' (s_Output step))
         (\<lambda>output. ret (Inr (step\<lparr>s_Input := input, s_Output := output\<rparr>))))"

section \<open>One step of the loop\<close>

text \<open>The local variables that a step changes.\<close>

record LoopVars =
  lv_mem :: MemorySnapshot
  lv_totalTokens :: int64
  lv_totalCost :: float64
  lv_lengthStops :: int64

text \<open>How \<open>Execute\<close> returns: an error, or the result of the run.\<close>

type_synonym outcome = "string + RunResult"

definition run_result :: "RunStatus \<Rightarrow> int64 \<Rightarrow> string \<Rightarrow> LoopVars \<Rightarrow> RunResult" where
  "run_result status lastStep msg lv =
     \<lparr>rr_Status = status, rr_LastStep = lastStep, rr_ErrorMessage = msg,
      rr_TotalTokens = lv_totalTokens lv, rr_TotalCostUSD = lv_totalCost lv\<rparr>"

definition fail_run :: "int64 \<Rightarrow> string \<Rightarrow> LoopVars \<Rightarrow> ('s, 'a, 'w, outcome + 'b) engine_prog" where
  "fail_run lastStep msg lv = do { bump TaskFailed; ret (Inl (Inr (run_result RunStatusFailed lastStep msg lv))) }"

definition task_event ::
  "('s, 'a, 'w) Engine \<Rightarrow> Task \<Rightarrow> Run \<Rightarrow> StreamEventType \<Rightarrow> (string \<times> json) list \<Rightarrow> ('s, 'a, 'w, unit) engine_prog" where
  "task_event e task run eventType data =
     pushEvent e (t_TenantID task) (t_TaskID task) (r_RunID run) eventType (JObj data)"

definition check_abort ::
  "('s, 'a, 'w) Engine \<Rightarrow> Task \<Rightarrow> Run \<Rightarrow> int64 \<Rightarrow> LoopVars \<Rightarrow> ('s, 'a, 'w, outcome + unit) engine_prog" where
  "check_abort e task run stepIdx lv = do {
     asked \<leftarrow> store_read e (\<lambda>s. Store_IsAbortRequested (en_store e) s (t_TaskID task));
     (case asked of
        Inl err \<Rightarrow> ret (Inl (Inl (''engine: check abort: '' @ StateErr_Error err)))
      | Inr (abortRequested, abortReason) \<Rightarrow>
          if \<not> abortRequested then ret (Inr ())
          else do {
            now \<leftarrow> time_Now e;
            putErr \<leftarrow> store_call e (\<lambda>s. Store_PutStep (en_store e) s
              \<lparr>s_RunID = r_RunID run, s_StepIndex = stepIdx, s_Type = StepTypeFinal, s_Status = StepStatusOK,
               s_Input = ''abort_requested'', s_Output = abortReason, s_TSStart = now, s_TSEnd = now,
               s_LatencyMS = 0, s_TokenUsage = None, s_CheckpointRef = None, s_ErrorCode = ''ABORTED'',
               s_ErrorMessage = abortReason\<rparr>);
            idxErr \<leftarrow> store_call e (\<lambda>s. Store_UpdateLastStepIndex (en_store e) s (t_TaskID task) (r_RunID run) stepIdx);
            task_event e task run StreamEventComplete [(''status'', JStr ''aborted''), (''reason'', JStr abortReason)];
            bump TaskAborted;
            ret (Inl (Inr (run_result RunStatusAborted stepIdx [] lv))) })
   }"

definition check_context ::
  "('s, 'a, 'w) Engine \<Rightarrow> int64 \<Rightarrow> LoopVars \<Rightarrow> ('s, 'a, 'w, outcome + unit) engine_prog" where
  "check_context e stepIdx lv = do {
     i \<leftarrow> tick;
     (if en_cancelled e i then fail_run (sub64 stepIdx 1) ''context cancelled'' lv else ret (Inr ()))
   }"

text \<open>A call of the model; every token it streams becomes an event.\<close>

definition call_llm ::
  "('s, 'a, 'w) Engine \<Rightarrow> Task \<Rightarrow> Run \<Rightarrow> int64 \<Rightarrow> LLMRequest \<Rightarrow> ('s, 'a, 'w, string + LLMResponse) engine_prog" where
  "call_llm e task run stepIdx req = do {
     i \<leftarrow> gets (\<lambda>st. length (es_requests st));
     modify (\<lambda>st. st\<lparr>es_requests := es_requests st @ [req]\<rparr>);
     (case cl_ChatStream (en_llm e) of
        Some f \<Rightarrow>
          (case f i req of (tokens, res) \<Rightarrow> do {
             for_each (\<lambda>token. if token = [] then ret ()
               else task_event e task run StreamEventTokenChunk
                      [(''step_index'', JNum (of_int stepIdx)), (''token'', JStr token)]) tokens;
             ret res })
      | None \<Rightarrow> ret (cl_Chat (en_llm e) i req))
   }"

definition llm_phase ::
  "('s, 'a, 'w) Engine \<Rightarrow> Task \<Rightarrow> Run \<Rightarrow> int64 \<Rightarrow> LoopVars
   \<Rightarrow> ('s, 'a, 'w, outcome + gotime \<times> LLMResponse \<times> LoopVars) engine_prog" where
  "llm_phase e task run stepIdx lv = do {
     task_event e task run StreamEventStepStart [(''step_index'', JNum (of_int stepIdx))];
     stepStart \<leftarrow> time_Now e;
     (let mem = (lv_mem lv)\<lparr>ms_Messages := trimMemoryMessages (ms_Messages (lv_mem lv)) maxEngineMemoryMessages\<rparr>;
          lv1 = lv\<lparr>lv_mem := mem\<rparr>
      in do {
        res \<leftarrow> call_llm e task run stepIdx
          \<lparr>lq_Messages = ms_Messages mem, lq_ModelConfig = r_ModelConfig run, lq_Tools = collectToolSpecs (en_tools e),
           lq_TaskType = classifyTaskPrompt (en_env e) (t_Prompt task)\<rparr>;
        (case res of
           Inl llmErr \<Rightarrow> do {
             writeErrorStep e (r_RunID run) stepIdx stepStart ''LLM_ERROR'' llmErr;
             task_event e task run StreamEventError [(''error_code'', JStr ''LLM_ERROR''), (''message'', JStr llmErr)];
             fail_run stepIdx llmErr lv1 }
         | Inr llmResp \<Rightarrow> ret (Inr (stepStart, llmResp, lv1))) })
   }"

definition usage_phase ::
  "('s, 'a, 'w) Engine \<Rightarrow> Task \<Rightarrow> Run \<Rightarrow> int64 \<Rightarrow> gotime \<Rightarrow> LLMResponse \<Rightarrow> LoopVars
   \<Rightarrow> ('s, 'a, 'w, outcome + LoopVars) engine_prog" where
  "usage_phase e task run stepIdx stepStart llmResp lv =
     (let stepCost = EstimateUsageCostUSD (en_env e) (lr_ModelID llmResp) (lr_TokenUsage llmResp);
          totalTokens = (case lr_TokenUsage llmResp of
              None \<Rightarrow> lv_totalTokens lv | Some u \<Rightarrow> add64 (lv_totalTokens lv) (tu_Total u));
          totalCost = f64_add (lv_totalCost lv) stepCost;
          lv1 = lv\<lparr>lv_totalTokens := totalTokens, lv_totalCost := totalCost\<rparr>
      in do {
        usageErr \<leftarrow> store_call e (\<lambda>s. Store_AddRunUsage (en_store e) s (t_TaskID task) (r_RunID run)
          (lr_TokenUsage llmResp) stepCost);
        (case checkBudgetExceeded (r_ModelConfig run) totalTokens totalCost of
           None \<Rightarrow> ret (Inr lv1)
         | Some budget \<Rightarrow> do {
             writeErrorStep e (r_RunID run) stepIdx stepStart (be_Code budget) (be_Message budget);
             task_event e task run StreamEventError
               [(''error_code'', JStr (be_Code budget)), (''message'', JStr (be_Message budget)),
                (''total_tokens'', JNum (of_int totalTokens)), (''total_cost_usd'', JNum totalCost)];
             fail_run stepIdx (be_Message budget) lv1 }) })"

definition append_message :: "MemoryMessage \<Rightarrow> LoopVars \<Rightarrow> LoopVars" where
  "append_message m lv = lv\<lparr>lv_mem := (lv_mem lv)\<lparr>ms_Messages := ms_Messages (lv_mem lv) @ [m]\<rparr>\<rparr>"

definition assistant_message :: "LLMResponse \<Rightarrow> ToolCall list \<Rightarrow> MemoryMessage" where
  "assistant_message llmResp calls =
     \<lparr>mm_Role = MessageRoleAssistant, mm_Content = lr_Content llmResp, mm_ToolCallID = [],
      mm_ToolCalls = map (\<lambda>tc. \<lparr>tc_ID = tcl_ID tc, tc_Name = tcl_Name tc, tc_Args = tcl_Args tc\<rparr>) calls\<rparr>"

text \<open>The tool's answer, or the error that ends the run.\<close>

definition invoke_tool :: "('s, 'a, 'w) Engine \<Rightarrow> ToolCall \<Rightarrow> ('s, 'a, 'w, string + string) engine_prog" where
  "invoke_tool e tc =
     (case Registry_Get (en_tools e) (tcl_Name tc) of
        None \<Rightarrow> ret (Inr (''error: unknown tool '' @ lib_Quote (en_lib e) (tcl_Name tc)))
      | Some tool \<Rightarrow> do {
          i \<leftarrow> tick;
          world \<leftarrow> gets (\<lambda>st. (es_art st, es_ws st));
          (case tl_Execute tool i world (tcl_Args tc) of ((a', w'), res) \<Rightarrow> do {
             modify (\<lambda>st. st\<lparr>es_art := a', es_ws := w'\<rparr>);
             ret (case res of
                 Inl err \<Rightarrow> Inl err
               | Inr result \<Rightarrow> Inr (if tr_Error result \<noteq> [] then ''error: '' @ tr_Error result else tr_Output result)) }) })"

definition tool_step ::
  "('s, 'a, 'w) Engine \<Rightarrow> Task \<Rightarrow> Run \<Rightarrow> int64 \<Rightarrow> gotime \<Rightarrow> ToolCall \<Rightarrow> LoopVars \<times> persistedToolOutput list
   \<Rightarrow> ('s, 'a, 'w, outcome + LoopVars \<times> persistedToolOutput list) engine_prog" where
  "tool_step e task run stepIdx stepStart tc acc = do {
     task_event e task run StreamEventToolCall [(''tool'', JStr (tcl_Name tc)), (''args'', JStr (tcl_Args tc))];
     res \<leftarrow> invoke_tool e tc;
     (case res of
        Inl err \<Rightarrow> do {
          writeErrorStep e (r_RunID run) stepIdx stepStart ''TOOL_EXEC_ERROR'' err;
          task_event e task run StreamEventError
            [(''error_code'', JStr ''TOOL_EXEC_ERROR''), (''tool'', JStr (tcl_Name tc)), (''message'', JStr err)];
          fail_run stepIdx (''tool '' @ tcl_Name tc @ '' execution failed: '' @ err) (fst acc) }
      | Inr currentToolOutput \<Rightarrow> do {
          task_event e task run StreamEventToolResult
            [(''tool'', JStr (tcl_Name tc)), (''output'', JStr currentToolOutput)];
          ret (Inr (append_message \<lparr>mm_Role = MessageRoleTool, mm_Content = currentToolOutput,
                      mm_ToolCallID = tcl_ID tc, mm_ToolCalls = []\<rparr> (fst acc),
                    snd acc @ [\<lparr>po_Tool = tcl_Name tc, po_ToolCallID = tcl_ID tc, po_Output = currentToolOutput\<rparr>])) })
   }"

text \<open>What the step records of its tools: the only output, or all of them as JSON.\<close>

definition tool_output :: "('s, 'a, 'w) Engine \<Rightarrow> persistedToolOutput list \<Rightarrow> string" where
  "tool_output e outs =
     (if outs = [] then []
      else let lastOut = po_Output (last outs)
           in if 1 < length outs
              then (case json_print (en_json e) (toolOutputs_json outs) of Inl _ \<Rightarrow> lastOut | Inr b \<Rightarrow> b)
              else lastOut)"

definition checkpoint_phase ::
  "('s, 'a, 'w) Engine \<Rightarrow> Task \<Rightarrow> Run \<Rightarrow> int64 \<Rightarrow> LoopVars
   \<Rightarrow> ('s, 'a, 'w, outcome + CheckpointRef \<times> LoopVars) engine_prog" where
  "checkpoint_phase e task run stepIdx lv =
     (let lv1 = lv\<lparr>lv_mem := (lv_mem lv)\<lparr>ms_StepIndex := stepIdx\<rparr>\<rparr>
      in do {
        saved \<leftarrow> art_call (\<lambda>a. Save (en_lib e) (en_json e) (en_artifacts e) a (t_TenantID task) (t_TaskID task) (lv_mem lv1));
        (case saved of
           Inl err \<Rightarrow> fail_run stepIdx (''memory checkpoint failed: '' @ SnapErr_Error err) lv1
         | Inr memRef \<Rightarrow> do {
             w \<leftarrow> gets es_ws;
             snap \<leftarrow> art_call (\<lambda>a. SnapshotWorkspace (en_ws e) w (en_artifacts e) a (t_TenantID task) (t_TaskID task)
               (r_RunID run) stepIdx);
             (case snap of
                Inl err \<Rightarrow> fail_run stepIdx (''workspace checkpoint failed: '' @ WsSnapErr_Error err) lv1
              | Inr wsRef \<Rightarrow> ret (Inr (\<lparr>cr_Memory = Some memRef, cr_Workspace = Some wsRef\<rparr>, lv1))) }) })"

definition write_phase ::
  "('s, 'a, 'w) Engine \<Rightarrow> Task \<Rightarrow> Run \<Rightarrow> int64 \<Rightarrow> Step \<Rightarrow> LoopVars \<Rightarrow> ('s, 'a, 'w, outcome + unit) engine_prog" where
  "write_phase e task run stepIdx step lv = do {
     ext \<leftarrow> externalizeLargeStepFields e (t_TenantID task) (t_TaskID task) (r_RunID run) step;
     (case ext of
        Inl err \<Rightarrow> fail_run stepIdx (''externalize step fields failed: '' @ err) lv
      | Inr step1 \<Rightarrow> do {
          putErr \<leftarrow> store_call e (\<lambda>s. Store_PutStep (en_store e) s step1);
          (if putErr \<noteq> None \<and> putErr \<noteq> Some ErrConflict
           then fail_run stepIdx (''write step failed: '' @ StateErr_Error (the putErr)) lv
           else do {
             idxErr \<leftarrow> store_call e (\<lambda>s. Store_UpdateLastStepIndex (en_store e) s (t_TaskID task) (r_RunID run) stepIdx);
             task_event e task run StreamEventStepEnd
               [(''step_index'', JNum (of_int stepIdx)), (''type'', JStr (StepType_str (s_Type step))),
                (''latency_ms'', JNum (of_int (s_LatencyMS step)))];
             bump (StepLatency (s_LatencyMS step));
             ret (Inr ()) }) })
   }"

text \<open>After the step is written: stop on repeated truncation, go on, or finish.\<close>

definition finish_phase ::
  "('s, 'a, 'w) Engine \<Rightarrow> Task \<Rightarrow> Run \<Rightarrow> int64 \<Rightarrow> gotime \<Rightarrow> LLMResponse \<Rightarrow> CheckpointRef \<Rightarrow> LoopVars
   \<Rightarrow> ('s, 'a, 'w, outcome + LoopVars) engine_prog" where
  "finish_phase e task run stepIdx stepEnd llmResp checkpointRef lv =
     (if lr_ToolCalls llmResp = [] \<and> lr_FinishReason llmResp = ''length''
      then
        let stops = add64 (lv_lengthStops lv) 1
        in if maxConsecutiveLengthStops \<le> stops
           then
             let errMsg = ''llm response truncated '' @ fmt_d stops @ '' times consecutively''
             in do {
               task_event e task run StreamEventError [(''error_code'', JStr ''LLM_TRUNCATED''), (''message'', JStr errMsg)];
               fail_run stepIdx errMsg lv }
           else ret (Inr (append_message \<lparr>mm_Role = MessageRoleUser, mm_Content = lengthContinuePrompt,
                            mm_ToolCallID = [], mm_ToolCalls = []\<rparr> (lv\<lparr>lv_lengthStops := stops\<rparr>)))
      else if lr_ToolCalls llmResp = [] \<and> lr_FinishReason llmResp = ''stop''
      then
        let lastStep = add64 stepIdx 1
        in do {
          ext \<leftarrow> externalizeLargeStepFields e (t_TenantID task) (t_TaskID task) (r_RunID run)
            \<lparr>s_RunID = r_RunID run, s_StepIndex = lastStep, s_Type = StepTypeFinal, s_Status = StepStatusOK,
             s_Input = lr_Content llmResp, s_Output = [], s_TSStart = stepEnd, s_TSEnd = stepEnd, s_LatencyMS = 0,
             s_TokenUsage = None, s_CheckpointRef = Some checkpointRef, s_ErrorCode = [], s_ErrorMessage = []\<rparr>;
          (case ext of
             Inl err \<Rightarrow> fail_run lastStep (''externalize final step fields failed: '' @ err) lv
           | Inr finalStep \<Rightarrow> do {
               putErr \<leftarrow> store_call e (\<lambda>s. Store_PutStep (en_store e) s finalStep);
               idxErr \<leftarrow> store_call e (\<lambda>s. Store_UpdateLastStepIndex (en_store e) s (t_TaskID task) (r_RunID run) lastStep);
               task_event e task run StreamEventComplete [(''final_answer'', JStr (lr_Content llmResp))];
               bump TaskSucceeded;
               ret (Inl (Inr (run_result RunStatusSucceeded lastStep [] lv))) }) }
      else ret (Inr (lv\<lparr>lv_lengthStops := 0\<rparr>)))"

text \<open>The body of the loop: a result of the run, or the variables of the next iteration.\<close>

definition react_step ::
  "('s, 'a, 'w) Engine \<Rightarrow> Task \<Rightarrow> Run \<Rightarrow> int64 \<Rightarrow> LoopVars \<Rightarrow> ('s, 'a, 'w, outcome + LoopVars) engine_prog" where
  "react_step e task run stepIdx lv =
     attempt (check_abort e task run stepIdx lv) (\<lambda>_.
     attempt (check_context e stepIdx lv) (\<lambda>_.
     attempt (llm_phase e task run stepIdx lv) (\<lambda>(stepStart, llmResp0, lv1).
     attempt (usage_phase e task run stepIdx stepStart llmResp0 lv1) (\<lambda>lv2.
     (let calls = fill_call_ids stepIdx (lr_ToolCalls llmResp0);
          llmResp = llmResp0\<lparr>lr_ToolCalls := calls\<rparr>;
          lv3 = append_message (assistant_message llmResp calls) lv2
      in attempt (fold_attempt (tool_step e task run stepIdx stepStart) calls (lv3, [])) (\<lambda>(lv4, outs). do {
           stepEnd \<leftarrow> time_Now e;
           attempt (checkpoint_phase e task run stepIdx lv4) (\<lambda>(checkpointRef, lv5).
           attempt (write_phase e task run stepIdx
             \<lparr>s_RunID = r_RunID run, s_StepIndex = stepIdx,
              s_Type = (if calls \<noteq> [] then StepTypeToolCall else StepTypeLLMCall), s_Status = StepStatusOK,
              s_Input = lr_Content llmResp, s_Output = tool_output e outs, s_TSStart = stepStart, s_TSEnd = stepEnd,
              s_LatencyMS = Milliseconds (time_Sub stepEnd stepStart), s_TokenUsage = lr_TokenUsage llmResp,
              s_CheckpointRef = Some checkpointRef, s_ErrorCode = [], s_ErrorMessage = []\<rparr> lv5) (\<lambda>_.
           finish_phase e task run stepIdx stepEnd llmResp checkpointRef lv5)) }))))))"

section \<open>The run\<close>

definition max_steps_reached ::
  "('s, 'a, 'w) Engine \<Rightarrow> Task \<Rightarrow> Run \<Rightarrow> int64 \<Rightarrow> LoopVars \<Rightarrow> ('s, 'a, 'w, outcome) engine_prog" where
  "max_steps_reached e task run startStep lv = do {
     task_event e task run StreamEventError [(''error_code'', JStr ''MAX_STEPS''), (''message'', JStr ''max steps reached'')];
     bump TaskFailed;
     ret (Inr (run_result RunStatusFailed (sub64 (add64 startStep (en_MaxSteps e)) 1) ''max steps reached'' lv))
   }"

function react_loop ::
  "('s, 'a, 'w) Engine \<Rightarrow> Task \<Rightarrow> Run \<Rightarrow> int64 \<Rightarrow> int64 \<Rightarrow> LoopVars \<Rightarrow> ('s, 'a, 'w, outcome) engine_prog" where
  "react_loop e task run startStep stepIdx lv =
     (if stepIdx < add64 startStep (en_MaxSteps e)
      then do {
        r \<leftarrow> react_step e task run stepIdx lv;
        (case r of Inl out \<Rightarrow> ret out | Inr lv' \<Rightarrow> react_loop e task run startStep (add64 stepIdx 1) lv') }
      else max_steps_reached e task run startStep lv)"
  by pat_completeness auto
termination
  by (relation "measure (\<lambda>(e, task, run, startStep, stepIdx, lv). nat (add64 startStep (en_MaxSteps e) - stepIdx))")
    (auto simp: add64_Suc_gt)

declare react_loop.simps [simp del]

text \<open>The memory and the first step of a run, restored from the checkpoint it resumes.\<close>

definition restore_phase ::
  "('s, 'a, 'w) Engine \<Rightarrow> Run \<Rightarrow> ('s, 'a, 'w, string + MemorySnapshot \<times> int64) engine_prog" where
  "restore_phase e run =
     (let mem0 = \<lparr>ms_RunID = r_RunID run, ms_StepIndex = 0, ms_Messages = [], ms_Scratchpad = [], ms_ToolState = []\<rparr>
      in case r_ResumeFromStepIndex run of
           None \<Rightarrow> ret (Inr (mem0, 0))
         | Some stepIdx \<Rightarrow> do {
             got \<leftarrow> store_read e (\<lambda>s. Store_GetStep (en_store e) s (r_ParentRunID run) stepIdx);
             (case got of
                Inl err \<Rightarrow> ret (Inl (''engine: load checkpoint step: '' @ StateErr_Error err))
              | Inr step \<Rightarrow>
                  (case s_CheckpointRef step of
                     None \<Rightarrow> ret (Inr (mem0, add64 stepIdx 1))
                   | Some ref \<Rightarrow> do {
                       a \<leftarrow> gets es_art;
                       (case (case cr_Memory ref of None \<Rightarrow> Inr mem0 | Some m \<Rightarrow> Load (en_lib e) (en_artifacts e) a m) of
                          Inl err \<Rightarrow> ret (Inl (''engine: restore memory: '' @ SnapErr_Error err))
                        | Inr restored \<Rightarrow>
                            (case cr_Workspace ref of
                               None \<Rightarrow> ret (Inr (restored\<lparr>ms_RunID := r_RunID run\<rparr>, add64 stepIdx 1))
                             | Some wref \<Rightarrow> do {
                                 w \<leftarrow> gets es_ws;
                                 (case RestoreWorkspace (en_lib e) (en_ws e) w (en_artifacts e) a wref of (w', wsErr) \<Rightarrow> do {
                                    modify (\<lambda>st. st\<lparr>es_ws := w'\<rparr>);
                                    ret (case wsErr of
                                        Some err \<Rightarrow> Inl (''engine: restore workspace: '' @ WsSnapErr_Error err)
                                      | None \<Rightarrow> Inr (restored\<lparr>ms_RunID := r_RunID run\<rparr>, add64 stepIdx 1)) }) })) })) })"

definition systemPrompt :: string where
  "systemPrompt =
     ''You are an AI agent. Use the available tools to complete the task. When done, provide a final answer.''"

definition add_prompt :: "Task \<Rightarrow> MemorySnapshot \<Rightarrow> MemorySnapshot" where
  "add_prompt task mem =
     (if ms_Messages mem = []
      then mem\<lparr>ms_Messages :=
             [\<lparr>mm_Role = MessageRoleSystem, mm_Content = systemPrompt, mm_ToolCallID = [], mm_ToolCalls = []\<rparr>,
              \<lparr>mm_Role = MessageRoleUser, mm_Content = t_Prompt task, mm_ToolCallID = [], mm_ToolCalls = []\<rparr>]\<rparr>
      else mem)"

definition Execute :: "('s, 'a, 'w) Engine \<Rightarrow> Task \<Rightarrow> Run \<Rightarrow> ('s, 'a, 'w, outcome) engine_prog" where
  "Execute e task run =
     (case Validate (en_env e) (t_Prompt task) (LoadFromEnv (en_env e)) of
        Some err \<Rightarrow> do {
          bump TaskFailed;
          ret (Inr \<lparr>rr_Status = RunStatusFailed, rr_LastStep = -1,
                 rr_ErrorMessage = (case err of ErrPromptTooLong \<Rightarrow> ''prompt exceeds maximum length''
                   | ErrPromptDenied \<Rightarrow> ''prompt contains denied content''),
                 rr_TotalTokens = 0, rr_TotalCostUSD = 0\<rparr>) }
      | None \<Rightarrow> do {
          bump TaskStarted;
          modify (\<lambda>st. st\<lparr>es_eventSeq := 0\<rparr>);
          start \<leftarrow> restore_phase e run;
          (case start of
             Inl err \<Rightarrow> ret (Inl err)
           | Inr (mem, startStep) \<Rightarrow>
               react_loop e task run startStep startStep
                 \<lparr>lv_mem = add_prompt task mem, lv_totalTokens = 0, lv_totalCost = 0, lv_lengthStops = 0\<rparr>) })"

end
