(* ===== verification/EngineLogic.thy ===== *)
theory EngineLogic
  imports Engine
begin

text \<open>
  What a run of the engine keeps. The locale \<open>engine_invariant\<close> asks of a predicate on the
  engine's state that the elementary effects of a run keep it, and shows that the whole run
  does; \<open>store_invariant\<close> asks the same of a predicate on the store alone, over the calls that
  the engine makes to it.
\<close>

section \<open>Elementary effects\<close>

lemma trim_bound:
  assumes "0 < limit"
  shows "int (length (trimMemoryMessages ms limit)) \<le> limit"
  using assms by (auto simp: trimMemoryMessages_def Let_def split: if_splits)

lemma run_tick [simp]: "run_state tick st = (es_tick st, st\<lparr>es_tick := Suc (es_tick st)\<rparr>)"
  by (simp add: tick_def)

lemma run_time_Now [simp]:
  "run_state (time_Now e) st = (en_clock e (es_tick st), st\<lparr>es_tick := Suc (es_tick st)\<rparr>)"
  by (simp add: time_Now_def)

lemma run_store_call:
  "run_state (store_call e f) st =
     (let (s', r) = f (en_others e (es_tick st) (es_store st))
      in (r, st\<lparr>es_tick := Suc (es_tick st), es_store := s'\<rparr>))"
  by (simp add: store_call_def Let_def split: prod.split)

lemma run_store_read:
  "run_state (store_read e f) st =
     (f (en_others e (es_tick st) (es_store st)),
      st\<lparr>es_tick := Suc (es_tick st), es_store := en_others e (es_tick st) (es_store st)\<rparr>)"
  by (simp add: store_read_def run_store_call)

lemma run_art_call:
  "run_state (art_call f) st = (let (a', r) = f (es_art st) in (r, st\<lparr>es_art := a'\<rparr>))"
  by (simp add: art_call_def Let_def split: prod.split)

lemma run_bump [simp]: "run_state (bump f) st = ((), st\<lparr>es_metrics := f (es_metrics st)\<rparr>)"
  by (simp add: bump_def)

lemma react_loop_more:
  "k < add64 start (en_MaxSteps e) \<Longrightarrow>
   react_loop e task run start k lv =
     State_Monad.bind (react_step e task run k lv)
       (\<lambda>r. case r of Inl out \<Rightarrow> ret out | Inr lv' \<Rightarrow> react_loop e task run start (add64 k 1) lv')"
  by (subst react_loop.simps) simp

lemma react_loop_done:
  "\<not> k < add64 start (en_MaxSteps e) \<Longrightarrow> react_loop e task run start k lv = max_steps_reached e task run start lv"
  by (subst react_loop.simps) simp

section \<open>Invariants of the engine's state\<close>

text \<open>
  A run reads the environment, calls the store, invokes tools and emits events
  (\<open>engine_effects\<close>); it sends requests to the model (\<open>engine_requests\<close>); it writes steps,
  artifacts and the workspace (\<open>engine_writes\<close>). Each locale asks of a predicate that these
  effects keep it.
\<close>

locale engine_effects =
  fixes e :: "('s, 'a, 'w) Engine" and task :: Task and run :: Run and I :: "('s, 'a, 'w) EngineState \<Rightarrow> bool"
  assumes inv_tick: "I st \<Longrightarrow> I (st\<lparr>es_tick := n\<rparr>)"
    and inv_metrics: "I st \<Longrightarrow> I (st\<lparr>es_metrics := m\<rparr>)"
    and inv_others: "I st \<Longrightarrow> I (st\<lparr>es_store := en_others e i (es_store st)\<rparr>)"
    and inv_usage:
      "I st \<Longrightarrow> I (st\<lparr>es_store := fst (Store_AddRunUsage (en_store e) (es_store st) (t_TaskID task) (r_RunID run) u c)\<rparr>)"
    and inv_tool:
      "I st \<Longrightarrow> Registry_Get (en_tools e) name = Some tool
       \<Longrightarrow> tl_Execute tool i (es_art st, es_ws st) args = ((a, w), res) \<Longrightarrow> I (st\<lparr>es_art := a, es_ws := w\<rparr>)"
    and inv_event: "keeps I (pushEvent e (t_TenantID task) (t_TaskID task) (r_RunID run) ty data)"
begin

lemma keeps_tick [keeps_rules]: "keeps I tick"
  by (simp add: triple_def inv_tick)

lemma keeps_time_Now [keeps_rules]: "keeps I (time_Now e)"
  by (simp add: triple_def inv_tick)

lemma keeps_bump [keeps_rules]: "keeps I (bump f)"
  by (simp add: triple_def inv_metrics)

lemma keeps_event [keeps_rules]: "keeps I (task_event e task run ty data)"
  unfolding task_event_def by (rule inv_event)

lemma keeps_store_call:
  assumes "\<And>st. I st \<Longrightarrow> I (st\<lparr>es_store := fst (f (es_store st))\<rparr>)"
  shows "keeps I (store_call e f)"
proof (rule tripleI)
  fix st r st'
  assume "I st" and run: "run_state (store_call e f) st = (r, st')"
  let ?st = "st\<lparr>es_tick := Suc (es_tick st), es_store := en_others e (es_tick st) (es_store st)\<rparr>"
  have "I ?st" using inv_others [OF inv_tick [OF \<open>I st\<close>]] by simp
  then have "I (?st\<lparr>es_store := fst (f (es_store ?st))\<rparr>)" by (rule assms)
  then show "I st'" using run by (auto simp: run_store_call Let_def split: prod.splits)
qed

lemma keeps_store_read [keeps_rules]: "keeps I (store_read e f)"
  unfolding store_read_def by (rule keeps_store_call) simp

lemma keeps_usage [keeps_rules]:
  "keeps I (store_call e (\<lambda>s. Store_AddRunUsage (en_store e) s (t_TaskID task) (r_RunID run) u c))"
  by (rule keeps_store_call) (rule inv_usage)

lemma keeps_fail_run [keeps_rules]: "keeps I (fail_run k msg lv)"
  unfolding fail_run_def by (intro keeps_rules)

lemma ends_fail_run [ends_rules]: "ends (fail_run k msg lv)"
  unfolding fail_run_def by (intro ends_rules)

lemma keeps_invoke_tool [keeps_rules]: "keeps I (invoke_tool e tc)"
proof (cases "Registry_Get (en_tools e) (tcl_Name tc)")
  case None
  then show ?thesis by (simp add: invoke_tool_def keeps_rules)
next
  case (Some tool)
  show ?thesis
  proof (rule tripleI)
    fix st r st'
    assume "I st" and run: "run_state (invoke_tool e tc) st = (r, st')"
    obtain a w res where x: "tl_Execute tool (es_tick st) (es_art st, es_ws st) (tcl_Args tc) = ((a, w), res)"
      by (metis prod.exhaust_sel)
    have "I (st\<lparr>es_tick := Suc (es_tick st), es_art := a, es_ws := w\<rparr>)"
      using inv_tool [OF inv_tick [OF \<open>I st\<close>, of "Suc (es_tick st)"] Some] x by simp
    then show "I st'" using run x by (auto simp: invoke_tool_def Some split: sum.splits)
  qed
qed

lemma goes_check_abort [goes_rules]: "goes I (check_abort e task run k lv)"
  unfolding check_abort_def by (intro goes_bind keeps_rules goes_sum goes_prod goes_if goes_ret goes_ends ends_rules)

lemma goes_check_context [goes_rules]: "goes I (check_context e k lv)"
  unfolding check_context_def by (intro goes_rules keeps_rules ends_rules)

lemma goes_usage_phase [goes_rules]: "goes I (usage_phase e task run k start resp lv)"
  unfolding usage_phase_def Let_def by (intro goes_bind keeps_rules goes_option goes_ret goes_ends ends_rules)

lemma goes_tool_step [goes_rules]: "goes I (tool_step e task run k start tc acc)"
  unfolding tool_step_def
  by (rule goes_bind [OF keeps_event], rule goes_bind [OF keeps_invoke_tool], rule goes_sum, rule goes_ends)
    (intro ends_rules, rule goes_bind [OF keeps_event goes_ret])

end

locale engine_requests = engine_effects +
  assumes inv_request:
    "I st \<Longrightarrow> int (length (lq_Messages q)) \<le> maxEngineMemoryMessages \<Longrightarrow> I (st\<lparr>es_requests := es_requests st @ [q]\<rparr>)"
begin

lemma keeps_call_llm:
  "int (length (lq_Messages q)) \<le> maxEngineMemoryMessages \<Longrightarrow> keeps I (call_llm e task run k q)"
  unfolding call_llm_def by (intro keeps_rules triple_modify inv_request)

lemma trimmed: "int (length (trimMemoryMessages ms maxEngineMemoryMessages)) \<le> maxEngineMemoryMessages"
  using trim_bound [of maxEngineMemoryMessages] by (simp add: maxEngineMemoryMessages_def)

lemma goes_llm_phase [goes_rules]: "goes I (llm_phase e task run k lv)"
  unfolding llm_phase_def Let_def
  by (intro goes_bind keeps_rules keeps_call_llm goes_sum goes_ret goes_ends ends_rules) (simp add: trimmed)

end

locale engine_writes = engine_effects +
  assumes inv_seq: "I st \<Longrightarrow> I (st\<lparr>es_eventSeq := 0\<rparr>)"
    and inv_art: "I st \<Longrightarrow> I (st\<lparr>es_art := a\<rparr>)"
    and inv_ws: "I st \<Longrightarrow> I (st\<lparr>es_ws := w\<rparr>)"
    and inv_put_step:
      "I st \<Longrightarrow> s_RunID z = r_RunID run \<Longrightarrow> I (st\<lparr>es_store := fst (Store_PutStep (en_store e) (es_store st) z)\<rparr>)"
    and inv_last_step:
      "I st \<Longrightarrow> I (st\<lparr>es_store := fst (Store_UpdateLastStepIndex (en_store e) (es_store st) (t_TaskID task) (r_RunID run) k)\<rparr>)"
begin

lemma keeps_put_step [keeps_rules]:
  "s_RunID z = r_RunID run \<Longrightarrow> keeps I (store_call e (\<lambda>s. Store_PutStep (en_store e) s z))"
  by (rule keeps_store_call) (rule inv_put_step)

lemma keeps_last_step [keeps_rules]:
  "keeps I (store_call e (\<lambda>s. Store_UpdateLastStepIndex (en_store e) s (t_TaskID task) (r_RunID run) k))"
  by (rule keeps_store_call) (rule inv_last_step)

lemma keeps_art_call [keeps_rules]: "keeps I (art_call f)"
  by (rule tripleI) (auto simp: run_art_call Let_def inv_art split: prod.splits)

lemma keeps_writeErrorStep [keeps_rules]: "keeps I (writeErrorStep e (r_RunID run) k start code err)"
  unfolding writeErrorStep_def by (intro keeps_rules) simp

lemma keeps_externalizeStepField [keeps_rules]: "keeps I (externalizeStepField e t u r k field v)"
  unfolding externalizeStepField_def by (intro keeps_rules)

text \<open>Externalising changes the two texts of a step and nothing else of it.\<close>

lemma triple_externalize:
  "triple I (externalizeLargeStepFields e t u r step)
     (\<lambda>res st. I st \<and> (\<forall>step'. res = Inr step' \<longrightarrow> (\<exists>i k. step' = step\<lparr>s_Input := i, s_Output := k\<rparr>)))"
  unfolding externalizeLargeStepFields_def
  by (rule triple_attempt [OF keeps_externalizeStepField], simp,
      rule triple_attempt [OF keeps_externalizeStepField], simp, rule triple_ret, auto)

lemma keeps_check_abort [keeps_rules]: "keeps I (check_abort e task run k lv)"
  unfolding check_abort_def by (intro keeps_rules) simp_all

lemma keeps_check_context [keeps_rules]: "keeps I (check_context e k lv)"
  unfolding check_context_def by (intro keeps_rules)

lemma keeps_usage_phase [keeps_rules]: "keeps I (usage_phase e task run k start resp lv)"
  unfolding usage_phase_def Let_def by (intro keeps_rules)

lemma keeps_tool_step [keeps_rules]: "keeps I (tool_step e task run k start tc acc)"
  unfolding tool_step_def by (intro keeps_rules)

lemma keeps_checkpoint_phase [keeps_rules]: "keeps I (checkpoint_phase e task run k lv)"
  unfolding checkpoint_phase_def Let_def by (intro keeps_rules)

lemma keeps_put_externalized:
  assumes "s_RunID step = r_RunID run" and "\<And>err. keeps I (g err)"
    and "\<And>step'. s_RunID step' = r_RunID run \<Longrightarrow> keeps I (f step')"
  shows "keeps I (State_Monad.bind (externalizeLargeStepFields e t u r step)
           (\<lambda>x. case x of Inl err \<Rightarrow> g err | Inr step' \<Rightarrow> f step'))"
proof (rule triple_bind [OF triple_externalize], goal_cases)
  case (1 x)
  show ?case
  proof (cases x)
    case (Inl err)
    then show ?thesis using assms(2) [of err] by (auto simp: triple_def)
  next
    case (Inr step')
    show ?thesis
    proof (rule tripleI)
      fix st r' st'
      assume st: "I st \<and> (\<forall>s'. x = Inr s' \<longrightarrow> (\<exists>i k. s' = step\<lparr>s_Input := i, s_Output := k\<rparr>))"
        and run: "run_state (case x of Inl err \<Rightarrow> g err | Inr s' \<Rightarrow> f s') st = (r', st')"
      then obtain i k where "step' = step\<lparr>s_Input := i, s_Output := k\<rparr>" using Inr by auto
      then have "keeps I (f step')" using assms(1,3) by simp
      then show "I st'" using st run Inr by (auto dest: tripleD)
    qed
  qed
qed

lemma keeps_write_phase: "s_RunID step = r_RunID run \<Longrightarrow> keeps I (write_phase e task run k step lv)"
  unfolding write_phase_def by (rule keeps_put_externalized) (intro keeps_rules | assumption)+

lemma keeps_finish_phase [keeps_rules]: "keeps I (finish_phase e task run k stepEnd resp ref lv)"
  unfolding finish_phase_def Let_def
  by (intro keeps_rules keeps_put_externalized) (simp | assumption)+

lemma keeps_max_steps [keeps_rules]: "keeps I (max_steps_reached e task run k lv)"
  unfolding max_steps_reached_def by (intro keeps_rules)

lemma keeps_restore_phase [keeps_rules]: "keeps I (restore_phase e run)"
  unfolding restore_phase_def Let_def by (intro keeps_rules triple_modify inv_ws)

end

locale engine_invariant = engine_writes + engine_requests
begin

lemma keeps_llm_phase [keeps_rules]: "keeps I (llm_phase e task run k lv)"
  unfolding llm_phase_def Let_def by (intro keeps_rules keeps_call_llm) (simp add: trimmed)

lemma keeps_react_step [keeps_rules]: "keeps I (react_step e task run k lv)"
  unfolding react_step_def Let_def by (intro keeps_rules keeps_write_phase) simp

lemma keeps_react_loop [keeps_rules]: "keeps I (react_loop e task run start k lv)"
proof -
  have "e' = e \<Longrightarrow> task' = task \<Longrightarrow> run' = run \<Longrightarrow> keeps I (react_loop e' task' run' start k lv)" for e' task' run'
  proof (induction e' task' run' start k lv rule: react_loop.induct)
    case (1 e' task' run' start k lv)
    then show ?case
      unfolding react_loop.simps [of e' task' run' start k lv]
      by (auto intro!: keeps_rules split: sum.split)
  qed
  then show ?thesis by simp
qed

lemma keeps_Execute: "keeps I (Execute e task run)"
  unfolding Execute_def by (intro keeps_rules triple_modify inv_seq)

end

section \<open>What stream events keep\<close>

text \<open>
  The effects of one \<open>pushEvent\<close>. Which connections it pushes to is a fact about the store at
  the time it lists them (\<open>good\<close>); the pushes themselves leave the store alone.
\<close>

locale push_invariant =
  fixes e :: "('s, 'a, 'w) Engine" and tenantID taskID runID :: string
    and good :: "Connection \<Rightarrow> bool" and I :: "('s, 'a, 'w) EngineState \<Rightarrow> bool"
  assumes p_tick: "I st \<Longrightarrow> I (st\<lparr>es_tick := n\<rparr>)"
    and p_metrics: "I st \<Longrightarrow> I (st\<lparr>es_metrics := m\<rparr>)"
    and p_seq: "I st \<Longrightarrow> I (st\<lparr>es_eventSeq := k\<rparr>)"
    and p_others: "I st \<Longrightarrow> I (st\<lparr>es_store := en_others e i (es_store st)\<rparr>)"
    and p_put_event:
      "I st \<Longrightarrow> e_TaskID ev = taskID \<Longrightarrow> e_RunID ev = runID
       \<Longrightarrow> I (st\<lparr>es_store := fst (Store_PutEvent (en_store e) n1 n2 (es_store st) ev)\<rparr>)"
    and p_delete: "I st \<Longrightarrow> I (st\<lparr>es_store := fst (Store_DeleteConnection (en_store e) (es_store st) cid)\<rparr>)"
    and p_event:
      "Store_PutEvent (en_store e) n1 n2 s ev = (s', ev', err) \<Longrightarrow> e_TaskID ev' = e_TaskID ev \<and> e_RunID ev' = e_RunID ev"
    and p_conns:
      "I st \<Longrightarrow> Store_GetConnectionsByTask (en_store e) (es_store st) taskID = Inr cs \<Longrightarrow> c \<in> set cs
       \<Longrightarrow> tenantID = [] \<or> c_TenantID c = tenantID \<Longrightarrow> good c"
    and p_push:
      "I st \<Longrightarrow> good c \<Longrightarrow> e_TaskID ev = taskID \<Longrightarrow> e_RunID ev = runID
       \<Longrightarrow> I (st\<lparr>es_pushed := es_pushed st @ [(c_ConnectionID c, ev)]\<rparr>)"
begin

lemma p_call:
  assumes "\<And>st. I st \<Longrightarrow> I (st\<lparr>es_store := fst (f (es_store st))\<rparr>)" and "\<And>s. Q (snd (f s))"
  shows "triple I (store_call e f) (\<lambda>r st. I st \<and> Q r)"
proof (rule tripleI)
  fix st r st'
  assume "I st" and run: "run_state (store_call e f) st = (r, st')"
  let ?st = "st\<lparr>es_tick := Suc (es_tick st), es_store := en_others e (es_tick st) (es_store st)\<rparr>"
  have "I ?st" using p_others [OF p_tick [OF \<open>I st\<close>]] by simp
  then have "I (?st\<lparr>es_store := fst (f (es_store ?st))\<rparr>)" by (rule assms)
  then show "I st' \<and> Q r"
    using run assms(2) [of "en_others e (es_tick st) (es_store st)"]
    by (auto simp: run_store_call Let_def split: prod.splits)
qed

lemma keeps_push_all:
  assumes "e_TaskID ev = taskID" and "e_RunID ev = runID" and "list_all good cs"
  shows "keeps I (push_all push ev cs)"
  using assms(3)
proof (induction cs)
  case (Cons c cs)
  have "keeps I (push_one push ev c)"
    unfolding push_one_def
    by (intro keeps_rules triple_modify p_push)
      (use Cons.prems assms(1,2) in \<open>simp_all add: triple_def p_tick p_metrics\<close>)
  moreover have "keeps I (push_all push ev cs)" using Cons by simp
  ultimately show ?case by (auto intro!: keeps_rules)
qed (simp add: keeps_rules)

lemma keeps_delivery:
  assumes "e_TaskID ev = taskID" and "e_RunID ev = runID"
  shows "triple (\<lambda>st. I st \<and> Store_GetConnectionsByTask (en_store e) (es_store st) taskID = conns)
     (case conns of
        Inl err \<Rightarrow> ret ()
      | Inr cs \<Rightarrow> do {
          i \<leftarrow> tick;
          stale \<leftarrow> push_all push ev
            (take (en_dispatched e i) (filter (\<lambda>c. \<not> (tenantID \<noteq> [] \<and> c_TenantID c \<noteq> tenantID)) cs));
          for_each (\<lambda>cid. do { err \<leftarrow> store_call e (\<lambda>s. Store_DeleteConnection (en_store e) s cid); ret () })
            (remdups stale) }) (\<lambda>_. I)"
proof (cases conns)
  case (Inl err)
  then show ?thesis by (simp add: triple_def)
next
  case (Inr cs)
  let ?to = "filter (\<lambda>c. \<not> (tenantID \<noteq> [] \<and> c_TenantID c \<noteq> tenantID)) cs"
  have "triple (\<lambda>st. I st \<and> Store_GetConnectionsByTask (en_store e) (es_store st) taskID = conns) tick
          (\<lambda>_ st. I st \<and> list_all good ?to)"
    using p_conns Inr by (auto simp: triple_def p_tick list_all_iff)
  moreover have "triple (\<lambda>st. I st \<and> list_all good ?to) (push_all push ev (take n ?to)) (\<lambda>_. I)" for n
  proof (cases "list_all good ?to")
    case True
    then have "list_all good (take n ?to)" by (auto simp: list_all_iff dest: in_set_takeD)
    from keeps_push_all [OF assms this] True show ?thesis by simp
  qed (simp add: triple_def)
  moreover have "keeps I (for_each (\<lambda>cid. do { err \<leftarrow> store_call e (\<lambda>s. Store_DeleteConnection (en_store e) s cid); ret () }) xs)" for xs
    by (intro keeps_rules triple_post [OF p_call [where Q = "\<lambda>_. True"]]) (simp_all add: p_delete)
  ultimately show ?thesis unfolding Inr sum.case by (intro triple_bind)
qed

lemma keeps_pushEvent: "keeps I (pushEvent e tenantID taskID runID ty data)"
proof (cases "en_pusher e")
  case (Some push)
  have now: "keeps I (time_Now e)" by (simp add: triple_def p_tick)
  have put: "triple I (store_call e (\<lambda>s. Store_PutEvent (en_store e) n1 n2 s ev))
      (\<lambda>r st. I st \<and> e_TaskID (fst r) = taskID \<and> e_RunID (fst r) = runID)"
    if "e_TaskID ev = taskID" "e_RunID ev = runID" for n1 n2 ev
  proof (rule p_call)
    fix s
    show "e_TaskID (fst (snd (Store_PutEvent (en_store e) n1 n2 s ev))) = taskID
        \<and> e_RunID (fst (snd (Store_PutEvent (en_store e) n1 n2 s ev))) = runID"
      using p_event [of n1 n2 s ev] that by (metis prod.collapse)
  qed (use that in \<open>simp add: p_put_event\<close>)
  have conns: "triple (\<lambda>st. I st \<and> P) (store_read e (\<lambda>s. Store_GetConnectionsByTask (en_store e) s taskID))
      (\<lambda>r st. (I st \<and> Store_GetConnectionsByTask (en_store e) (es_store st) taskID = r) \<and> P)" for P
  proof (rule tripleI)
    fix st r st'
    assume "I st \<and> P" and run: "run_state (store_read e (\<lambda>s. Store_GetConnectionsByTask (en_store e) s taskID)) st = (r, st')"
    then show "(I st' \<and> Store_GetConnectionsByTask (en_store e) (es_store st') taskID = r) \<and> P"
      using p_others [OF p_tick] by (auto simp: run_store_read)
  qed
  show ?thesis
    unfolding pushEvent_def Some option.case
    by (rule triple_bind [where R = "\<lambda>_. I"], rule triple_modify, rule p_seq, assumption,
        rule triple_bind [OF keeps_gets], rule triple_bind [OF now], rule triple_bind [OF now], rule triple_bind [OF now],
        rule triple_bind [OF put], simp, simp, rule triple_bind [OF conns],
        rule triple_fact, rule keeps_delivery, simp_all)
qed (simp add: pushEvent_def keeps_rules)

end

section \<open>Invariants of the store\<close>

text \<open>
  A predicate on the store that the engine's calls keep, and that the other clients of the
  store keep between them, holds after the run if it held before.
\<close>

locale store_invariant =
  fixes e :: "('s, 'a, 'w) Engine" and task :: Task and run :: Run and J :: "'s \<Rightarrow> bool"
  assumes s_others: "J s \<Longrightarrow> J (en_others e i s)"
    and s_put_step: "J s \<Longrightarrow> s_RunID z = r_RunID run \<Longrightarrow> J (fst (Store_PutStep (en_store e) s z))"
    and s_last_step: "J s \<Longrightarrow> J (fst (Store_UpdateLastStepIndex (en_store e) s (t_TaskID task) (r_RunID run) k))"
    and s_usage: "J s \<Longrightarrow> J (fst (Store_AddRunUsage (en_store e) s (t_TaskID task) (r_RunID run) u c))"
    and s_put_event:
      "J s \<Longrightarrow> e_TaskID ev = t_TaskID task \<Longrightarrow> e_RunID ev = r_RunID run
       \<Longrightarrow> J (fst (Store_PutEvent (en_store e) n1 n2 s ev))"
    and s_delete: "J s \<Longrightarrow> J (fst (Store_DeleteConnection (en_store e) s cid))"
    and s_event:
      "Store_PutEvent (en_store e) n1 n2 s ev = (s', ev', err) \<Longrightarrow> e_TaskID ev' = e_TaskID ev \<and> e_RunID ev' = e_RunID ev"

sublocale store_invariant \<subseteq> push: push_invariant e "t_TenantID task" "t_TaskID task" "r_RunID run" "\<lambda>_. True" "\<lambda>st. J (es_store st)"
  by unfold_locales (auto simp: s_others s_put_event s_delete dest: s_event)

sublocale store_invariant \<subseteq> engine_invariant e task run "\<lambda>st. J (es_store st)"
  by unfold_locales (simp_all add: s_others s_put_step s_last_step s_usage push.keeps_pushEvent)

context store_invariant
begin

lemma store_kept: "J (es_store st) \<Longrightarrow> J (es_store (snd (run_state (Execute e task run) st)))"
  using keepsD [OF keeps_Execute] .

end

end
