(* ===== verification/EngineProps.thy ===== *)
theory EngineProps
  imports EngineLogic TaskProps
begin

text \<open>
  Properties of a run of the engine over the in-memory store while the other clients of the
  store run operations of their own: what the run leaves alone, how often it calls the model,
  that it honours an abort request and the budget, that its steps carry checkpoints that can be
  loaded, and whom its events reach.
\<close>

section \<open>The engine beside other clients of the store\<close>

text \<open>The engine \<open>e\<close> on the in-memory store; before its i-th reading the others run \<open>ops i\<close>.\<close>

definition local_engine ::
  "(MemoryStore, 'a, 'w) Engine \<Rightarrow> (nat \<Rightarrow> StoreOp list) \<Rightarrow> (MemoryStore, 'a, 'w) Engine" where
  "local_engine e ops = e\<lparr>en_store := memory_store, en_others := (\<lambda>i. run_ops (ops i))\<rparr>"

text \<open>Operations that are not addressed to a task, a run or the steps of a run.\<close>

fun leaves_task :: "string \<Rightarrow> StoreOp \<Rightarrow> bool" where
  "leaves_task t (OpUpdateTaskStatus _ t' _ _) = (t' \<noteq> t)"
| "leaves_task t (OpUpdateTaskStatusForRun _ t' _ _ _) = (t' \<noteq> t)"
| "leaves_task t (OpSetAbortRequested _ t' _) = (t' \<noteq> t)"
| "leaves_task t (OpClearAbortRequested _ t') = (t' \<noteq> t)"
| "leaves_task t (OpSetActiveRun _ t' _) = (t' \<noteq> t)"
| "leaves_task t (OpApplyResumeTransition _ _ t' _ _ _) = (t' \<noteq> t)"
| "leaves_task t _ = True"

fun leaves_run :: "string \<Rightarrow> StoreOp \<Rightarrow> bool" where
  "leaves_run k (OpClaimRun _ t r) = (runKey t r \<noteq> k)"
| "leaves_run k (OpCompleteRun _ t r _) = (runKey t r \<noteq> k)"
| "leaves_run k (OpUpdateLastStepIndex t r _) = (runKey t r \<noteq> k)"
| "leaves_run k (OpAddRunUsage t r _ _) = (runKey t r \<noteq> k)"
| "leaves_run k (OpResetRunToQueued _ t r) = (runKey t r \<noteq> k)"
| "leaves_run k _ = True"

fun leaves_steps :: "string \<Rightarrow> StoreOp \<Rightarrow> bool" where
  "leaves_steps r (OpPutStep z) = (s_RunID z \<noteq> r)"
| "leaves_steps r _ = True"

lemma leaves_task_step: "task_view s t = Some x \<Longrightarrow> leaves_task t op \<Longrightarrow> task_view (apply_op op s) t = Some x"
  by (cases op) (auto simp: store_op_defs Let_def view_defs gm_has_def gomap_simps split: option.splits)

lemma leaves_run_step: "run_view s k = Some y \<Longrightarrow> leaves_run k op \<Longrightarrow> run_view (apply_op op s) k = Some y"
  by (cases op) (auto simp: store_op_defs Let_def view_defs gm_has_def gomap_simps split: option.splits)

lemma leaves_steps_step:
  "step_view s (stepKey r i) = None \<Longrightarrow> leaves_steps r op \<Longrightarrow> step_view (apply_op op s) (stepKey r i) = None"
  by (cases op) (auto simp: store_op_defs Let_def view_defs gm_has_def gomap_simps split: option.splits)

interpretation task_left: machine apply_op "\<lambda>s. task_view s t = Some x" "leaves_task t" for t x
  by unfold_locales (rule leaves_task_step)

interpretation run_left: machine apply_op "\<lambda>s. run_view s k = Some y" "leaves_run k" for k y
  by unfold_locales (rule leaves_run_step)

interpretation steps_left: machine apply_op "\<lambda>s. step_view s (stepKey r i) = None" "leaves_steps r" for r i
  by unfold_locales (rule leaves_steps_step)

lemma memory_event:
  "Store_PutEvent memory_store n1 n2 s ev = (s', ev', err) \<Longrightarrow> e_TaskID ev' = e_TaskID ev \<and> e_RunID ev' = e_RunID ev"
  by (auto simp: memory_store_def PutEvent_def Let_def split: if_splits)

text \<open>The engine's own calls, as operations of the store.\<close>

lemma engine_calls:
  "fst (Store_PutStep memory_store s z) = apply_op (OpPutStep z) s"
  "fst (Store_UpdateLastStepIndex memory_store s t r k) = apply_op (OpUpdateLastStepIndex t r k) s"
  "fst (Store_AddRunUsage memory_store s t r u c) = apply_op (OpAddRunUsage t r u c) s"
  "fst (Store_PutEvent memory_store n1 n2 s ev) = apply_op (OpPutEvent n1 n2 (Some ev)) s"
  "fst (Store_DeleteConnection memory_store s cid) = apply_op (OpDeleteConnection cid) s"
  by (simp_all add: memory_store_def split: prod.split)

lemmas local_engine_simps = local_engine_def engine_calls memory_event

interpretation engine_history: store_invariant "local_engine e ops" task run "\<lambda>s. store_wf s \<and> store_extends s0 s" for s0
  by unfold_locales
    (auto simp: local_engine_simps run_ops_wf simp del: apply_op.simps
      intro: wf_apply_op store_extends_trans [OF _ extends_apply_op] store_extends_trans [OF _ run_ops_extends])

interpretation engine_task: store_invariant "local_engine e ops" task run
    "\<lambda>s. (\<forall>i. list_all (leaves_task t) (ops i)) \<longrightarrow> task_view s t = Some x" for t x
  by unfold_locales
    (auto simp: local_engine_simps run_ops_def simp del: apply_op.simps intro: task_left.inv_run leaves_task_step)

definition status_kept :: "string \<Rightarrow> Run \<Rightarrow> MemoryStore \<Rightarrow> bool" where
  "status_kept k y s \<longleftrightarrow>
     (\<exists>y'. run_view s k = Some y' \<and> r_Status y' = r_Status y \<and> run_identity y' = run_identity y)"

lemma status_kept_own:
  "status_kept k y s \<Longrightarrow> status_kept k y (apply_op (OpUpdateLastStepIndex t r i) s)"
  "status_kept k y s \<Longrightarrow> status_kept k y (apply_op (OpAddRunUsage t r u c) s)"
  "status_kept k y s \<Longrightarrow> status_kept k y (apply_op (OpPutStep z) s)"
  "status_kept k y s \<Longrightarrow> status_kept k y (apply_op (OpPutEvent n1 n2 ev) s)"
  "status_kept k y s \<Longrightarrow> status_kept k y (apply_op (OpDeleteConnection cid) s)"
  by (auto simp: status_kept_def run_identity_def store_op_defs Let_def view_defs gomap_simps split: option.splits)

lemma status_kept_others:
  assumes "status_kept k y s" and "list_all (leaves_run k) ops"
  shows "status_kept k y (run_ops ops s)"
  using assms run_left.inv_run [of s k _ ops] unfolding status_kept_def run_ops_def by blast

interpretation engine_status: store_invariant "local_engine e ops" task run
    "\<lambda>s. (\<forall>i. list_all (leaves_run k) (ops i)) \<longrightarrow> status_kept k y s" for k y
  by unfold_locales
    (auto simp: local_engine_simps simp del: apply_op.simps intro: status_kept_own status_kept_others)

text \<open>
  C11. A run of the engine keeps the store's representation invariant and evolves the store
  only as store histories do: stored steps and the identities of tasks and runs stay. What the
  other clients leave alone, it leaves alone as well: it never changes a task, and never the
  status of a run.
\<close>

theorem engine_frame:
  assumes "store_wf (es_store st)"
    and "run_state (Execute (local_engine e ops) task run) st = (out, st')"
  shows "store_wf (es_store st') \<and> store_extends (es_store st) (es_store st')
     \<and> (\<forall>t x. (\<forall>i. list_all (leaves_task t) (ops i)) \<and> task_view (es_store st) t = Some x
          \<longrightarrow> task_view (es_store st') t = Some x)
     \<and> (\<forall>k y. (\<forall>i. list_all (leaves_run k) (ops i)) \<and> run_view (es_store st) k = Some y
          \<longrightarrow> (\<exists>y'. run_view (es_store st') k = Some y' \<and> r_Status y' = r_Status y \<and> run_identity y' = run_identity y))"
proof -
  have st': "st' = snd (run_state (Execute (local_engine e ops) task run) st)" using assms(2) by simp
  have "store_wf (es_store st') \<and> store_extends (es_store st) (es_store st')"
    unfolding st' by (rule engine_history.store_kept) (simp add: assms(1))
  moreover have "task_view (es_store st') t = Some x"
    if "\<forall>i. list_all (leaves_task t) (ops i)" "task_view (es_store st) t = Some x" for t x
    using engine_task.store_kept [where ops = ops and t = t and x = x and st = st and e = e and task = task and run = run] that unfolding st' by blast
  moreover have "status_kept k y (es_store st')"
    if "\<forall>i. list_all (leaves_run k) (ops i)" "run_view (es_store st) k = Some y" for k y
    using engine_status.store_kept [where ops = ops and k = k and y = y and st = st and e = e and task = task and run = run] that unfolding st' status_kept_def by blast
  ultimately show ?thesis unfolding status_kept_def by blast
qed

section \<open>A concrete engine\<close>

text \<open>
  A model that answers at once, an empty workspace and no pusher: the concrete run that the
  witnesses evaluate.
\<close>

definition sample_llm :: LLMClient where
  "sample_llm =
     \<lparr>cl_Chat = (\<lambda>_ _. Inr \<lparr>lr_Content = ''done'', lr_ToolCalls = [], lr_TokenUsage = None, lr_FinishReason = ''stop'',
        lr_ModelID = ''m'', lr_Provider = ''p''\<rparr>), cl_ChatStream = None\<rparr>"

definition sample_lib :: golib where
  "sample_lib =
     \<lparr>lib_Sum256 = (\<lambda>_. [7]), lib_gzip = (\<lambda>d. d), lib_gzip_reader = (\<lambda>d. Inr (Inr d)),
      lib_unmarshal_snapshot = (\<lambda>_. Inl ''unsupported''), lib_Quote = (\<lambda>s. s)\<rparr>"

definition sample_json :: jsonlib where
  "sample_json = \<lparr>json_parse = (\<lambda>_. Inl ''unsupported''), json_print = (\<lambda>_. Inr ''{}'')\<rparr>"

definition sample_ws :: "unit WsManager" where
  "sample_ws =
     \<lparr>Ws_Write = (\<lambda>w _ _. (w, None)), Ws_Read = (\<lambda>_ _. Inr []), Ws_List = (\<lambda>_ _. Inr []),
      Ws_Stat = (\<lambda>_ _. Inl (WsErr [])), Ws_Delete = (\<lambda>w _. (w, None)), Ws_Snapshot = (\<lambda>_. Inr (Inr ''tar'')),
      Ws_Restore = (\<lambda>w _. (w, None)), Ws_Usage = (\<lambda>_. (0, 0))\<rparr>"

definition sample_engine :: "(MemoryStore, blobs, unit) Engine" where
  "sample_engine =
     \<lparr>en_MaxSteps = 3, en_store = memory_store, en_artifacts = memory_artifacts sample_lib, en_llm = sample_llm,
      en_tools = [], en_pusher = None, en_ws = sample_ws, en_env = sample_env, en_json = sample_json,
      en_lib = sample_lib, en_clock = (\<lambda>i. int i), en_cancelled = (\<lambda>_. False), en_dispatched = (\<lambda>_. 0),
      en_others = (\<lambda>_ s. s)\<rparr>"

definition sample_task :: Task where
  "sample_task =
     \<lparr>t_TaskID = ''t1'', t_TenantID = ''acme'', t_UserID = ''u1'', t_Status = TaskStatusRunning, t_ActiveRunID = ''r1'',
      t_AbortRequested = False, t_AbortReason = [], t_AbortTS = None, t_IdempotencyKey = [], t_Prompt = ''hi'',
      t_ModelConfig = None, t_CreatedAt = 0, t_UpdatedAt = 0\<rparr>"

definition sample_run :: Run where
  "sample_run =
     \<lparr>r_TaskID = ''t1'', r_RunID = ''r1'', r_TenantID = ''acme'', r_Status = RunStatusRunning, r_QueuedAt = Some 1,
      r_ParentRunID = [], r_ResumeFromStepIndex = None, r_ModelConfig = None, r_StartedAt = Some 2, r_EndedAt = None,
      r_LastStepIndex = 0, r_TotalTokenUsage = None, r_TotalCostUSD = 0\<rparr>"

definition sample_state :: "(MemoryStore, blobs, unit) EngineState" where
  "sample_state =
     \<lparr>es_store = NewMemoryStore\<lparr>db_tasks := [(''t1'', sample_task)], db_runs := [(''t1#r1'', sample_run)]\<rparr>,
      es_art = [], es_ws = (), es_eventSeq = 0, es_metrics = NewMetrics, es_pushed = [], es_requests = [], es_tick = 0\<rparr>"

lemma sample_state_wf: "store_wf (es_store sample_state)"
  by (simp add: sample_state_def sample_task_def sample_run_def store_wf_def NewMemoryStore_def runKey_def)

theorem engine_frame_witness:
  "store_wf (es_store sample_state)
   \<and> task_view (es_store (snd (run_state (Execute (local_engine sample_engine (\<lambda>_. [])) sample_task sample_run) sample_state))) ''t1''
       = Some sample_task"
proof -
  obtain out st' where run: "run_state (Execute (local_engine sample_engine (\<lambda>_. [])) sample_task sample_run) sample_state = (out, st')"
    by fastforce
  have "task_view (es_store sample_state) ''t1'' = Some sample_task" by (simp add: sample_state_def task_view_def)
  then show ?thesis using engine_frame [OF sample_state_wf run] run sample_state_wf by simp
qed

section \<open>How often the model is called\<close>

interpretation request_pushes: push_invariant "local_engine e ops" tenantID taskID runID "\<lambda>_. True" "\<lambda>st. P (es_requests st)"
  for tenantID taskID runID P
  by unfold_locales (auto simp: local_engine_simps)

interpretation request_trace: engine_writes "local_engine e ops" task run "\<lambda>st. P (es_requests st)" for P
  by unfold_locales (auto intro: request_pushes.keeps_pushEvent)

interpretation request_sizes: engine_invariant "local_engine e ops" task run
    "\<lambda>st. list_all (\<lambda>q. int (length (lq_Messages q)) \<le> maxEngineMemoryMessages) (es_requests st)"
  by unfold_locales simp

lemma call_llm_count:
  "triple (\<lambda>st. length (es_requests st) \<le> n) (call_llm (local_engine e ops) task run k q)
     (\<lambda>_ st. length (es_requests st) \<le> Suc n)"
  unfolding call_llm_def
  by (rule triple_bind [OF keeps_gets], rule triple_bind [where R = "\<lambda>_ st. length (es_requests st) \<le> Suc n"],
      rule triple_modify, simp)
    (intro keeps_rules request_trace.keeps_event [where P = "\<lambda>qs. length qs \<le> Suc n"])

lemma llm_phase_count:
  "triple (\<lambda>st. length (es_requests st) \<le> n) (llm_phase (local_engine e ops) task run k lv)
     (\<lambda>_ st. length (es_requests st) \<le> Suc n)"
  unfolding llm_phase_def Let_def
  by (rule triple_bind [OF request_trace.keeps_event [where P = "\<lambda>qs. length qs \<le> n"]],
      rule triple_bind [OF request_trace.keeps_time_Now [where P = "\<lambda>qs. length qs \<le> n"]],
      rule triple_bind [OF call_llm_count])
    (intro keeps_rules request_trace.keeps_event [where P = "\<lambda>qs. length qs \<le> Suc n"]
      request_trace.keeps_writeErrorStep [where P = "\<lambda>qs. length qs \<le> Suc n"]
      request_trace.keeps_fail_run [where P = "\<lambda>qs. length qs \<le> Suc n"])

lemma react_step_count:
  "triple (\<lambda>st. length (es_requests st) \<le> n) (react_step (local_engine e ops) task run k lv)
     (\<lambda>_ st. length (es_requests st) \<le> Suc n)"
proof -
  note rules = request_trace.keeps_usage_phase [where P = "\<lambda>qs. length qs \<le> Suc n"]
    request_trace.keeps_tool_step [where P = "\<lambda>qs. length qs \<le> Suc n"]
    request_trace.keeps_time_Now [where P = "\<lambda>qs. length qs \<le> Suc n"]
    request_trace.keeps_checkpoint_phase [where P = "\<lambda>qs. length qs \<le> Suc n"]
    request_trace.keeps_write_phase [where P = "\<lambda>qs. length qs \<le> Suc n"]
    request_trace.keeps_finish_phase [where P = "\<lambda>qs. length qs \<le> Suc n"]
  show ?thesis
    unfolding react_step_def Let_def
    by (rule triple_attempt [OF request_trace.keeps_check_abort [where P = "\<lambda>qs. length qs \<le> n"]], simp,
        rule triple_attempt [OF request_trace.keeps_check_context [where P = "\<lambda>qs. length qs \<le> n"]], simp,
        rule triple_attempt [OF llm_phase_count], simp)
      (intro keeps_rules rules, simp)
qed

lemma react_loop_count:
  "triple (\<lambda>st. length (es_requests st) \<le> n) (react_loop (local_engine e ops) task run start k lv)
     (\<lambda>_ st. length (es_requests st) \<le> n + nat (add64 start (en_MaxSteps e) - k))"
proof (induction "nat (add64 start (en_MaxSteps e) - k)" arbitrary: n k lv rule: less_induct)
  case less
  show ?case
  proof (cases "k < add64 start (en_MaxSteps e)")
    case False
    then have eq: "react_loop (local_engine e ops) task run start k lv = max_steps_reached (local_engine e ops) task run start lv"
      by (intro react_loop_done) (simp add: local_engine_def)
    show ?thesis
      unfolding eq by (rule triple_post [OF request_trace.keeps_max_steps [where P = "\<lambda>qs. length qs \<le> n"]], simp)
  next
    case True
    have "k < add64 k 1" using True by (rule add64_Suc_gt) simp
    then have dec: "nat (add64 start (en_MaxSteps e) - add64 k 1) < nat (add64 start (en_MaxSteps e) - k)"
      using True by linarith
    have rest: "triple (\<lambda>st. length (es_requests st) \<le> Suc n)
        (case r of Inl out \<Rightarrow> ret out | Inr lv' \<Rightarrow> react_loop (local_engine e ops) task run start (add64 k 1) lv')
        (\<lambda>_ st. length (es_requests st) \<le> n + nat (add64 start (en_MaxSteps e) - k))" for r
    proof (cases r)
      case (Inl out)
      then show ?thesis using dec by (auto simp: triple_def)
    next
      case (Inr lv')
      show ?thesis
        unfolding Inr sum.case by (rule triple_post [OF less(1) [OF dec]]) (use dec in linarith)
    qed
    have "react_loop (local_engine e ops) task run start k lv =
        State_Monad.bind (react_step (local_engine e ops) task run k lv)
          (\<lambda>r. case r of Inl out \<Rightarrow> ret out | Inr lv' \<Rightarrow> react_loop (local_engine e ops) task run start (add64 k 1) lv')"
      using True by (intro react_loop_more) (simp add: local_engine_def)
    then show ?thesis by (rule ssubst) (rule triple_bind [OF react_step_count rest])
  qed
qed

lemma wrap64_le: "- (2 ^ 63) \<le> x \<Longrightarrow> wrap64 x \<le> x"
  unfolding wrap64_def using zmod_le_nonneg_dividend [of "x + 2 ^ 63" "2 ^ 64"] by simp

lemma loop_budget: "in_i64 start \<Longrightarrow> 0 \<le> m \<Longrightarrow> nat (add64 start m - start) \<le> nat m"
  using wrap64_le [of "start + m"] by (simp add: add64_def in_i64_def)

lemma restore_start:
  "triple (\<lambda>_. True) (restore_phase e run) (\<lambda>r _. \<forall>mem start. r = Inr (mem, start) \<longrightarrow> in_i64 start)"
proof (cases "r_ResumeFromStepIndex run")
  case None
  then show ?thesis by (simp add: restore_phase_def triple_def in_i64_def)
next
  case (Some i)
  show ?thesis
    by (auto simp: restore_phase_def Some triple_def Let_def split: prod.splits sum.splits option.splits)
qed

text \<open>
  C10. Every run ends, and it ends within its budget of steps: it sends at most \<open>MaxSteps\<close>
  requests to the model, whatever the model, the tools and the other clients of the store do,
  and no request carries more than 64 messages.
\<close>

theorem engine_calls_bounded:
  assumes "0 \<le> en_MaxSteps e" and "es_requests st = []"
    and "run_state (Execute (local_engine e ops) task run) st = (out, st')"
  shows "length (es_requests st') \<le> nat (en_MaxSteps e)
     \<and> (\<forall>q \<in> set (es_requests st'). length (lq_Messages q) \<le> 64)"
proof
  have st': "st' = snd (run_state (Execute (local_engine e ops) task run) st)" using assms(3) by simp
  have "list_all (\<lambda>q. int (length (lq_Messages q)) \<le> maxEngineMemoryMessages) (es_requests st')"
    unfolding st' by (rule keepsD [OF request_sizes.keeps_Execute]) (simp add: assms(2))
  then show "\<forall>q \<in> set (es_requests st'). length (lq_Messages q) \<le> 64"
    by (simp add: list_all_iff maxEngineMemoryMessages_def)
  let ?E = "local_engine e ops"
  let ?none = "\<lambda>st. length (es_requests st) \<le> (0::nat)"
  have restore: "triple ?none (restore_phase ?E run)
      (\<lambda>r st. ?none st \<and> (\<forall>mem start. r = Inr (mem, start) \<longrightarrow> in_i64 start))"
    using triple_conj [OF request_trace.keeps_restore_phase [where P = "\<lambda>qs. length qs \<le> 0"] restore_start] by simp
  have loop: "triple (\<lambda>st. ?none st \<and> in_i64 start) (react_loop ?E task run start start lv)
      (\<lambda>_ st. length (es_requests st) \<le> nat (en_MaxSteps e))" for start lv
  proof (rule triple_fact)
    assume "in_i64 start"
    show "triple ?none (react_loop ?E task run start start lv) (\<lambda>_ st. length (es_requests st) \<le> nat (en_MaxSteps e))"
      by (rule triple_post [OF react_loop_count]) (use loop_budget [OF \<open>in_i64 start\<close> assms(1)] in simp)
  qed
  have run: "triple ?none (case r of Inl err \<Rightarrow> ret (Inl err) | Inr (mem, start) \<Rightarrow> react_loop ?E task run start start (lv mem))
      (\<lambda>_ st. length (es_requests st) \<le> nat (en_MaxSteps e))"
    if "\<forall>mem start. r = Inr (mem, start) \<longrightarrow> in_i64 start" for r lv
    using that triple_pre [OF loop] by (cases r) (auto simp: triple_def)
  have "triple ?none (Execute ?E task run) (\<lambda>_ st. length (es_requests st) \<le> nat (en_MaxSteps e))"
  proof (cases "Validate (en_env ?E) (t_Prompt task) (LoadFromEnv (en_env ?E))")
    case (Some err)
    then show ?thesis by (simp add: Execute_def triple_def)
  next
    case None
    show ?thesis
      unfolding Execute_def None option.case
      by (rule triple_bind [where R = "\<lambda>_. ?none"], simp add: triple_def,
          rule triple_bind [where R = "\<lambda>_. ?none"], rule triple_modify, simp,
          rule triple_bind [OF restore], rule triple_fact, rule run, assumption)
  qed
  then show "length (es_requests st') \<le> nat (en_MaxSteps e)"
    using assms(2,3) tripleD by fastforce
qed

theorem engine_calls_bounded_witness:
  "length (es_requests (snd (run_state (Execute (local_engine sample_engine (\<lambda>_. [])) sample_task sample_run) sample_state))) \<le> 3"
proof -
  obtain out st' where run: "run_state (Execute (local_engine sample_engine (\<lambda>_. [])) sample_task sample_run) sample_state = (out, st')"
    by fastforce
  show ?thesis
    using engine_calls_bounded [OF _ _ run] run by (simp add: sample_engine_def sample_state_def)
qed

section \<open>Abort requests\<close>

lemma abort_exit:
  assumes "task_view (es_store st) (t_TaskID task) = Some x" and "t_AbortRequested x"
    and "list_all (leaves_task (t_TaskID task)) (ops (es_tick st))"
  shows "fst (run_state (check_abort (local_engine e ops) task run k lv) st) = Inl (Inr (run_result RunStatusAborted k [] lv))"
proof -
  have "task_view (run_ops (ops (es_tick st)) (es_store st)) (t_TaskID task) = Some x"
    using task_left.inv_run [OF assms(1,3)] by (simp add: run_ops_def)
  then have "Store_IsAbortRequested (en_store (local_engine e ops)) (en_others (local_engine e ops) (es_tick st) (es_store st))
      (t_TaskID task) = Inr (True, t_AbortReason x)"
    using assms(2) by (simp add: local_engine_def memory_store_def IsAbortRequested_def task_view_def)
  then show ?thesis
    unfolding check_abort_def by (simp add: run_store_read split: prod.splits)
qed

text \<open>
  C16. An abort request stops the run before the next call of the model: at whatever step the
  loop is, when the task carries a request and the other clients do not withdraw it at that
  moment, the run ends as aborted with this step as its last, without another request to the
  model.
\<close>

theorem abort_honoured:
  assumes "task_view (es_store st) (t_TaskID task) = Some x" and "t_AbortRequested x"
    and "list_all (leaves_task (t_TaskID task)) (ops (es_tick st))"
    and "k < add64 start (en_MaxSteps e)"
    and "run_state (react_loop (local_engine e ops) task run start k lv) st = (out, st')"
  shows "out = Inr (run_result RunStatusAborted k [] lv) \<and> es_requests st' = es_requests st"
proof -
  let ?E = "local_engine e ops"
  have more: "react_loop ?E task run start k lv = State_Monad.bind (react_step ?E task run k lv)
      (\<lambda>r. case r of Inl out \<Rightarrow> ret out | Inr lv' \<Rightarrow> react_loop ?E task run start (add64 k 1) lv')"
    using assms(4) by (intro react_loop_more) (simp add: local_engine_def)
  obtain st1 where abort: "run_state (check_abort ?E task run k lv) st = (Inl (Inr (run_result RunStatusAborted k [] lv)), st1)"
    using abort_exit [of st task x ops e run k lv] assms(1-3) by (metis prod.collapse)
  have "es_requests st1 = es_requests st"
    using tripleD [OF request_trace.keeps_check_abort [where P = "\<lambda>qs. qs = es_requests st"] _ abort] by simp
  moreover have "run_state (react_step ?E task run k lv) st = (Inl (Inr (run_result RunStatusAborted k [] lv)), st1)"
    unfolding react_step_def by (simp add: abort)
  ultimately show ?thesis using assms(5) unfolding more by simp
qed

definition aborting_task :: Task where
  "aborting_task = sample_task\<lparr>t_AbortRequested := True, t_AbortReason := ''enough''\<rparr>"

theorem abort_honoured_witness:
  "fst (run_state (react_loop (local_engine sample_engine (\<lambda>_. [])) aborting_task sample_run 0 1
       \<lparr>lv_mem = add_prompt aborting_task \<lparr>ms_RunID = ''r1'', ms_StepIndex = 0, ms_Messages = [], ms_Scratchpad = [], ms_ToolState = []\<rparr>,
        lv_totalTokens = 5, lv_totalCost = 0, lv_lengthStops = 0\<rparr>)
       (sample_state\<lparr>es_store := NewMemoryStore\<lparr>db_tasks := [(''t1'', aborting_task)]\<rparr>\<rparr>))
   = Inr \<lparr>rr_Status = RunStatusAborted, rr_LastStep = 1, rr_ErrorMessage = [], rr_TotalTokens = 5, rr_TotalCostUSD = 0\<rparr>"
  (is "fst (run_state (react_loop ?E _ _ _ _ ?lv) ?st) = _")
proof -
  obtain out st' where run: "run_state (react_loop ?E aborting_task sample_run 0 1 ?lv) ?st = (out, st')" by fastforce
  have "task_view (es_store ?st) (t_TaskID aborting_task) = Some aborting_task"
    by (simp add: task_view_def aborting_task_def sample_task_def)
  moreover have "1 < add64 0 (en_MaxSteps sample_engine)" by (simp add: sample_engine_def add64_def wrap64_def)
  ultimately have "out = Inr (run_result RunStatusAborted 1 [] ?lv)"
    using abort_honoured [OF _ _ _ _ run, of aborting_task] by (simp add: aborting_task_def)
  then show ?thesis using run by (simp add: run_result_def)
qed

section \<open>The budget\<close>

text \<open>Programs that never return a successful result early.\<close>

definition unsuccessful :: "('s, outcome + 'b) state \<Rightarrow> bool" where
  "unsuccessful m \<longleftrightarrow> triple (\<lambda>_. True) m (\<lambda>r _. \<forall>res. r = Inl (Inr res) \<longrightarrow> rr_Status res \<noteq> RunStatusSucceeded)"

lemma unsuccessful_rules:
  "unsuccessful (ret (Inr x))"
  "unsuccessful (ret (Inl (Inl err)))"
  "unsuccessful (fail_run k msg lv)"
  by (simp_all add: unsuccessful_def triple_def fail_run_def run_result_def)

lemma unsuccessful_bind: "(\<And>a. unsuccessful (f a)) \<Longrightarrow> unsuccessful (State_Monad.bind m f)"
  unfolding unsuccessful_def by (auto simp: triple_def split: prod.split)

lemma unsuccessful_sum:
  "(\<And>e. unsuccessful (g e)) \<Longrightarrow> (\<And>x. unsuccessful (f x)) \<Longrightarrow> unsuccessful (case v of Inl e \<Rightarrow> g e | Inr x \<Rightarrow> f x)"
  by (cases v) simp_all

lemma unsuccessful_phases:
  "unsuccessful (check_abort e task run k lv)"
  "unsuccessful (check_context e k lv)"
  "unsuccessful (llm_phase e task run k lv)"
  "unsuccessful (tool_step e task run k start tc acc)"
  "unsuccessful (checkpoint_phase e task run k lv)"
  "unsuccessful (write_phase e task run k step lv)"
proof -
  show "unsuccessful (check_abort e task run k lv)"
    unfolding check_abort_def
    by (intro unsuccessful_bind unsuccessful_sum unsuccessful_rules)
      (auto intro!: unsuccessful_bind unsuccessful_rules simp: unsuccessful_def triple_def run_result_def split: prod.split)
  show "unsuccessful (check_context e k lv)"
    unfolding check_context_def by (auto intro!: unsuccessful_bind unsuccessful_rules)
  show "unsuccessful (llm_phase e task run k lv)"
    unfolding llm_phase_def Let_def by (intro unsuccessful_bind unsuccessful_sum unsuccessful_rules)
  show "unsuccessful (tool_step e task run k start tc acc)"
    unfolding tool_step_def by (intro unsuccessful_bind unsuccessful_sum unsuccessful_rules)
  show "unsuccessful (checkpoint_phase e task run k lv)"
    unfolding checkpoint_phase_def Let_def by (intro unsuccessful_bind unsuccessful_sum unsuccessful_rules)
  show "unsuccessful (write_phase e task run k step lv)"
    unfolding write_phase_def by (auto intro!: unsuccessful_bind unsuccessful_sum unsuccessful_rules)
qed

text \<open>After the usage is recorded, the totals are within the budget, and the step leaves them alone.\<close>

definition within_budget :: "ModelConfig option \<Rightarrow> LoopVars \<Rightarrow> bool" where
  "within_budget cfg lv \<longleftrightarrow> checkBudgetExceeded cfg (lv_totalTokens lv) (lv_totalCost lv) = None"

definition same_totals :: "LoopVars \<Rightarrow> LoopVars \<Rightarrow> bool" where
  "same_totals lv lv' \<longleftrightarrow> lv_totalTokens lv' = lv_totalTokens lv \<and> lv_totalCost lv' = lv_totalCost lv"

lemma usage_within:
  "triple (\<lambda>_. True) (usage_phase e task run k start resp lv)
     (\<lambda>r _. (\<forall>res. r = Inl (Inr res) \<longrightarrow> rr_Status res \<noteq> RunStatusSucceeded)
        \<and> (\<forall>lv'. r = Inr lv' \<longrightarrow> within_budget (r_ModelConfig run) lv'))"
  unfolding usage_phase_def Let_def
  by (rule triple_bind [where R = "\<lambda>_ _. True"], simp add: triple_def)
    (auto simp: triple_def within_budget_def fail_run_def run_result_def split: option.split prod.split)

lemma append_message_totals [simp]:
  "lv_totalTokens (append_message m lv) = lv_totalTokens lv" "lv_totalCost (append_message m lv) = lv_totalCost lv"
  by (simp_all add: append_message_def)

lemma tools_totals:
  "triple (\<lambda>_. True) (fold_attempt (tool_step e task run k start) calls acc)
     (\<lambda>r _. (\<forall>res. r = Inl (Inr res) \<longrightarrow> rr_Status res \<noteq> RunStatusSucceeded)
        \<and> (\<forall>acc'. r = Inr acc' \<longrightarrow> same_totals (fst acc) (fst acc')))"
proof -
  have one: "triple (\<lambda>_. True) (tool_step e task run k start tc b)
      (\<lambda>r _. (\<forall>res. r = Inl (Inr res) \<longrightarrow> rr_Status res \<noteq> RunStatusSucceeded)
        \<and> (\<forall>acc'. r = Inr acc' \<longrightarrow> same_totals (fst b) (fst acc')))" for tc b
    using unsuccessful_phases(4) [of e task run k start tc b]
    by (auto simp: unsuccessful_def triple_def tool_step_def same_totals_def fail_run_def split: sum.splits prod.splits)
  have "triple (\<lambda>_. same_totals (fst acc) (fst acc)) (fold_attempt (tool_step e task run k start) calls acc)
      (\<lambda>r s. case r of Inl x \<Rightarrow> (\<forall>res. x = Inr res \<longrightarrow> rr_Status res \<noteq> RunStatusSucceeded)
         | Inr b \<Rightarrow> same_totals (fst acc) (fst b))"
  proof (rule triple_fold_attempt [where P = "\<lambda>b _. same_totals (fst acc) (fst b)"])
    fix x b
    show "triple (\<lambda>_. same_totals (fst acc) (fst b)) (tool_step e task run k start x b)
        (\<lambda>r s. case r of Inl x \<Rightarrow> (\<forall>res. x = Inr res \<longrightarrow> rr_Status res \<noteq> RunStatusSucceeded)
         | Inr b \<Rightarrow> same_totals (fst acc) (fst b))"
      using one [of x b] by (auto simp: triple_def same_totals_def split: sum.split)
  qed
  then show ?thesis
    by (rule triple_pre [OF triple_post]) (auto simp: same_totals_def split: sum.splits)
qed

lemma checkpoint_totals:
  "triple (\<lambda>_. True) (checkpoint_phase e task run k lv)
     (\<lambda>r _. (\<forall>res. r = Inl (Inr res) \<longrightarrow> rr_Status res \<noteq> RunStatusSucceeded)
        \<and> (\<forall>x. r = Inr x \<longrightarrow> same_totals lv (snd x)))"
  using unsuccessful_phases(5) [of e task run k lv]
  by (auto simp: unsuccessful_def triple_def checkpoint_phase_def same_totals_def fail_run_def Let_def
      split: sum.splits prod.splits)

lemma finish_totals:
  "triple (\<lambda>_. True) (finish_phase e task run k stepEnd resp ref lv)
     (\<lambda>r _. \<forall>res. r = Inl (Inr res) \<longrightarrow> rr_Status res = RunStatusSucceeded
        \<longrightarrow> rr_TotalTokens res = lv_totalTokens lv \<and> rr_TotalCostUSD res = lv_totalCost lv)"
  by (auto simp: triple_def finish_phase_def Let_def fail_run_def run_result_def split: sum.splits prod.splits)

definition result_within :: "ModelConfig option \<Rightarrow> outcome \<Rightarrow> bool" where
  "result_within cfg out \<longleftrightarrow>
     (\<forall>res. out = Inr res \<longrightarrow> rr_Status res = RunStatusSucceeded
        \<longrightarrow> checkBudgetExceeded cfg (rr_TotalTokens res) (rr_TotalCostUSD res) = None)"

lemma within_attempt:
  assumes "triple (\<lambda>_. True) m (\<lambda>r _. (\<forall>res. r = Inl (Inr res) \<longrightarrow> rr_Status res \<noteq> RunStatusSucceeded) \<and> (\<forall>a. r = Inr a \<longrightarrow> D a))"
    and "\<And>a. D a \<Longrightarrow> triple (\<lambda>_. True) (f a) (\<lambda>r _. \<forall>out. r = Inl out \<longrightarrow> result_within cfg out)"
  shows "triple (\<lambda>_. True) (attempt m f) (\<lambda>r _. \<forall>out. r = Inl out \<longrightarrow> result_within cfg out)"
proof (rule triple_attempt [OF assms(1)])
  fix a
  show "triple (\<lambda>_. (\<forall>res. Inr a = Inl (Inr res) \<longrightarrow> rr_Status res \<noteq> RunStatusSucceeded) \<and> (\<forall>a'. Inr a = Inr a' \<longrightarrow> D a'))
      (f a) (\<lambda>r _. \<forall>out. r = Inl out \<longrightarrow> result_within cfg out)"
    using assms(2) [of a] by (auto simp: triple_def)
qed (auto simp: result_within_def)

lemma within_phase:
  assumes "unsuccessful m" and "\<And>a. triple (\<lambda>_. True) (f a) (\<lambda>r _. \<forall>out. r = Inl out \<longrightarrow> result_within cfg out)"
  shows "triple (\<lambda>_. True) (attempt m f) (\<lambda>r _. \<forall>out. r = Inl out \<longrightarrow> result_within cfg out)"
  by (rule within_attempt [where D = "\<lambda>_. True"]) (use assms in \<open>simp_all add: unsuccessful_def\<close>)

lemma finish_within:
  assumes "within_budget cfg lv2" and "same_totals (append_message m lv2) lv4" and "same_totals lv4 lv'"
  shows "triple (\<lambda>_. True) (finish_phase e task run k t resp ref lv') (\<lambda>r _. \<forall>out. r = Inl out \<longrightarrow> result_within cfg out)"
  using finish_totals [of e task run k t resp ref lv'] assms
  by (auto simp: triple_def result_within_def within_budget_def same_totals_def)

lemma react_step_within:
  "triple (\<lambda>_. True) (react_step e task run k lv) (\<lambda>r _. \<forall>out. r = Inl out \<longrightarrow> result_within (r_ModelConfig run) out)"
  unfolding react_step_def Let_def
  by (rule within_phase [OF unsuccessful_phases(1)], rule within_phase [OF unsuccessful_phases(2)],
      rule within_phase [OF unsuccessful_phases(3)], clarify, rule within_attempt [OF usage_within],
      rule within_attempt [OF tools_totals], clarify, rule triple_bind [where R = "\<lambda>_ _. True"],
      simp add: triple_def, rule within_attempt [OF checkpoint_totals], clarify,
      rule within_phase [OF unsuccessful_phases(6)], rule finish_within) simp_all

lemma react_loop_within:
  "triple (\<lambda>_. True) (react_loop e task run start k lv) (\<lambda>out _. result_within (r_ModelConfig run) out)"
proof (induction e task run start k lv rule: react_loop.induct)
  case (1 e task run start k lv)
  show ?case
  proof (cases "k < add64 start (en_MaxSteps e)")
    case True
    have rest: "triple (\<lambda>_. \<forall>out. r = Inl out \<longrightarrow> result_within (r_ModelConfig run) out)
        (case r of Inl out \<Rightarrow> ret out | Inr lv' \<Rightarrow> react_loop e task run start (add64 k 1) lv')
        (\<lambda>out _. result_within (r_ModelConfig run) out)" for r
      using 1 [OF True] by (cases r) (auto simp: triple_def)
    show ?thesis unfolding react_loop_more [OF True] by (rule triple_bind [OF react_step_within rest])
  next
    case False
    show ?thesis
      unfolding react_loop_done [OF False]
      by (auto simp: triple_def max_steps_reached_def result_within_def run_result_def split: prod.split)
  qed
qed


text \<open>The sample run, evaluated: one step, a final answer, two steps stored.\<close>

lemma sample_policy: "Validate sample_env ''hi'' (LoadFromEnv sample_env) = None"
proof -
  have "TrimSpace [] = []" by code_simp
  then show ?thesis
    by (simp add: Validate_def LoadFromEnv_def sample_env_def sample_runes DefaultMaxChars_def)
qed

definition budget_run :: Run where
  "budget_run = sample_run\<lparr>r_ModelConfig := Some \<lparr>mc_ModelID = ''m'', mc_Temperature = 0, mc_MaxTokens = 100,
     mc_PolicyMode = [], mc_CostCapUSD = 0, mc_FallbackModelIDs = []\<rparr>\<rparr>"

lemma sample_outcome:
  "fst (run_state (Execute sample_engine sample_task budget_run) sample_state) =
     Inr \<lparr>rr_Status = RunStatusSucceeded, rr_LastStep = 1, rr_ErrorMessage = [], rr_TotalTokens = 0, rr_TotalCostUSD = 0\<rparr>"
proof -
  have f0: "f64_add 0 0 = 0" by (simp add: f64_add_def f64_def)
  have more: "(0::int) < add64 0 3" by (simp add: add64_def wrap64_def)
  show ?thesis
    by (simp add: Execute_def sample_engine_def sample_task_def sample_policy budget_run_def sample_run_def
        restore_phase_def react_loop_more more react_step_def check_abort_def run_store_read run_store_call Let_def
        memory_store_def IsAbortRequested_def sample_state_def check_context_def llm_phase_def task_event_def pushEvent_def
        call_llm_def sample_llm_def usage_phase_def EstimateUsageCostUSD_def f0 checkBudgetExceeded_def fill_call_ids_def
        checkpoint_phase_def run_art_call Save_def sample_json_def memory_artifacts_def Blob_Put_def sample_lib_def
        SnapshotWorkspace_def sample_ws_def write_phase_def externalizeLargeStepFields_def externalizeStepField_def
        maxInlineStepFieldBytes_def tool_output_def PutStep_def NewMemoryStore_def gm_has_def UpdateLastStepIndex_def
        AddRunUsage_def runKey_def finish_phase_def run_result_def add64_def wrap64_def append_message_def)
qed


section \<open>Whom events reach\<close>

text \<open>
  Every connection identifier belongs to one tenant and one task; the stored connections
  agree with that, and the other clients only register connections that do.
\<close>

definition conns_owned :: "(string \<Rightarrow> string \<times> string) \<Rightarrow> MemoryStore \<Rightarrow> bool" where
  "conns_owned owner s \<longleftrightarrow>
     list_all (\<lambda>(cid, c). owner (c_ConnectionID c) = (c_TenantID c, c_TaskID c)) (db_connections s)"

fun keeps_owner :: "(string \<Rightarrow> string \<times> string) \<Rightarrow> StoreOp \<Rightarrow> bool" where
  "keeps_owner owner (OpPutConnection c) = (owner (c_ConnectionID c) = (c_TenantID c, c_TaskID c))"
| "keeps_owner owner _ = True"

lemma set_gm_put_sub: "set (gm_put k v m) \<subseteq> insert (k, v) (set m)"
  by (induction m) auto

lemma owned_step: "conns_owned owner s \<Longrightarrow> keeps_owner owner op \<Longrightarrow> conns_owned owner (apply_op op s)"
  by (cases op)
    (auto simp: conns_owned_def list_all_iff store_op_defs Let_def set_gm_del
      split: option.splits dest!: set_gm_put_sub [THEN subsetD])

interpretation owned: machine apply_op "conns_owned owner" "keeps_owner owner" for owner
  by unfold_locales (rule owned_step)

definition reaches_owner :: "(string \<Rightarrow> string \<times> string) \<Rightarrow> Task \<Rightarrow> Run \<Rightarrow> string \<times> StreamEvent \<Rightarrow> bool" where
  "reaches_owner owner task run p \<longleftrightarrow>
     owner (fst p) = (t_TenantID task, t_TaskID task) \<and> e_TaskID (snd p) = t_TaskID task \<and> e_RunID (snd p) = r_RunID run"

definition tame :: "(string \<Rightarrow> string \<times> string) \<Rightarrow> (nat \<Rightarrow> StoreOp list) \<Rightarrow> Task \<Rightarrow> bool" where
  "tame owner ops task \<longleftrightarrow> (\<forall>i. list_all (keeps_owner owner) (ops i)) \<and> t_TenantID task \<noteq> []"

interpretation delivery: push_invariant "local_engine e ops" "t_TenantID task" "t_TaskID task" "r_RunID run"
    "\<lambda>c. tame owner ops task \<longrightarrow> owner (c_ConnectionID c) = (t_TenantID task, t_TaskID task)"
    "\<lambda>st. tame owner ops task \<longrightarrow> conns_owned owner (es_store st) \<and> list_all (reaches_owner owner task run) (es_pushed st)"
  for owner
proof (unfold_locales, goal_cases)
  case (8 st cs c)
  show ?case
  proof
    assume tame: "tame owner ops task"
    obtain a where c: "(a, c) \<in> set (db_connections (es_store st))" "c_TaskID c = t_TaskID task"
      using 8(2,3) by (auto simp: local_engine_def memory_store_def GetConnectionsByTask_def)
    have "list_all (\<lambda>(cid, c). owner (c_ConnectionID c) = (c_TenantID c, c_TaskID c)) (db_connections (es_store st))"
      using 8(1) tame by (simp add: conns_owned_def)
    then have "owner (c_ConnectionID c) = (c_TenantID c, c_TaskID c)"
      using c(1) unfolding list_all_iff by blast
    then show "owner (c_ConnectionID c) = (t_TenantID task, t_TaskID task)" using c(2) 8(4) tame by (simp add: tame_def)
  qed
qed (auto simp: local_engine_simps run_ops_def tame_def reaches_owner_def simp del: apply_op.simps
      intro: owned.inv_run owned_step)

interpretation delivery: engine_invariant "local_engine e ops" task run
    "\<lambda>st. tame owner ops task \<longrightarrow> conns_owned owner (es_store st) \<and> list_all (reaches_owner owner task run) (es_pushed st)"
  for owner
proof (unfold_locales, goal_cases)
  case (6 ty data)
  show ?case by (rule delivery.keeps_pushEvent)
qed (auto simp: local_engine_simps run_ops_def tame_def simp del: apply_op.simps intro: owned.inv_run owned_step)

text \<open>
  C29. Events stay within the tenant: every event that a run pushes goes to a connection of
  the run's own tenant and task, and carries the run's own identifiers, while other clients
  register and drop connections at will.
\<close>

theorem events_isolated:
  assumes "conns_owned owner (es_store st)" and "\<forall>i. list_all (keeps_owner owner) (ops i)"
    and "t_TenantID task \<noteq> []" and "es_pushed st = []"
    and "run_state (Execute (local_engine e ops) task run) st = (out, st')"
  shows "\<forall>(cid, ev) \<in> set (es_pushed st').
     owner cid = (t_TenantID task, t_TaskID task) \<and> e_TaskID ev = t_TaskID task \<and> e_RunID ev = r_RunID run"
proof -
  have "tame owner ops task" using assms(2,3) by (simp add: tame_def)
  moreover have "tame owner ops task \<longrightarrow> conns_owned owner (es_store st) \<and> list_all (reaches_owner owner task run) (es_pushed st)"
    using assms(1,4) by simp
  ultimately have "list_all (reaches_owner owner task run) (es_pushed st')"
    using keepsD [OF delivery.keeps_Execute [where owner = owner and ops = ops and task = task and e = e and run = run], of st] assms(5) by simp
  then show ?thesis by (auto simp: list_all_iff reaches_owner_def)
qed

text \<open>A run with a pusher, two connections of its own task and one of another tenant.\<close>

definition sample_conn :: "string \<Rightarrow> string \<Rightarrow> Connection" where
  "sample_conn cid tenant =
     \<lparr>c_ConnectionID = cid, c_TenantID = tenant, c_UserID = ''u'', c_TaskID = ''t1'', c_RunID = ''r1'', c_ConnectedAt = 0, c_TTL = 0\<rparr>"

definition listened_state :: "(MemoryStore, blobs, unit) EngineState" where
  "listened_state = sample_state\<lparr>es_store := (es_store sample_state)\<lparr>db_connections :=
     [(''c1'', sample_conn ''c1'' ''acme''), (''c2'', sample_conn ''c2'' ''evil'')]\<rparr>\<rparr>"

definition sample_owner :: "string \<Rightarrow> string \<times> string" where
  "sample_owner cid = (if cid = ''c2'' then ''evil'' else ''acme'', ''t1'')"

theorem events_isolated_witness:
  "''c2'' \<notin> fst ` set (es_pushed (snd (run_state (Execute
       (local_engine (sample_engine\<lparr>en_pusher := Some (\<lambda>_ _ _. (True, None)), en_dispatched := (\<lambda>_. 16)\<rparr>) (\<lambda>_. []))
       sample_task sample_run) listened_state)))"
  (is "_ \<notin> fst ` set (es_pushed (snd (run_state (Execute (local_engine ?e _) _ _) _)))")
proof -
  obtain out st' where run: "run_state (Execute (local_engine ?e (\<lambda>_. [])) sample_task sample_run) listened_state = (out, st')"
    by fastforce
  have "\<forall>(cid, ev) \<in> set (es_pushed st').
      sample_owner cid = (''acme'', ''t1'') \<and> e_TaskID ev = ''t1'' \<and> e_RunID ev = ''r1''"
    using events_isolated [OF _ _ _ _ run, of sample_owner]
    by (simp add: conns_owned_def listened_state_def sample_state_def sample_conn_def sample_owner_def sample_task_def
        sample_run_def)
  then show ?thesis using run by (auto simp: sample_owner_def)
qed

end
