(* ===== verification/CheckpointProps.thy ===== *)
theory CheckpointProps
  imports EngineProps
begin

text \<open>
  Checkpoints: what is saved comes back, what was tampered with is refused, the objects of
  different steps never overwrite each other, and a run that succeeds leaves a checkpoint that
  can be restored at each of its steps.
\<close>

section \<open>The artifact store\<close>

text \<open>
  What snapshots rely on, for a store that reads back what it wrote: a successful \<open>Put\<close> files
  the bytes under the key and reports their digest and size; a failed one leaves the contents.
\<close>

locale artifact_store =
  fixes A :: "'a ArtStore" and L :: golib and contents :: "'a \<Rightarrow> string \<Rightarrow> string option"
  assumes put_ok:
      "Art_Put A a key (Inr data) = (a', Inr (sha, n))
       \<Longrightarrow> contents a' = (contents a)(key \<mapsto> data) \<and> sha = sha256hex L data \<and> n = int (length data)"
    and put_err: "Art_Put A a key r = (a', Inl err) \<Longrightarrow> contents a' = contents a"
    and put_unread: "Art_Put A a key (Inl msg) = (a', res) \<Longrightarrow> \<exists>err. res = Inl err"
    and get_ok: "contents a key = Some data \<Longrightarrow> Art_Get A a key = Inr (Inr data)"
    and get_sound: "Art_Get A a key = Inr (Inr data) \<Longrightarrow> contents a key = Some data"
begin

definition stored_ref :: "'a \<Rightarrow> ArtifactRef \<Rightarrow> string \<Rightarrow> bool" where
  "stored_ref a ref data \<longleftrightarrow>
     contents a (ar_S3Key ref) = Some data \<and> ar_SHA256 ref = sha256hex L data \<and> ar_Size ref = int (length data)"

lemma stored_intact: "stored_ref a ref data \<Longrightarrow> integrity_error L label ref data = None"
  by (simp add: stored_ref_def integrity_error_def)

lemma Save_stored:
  assumes "Save L J A a t u snap = (a', Inr ref)"
  obtains data where "json_print J (snapshot_json snap) = Inr data" and "stored_ref a' ref (lib_gzip L data)"
    and "ar_S3Key ref = S3Key t u (ms_RunID snap) (ms_StepIndex snap)"
    and "contents a' = (contents a)(ar_S3Key ref \<mapsto> lib_gzip L data)"
proof -
  obtain data where data: "json_print J (snapshot_json snap) = Inr data"
    using assms by (cases "json_print J (snapshot_json snap)") (auto simp: Save_def)
  obtain sha n where put: "Art_Put A a (S3Key t u (ms_RunID snap) (ms_StepIndex snap)) (Inr (lib_gzip L data)) = (a', Inr (sha, n))"
    and ref: "ref = \<lparr>ar_S3Key = S3Key t u (ms_RunID snap) (ms_StepIndex snap), ar_SHA256 = sha, ar_Size = n\<rparr>"
    using assms by (auto simp: Save_def data Let_def split: prod.splits sum.splits)
  note c = put_ok [OF put]
  show thesis by (rule that [OF data]) (use c in \<open>simp_all add: ref stored_ref_def\<close>)
qed

lemma Load_stored:
  assumes "stored_ref a ref (lib_gzip L data)" and "lib_gzip_reader L (lib_gzip L data) = Inr (Inr data)"
    and "lib_unmarshal_snapshot L data = Inr snap"
  shows "Load L A a ref = Inr snap"
  using get_ok [of a "ar_S3Key ref" "lib_gzip L data"] assms stored_intact [OF assms(1)]
  by (simp add: Load_def stored_ref_def)

lemma Snapshot_stored:
  assumes "SnapshotWorkspace W w A a t u r i = (a', Inr ref)"
  obtains data where "stored_ref a' ref data" and "ar_S3Key ref = WorkspaceS3Key t u r i"
    and "contents a' = (contents a)(ar_S3Key ref \<mapsto> data)"
proof -
  obtain rc where rc: "Ws_Snapshot W w = Inr rc" using assms by (auto simp: SnapshotWorkspace_def split: sum.splits)
  obtain sha n where put: "Art_Put A a (WorkspaceS3Key t u r i) rc = (a', Inr (sha, n))"
    and ref: "ref = \<lparr>ar_S3Key = WorkspaceS3Key t u r i, ar_SHA256 = sha, ar_Size = n\<rparr>"
    using assms by (auto simp: SnapshotWorkspace_def rc Let_def split: prod.splits sum.splits)
  obtain data where data: "rc = Inr data" using put_unread put by (cases rc) blast+
  note c = put_ok [OF put [unfolded data]]
  show thesis by (rule that [of data]) (use c in \<open>simp_all add: ref stored_ref_def\<close>)
qed

text \<open>Anything else under the key than what the reference describes is refused.\<close>

lemma Load_tampered:
  assumes "contents a (ar_S3Key ref) = Some raw"
    and "(0 < ar_Size ref \<and> int (length raw) \<noteq> ar_Size ref) \<or> (ar_SHA256 ref \<noteq> [] \<and> sha256hex L raw \<noteq> ar_SHA256 ref)"
  shows "\<exists>d. Load L A a ref = Inl (SnapIntegrity d)"
  using get_ok [OF assms(1)] assms(2) by (auto simp: Load_def integrity_error_def)

lemma Restore_tampered:
  assumes "contents a (ar_S3Key ref) = Some raw"
    and "(0 < ar_Size ref \<and> int (length raw) \<noteq> ar_Size ref) \<or> (ar_SHA256 ref \<noteq> [] \<and> sha256hex L raw \<noteq> ar_SHA256 ref)"
  shows "\<exists>d. RestoreWorkspace L W w A a ref = (w, Some (WsSnapIntegrity d))"
  using get_ok [OF assms(1)] assms(2) by (auto simp: RestoreWorkspace_def integrity_error_def)

end

interpretation blob: artifact_store "memory_artifacts L" L "gm_get"
  by unfold_locales
    (auto simp: memory_artifacts_def Blob_Put_def Blob_Get_def gomap_simps split: sum.splits option.splits)

text \<open>
  C27. A memory snapshot comes back as it was saved: after any later writes to other objects,
  loading through the reference that \<open>Save\<close> returned gives the snapshot, and both integrity
  checks pass. The hypotheses are the round trips of gzip and of JSON on this snapshot.
\<close>

theorem snapshot_roundtrip:
  assumes "Save L J (memory_artifacts L) a tenantID taskID snap = (a1, Inr ref)"
    and "gm_get a2 (S3Key tenantID taskID (ms_RunID snap) (ms_StepIndex snap))
       = gm_get a1 (S3Key tenantID taskID (ms_RunID snap) (ms_StepIndex snap))"
    and "\<forall>data. lib_gzip_reader L (lib_gzip L data) = Inr (Inr data)"
    and "\<forall>data. json_print J (snapshot_json snap) = Inr data \<longrightarrow> lib_unmarshal_snapshot L data = Inr snap"
  shows "Load L (memory_artifacts L) a2 ref = Inr snap"
proof -
  obtain data where d: "json_print J (snapshot_json snap) = Inr data" "blob.stored_ref L a1 ref (lib_gzip L data)"
    "ar_S3Key ref = S3Key tenantID taskID (ms_RunID snap) (ms_StepIndex snap)"
    by (rule blob.Save_stored [OF assms(1)]) assumption
  from d(2) have "blob.stored_ref L a2 ref (lib_gzip L data)" unfolding blob.stored_ref_def d(3) using assms(2) by simp
  then show ?thesis
  proof (rule blob.Load_stored)
    show "lib_gzip_reader L (lib_gzip L data) = Inr (Inr data)" using assms(3) by (rule spec)
    show "lib_unmarshal_snapshot L data = Inr snap" using assms(4) d(1) by simp
  qed
qed

definition tiny_snapshot :: MemorySnapshot where
  "tiny_snapshot =
     \<lparr>ms_RunID = ''r1'', ms_StepIndex = 3, ms_Messages =
        [\<lparr>mm_Role = MessageRoleUser, mm_Content = ''hi'', mm_ToolCallID = [], mm_ToolCalls = []\<rparr>],
      ms_Scratchpad = [], ms_ToolState = []\<rparr>"

theorem snapshot_roundtrip_witness:
  "\<exists>a1 ref. Save (sample_lib\<lparr>lib_unmarshal_snapshot := (\<lambda>_. Inr tiny_snapshot)\<rparr>) sample_json
       (memory_artifacts (sample_lib\<lparr>lib_unmarshal_snapshot := (\<lambda>_. Inr tiny_snapshot)\<rparr>)) [] ''acme'' ''t1'' tiny_snapshot = (a1, Inr ref)
     \<and> Load (sample_lib\<lparr>lib_unmarshal_snapshot := (\<lambda>_. Inr tiny_snapshot)\<rparr>)
         (memory_artifacts (sample_lib\<lparr>lib_unmarshal_snapshot := (\<lambda>_. Inr tiny_snapshot)\<rparr>))
         (gm_put ''exports/x'' ''y'' a1) ref = Inr tiny_snapshot"
  (is "\<exists>a1 ref. Save ?L _ _ _ _ _ _ = _ \<and> _")
proof -
  obtain a1 ref where save: "Save ?L sample_json (memory_artifacts ?L) [] ''acme'' ''t1'' tiny_snapshot = (a1, Inr ref)"
    by (simp add: Save_def sample_json_def memory_artifacts_def Blob_Put_def Let_def)
  show ?thesis
    using save snapshot_roundtrip [OF save, of "gm_put ''exports/x'' ''y'' a1"]
    by (auto simp: gomap_simps S3Key_def sample_lib_def)
qed

text \<open>
  C28. A checkpoint that was tampered with is refused: when the object under a reference has
  not the recorded size or digest, restoring the memory fails with the integrity error, and
  restoring the workspace does so without touching the workspace.
\<close>

theorem tampered_checkpoint_refused:
  assumes "gm_get a (ar_S3Key ref) = Some raw"
    and "(0 < ar_Size ref \<and> int (length raw) \<noteq> ar_Size ref) \<or> (ar_SHA256 ref \<noteq> [] \<and> sha256hex L raw \<noteq> ar_SHA256 ref)"
  shows "(\<exists>d. Load L (memory_artifacts L) a ref = Inl (SnapIntegrity d))
     \<and> (\<exists>d. RestoreWorkspace L W w (memory_artifacts L) a ref = (w, Some (WsSnapIntegrity d)))"
  using assms by (intro conjI blob.Load_tampered blob.Restore_tampered)

theorem tampered_checkpoint_refused_witness:
  "(\<exists>d. Load sample_lib (memory_artifacts sample_lib) [(''k'', ''abc'')]
      \<lparr>ar_S3Key = ''k'', ar_SHA256 = ''07'', ar_Size = 2\<rparr> = Inl (SnapIntegrity d))"
  using tampered_checkpoint_refused [of "[(''k'', ''abc'')]" "\<lparr>ar_S3Key = ''k'', ar_SHA256 = ''07'', ar_Size = 2\<rparr>" "''abc''" sample_lib
      sample_ws "()"] by simp

section \<open>Checkpoints of a run\<close>

lemma underscore_notin: "CHR ''_'' \<notin> set (fmt_08d i)"
proof -
  have "is_digit c \<Longrightarrow> c \<noteq> CHR ''_''" for c by (auto simp: is_digit_def)
  then have "CHR ''_'' \<notin> set (dec_nat n)" for n using dec_nat_digits [of n] by (auto simp: list_all_iff)
  then show ?thesis by (simp add: fmt_08d_def)
qed

lemma step_suffix_inj:
  assumes "a @ CHR ''_'' # fmt_08d i @ s = b @ CHR ''_'' # fmt_08d j @ s" and "CHR ''_'' \<notin> set s"
  shows "i = j"
proof -
  have "a = b \<and> fmt_08d i @ s = fmt_08d j @ s"
    by (rule join_last_sep [OF assms(1)]) (use assms(2) underscore_notin in simp_all)
  then show ?thesis by (simp add: fmt_08d_inj)
qed

text \<open>Objects of different steps, and of different kinds, have different keys.\<close>

lemma checkpoint_keys:
  "S3Key t u r i = S3Key t' u' r' j \<Longrightarrow> i = j"
  "WorkspaceS3Key t u r i = WorkspaceS3Key t' u' r' j \<Longrightarrow> i = j"
  "S3Key t u r i \<noteq> WorkspaceS3Key t' u' r' j"
  "S3Key t u r i \<noteq> StepFieldS3Key t' u' r' j f"
  "WorkspaceS3Key t u r i \<noteq> StepFieldS3Key t' u' r' j f"
proof -
  show "S3Key t u r i = S3Key t' u' r' j \<Longrightarrow> i = j"
    using step_suffix_inj [of "''memory/'' @ t @ ''/'' @ u @ ''/'' @ r @ ''/step''" i "''.json.gz''"
        "''memory/'' @ t' @ ''/'' @ u' @ ''/'' @ r' @ ''/step''" j] by (simp add: S3Key_def)
  show "WorkspaceS3Key t u r i = WorkspaceS3Key t' u' r' j \<Longrightarrow> i = j"
    using step_suffix_inj [of "''workspaces/'' @ t @ ''/'' @ u @ ''/'' @ r @ ''/step''" i "''.tar.gz''"
        "''workspaces/'' @ t' @ ''/'' @ u' @ ''/'' @ r' @ ''/step''" j] by (simp add: WorkspaceS3Key_def)
qed (simp_all add: S3Key_def WorkspaceS3Key_def StepFieldS3Key_def)

text \<open>The tools leave the engine's own objects alone.\<close>

definition tools_spare :: "(blobs, 'w) registry \<Rightarrow> bool" where
  "tools_spare reg \<longleftrightarrow>
     (\<forall>name tool i a w args a' w' res key.
        Registry_Get reg name = Some tool \<longrightarrow> tl_Execute tool i (a, w) args = ((a', w'), res)
        \<longrightarrow> prefix ''memory/'' key \<or> prefix ''workspaces/'' key \<longrightarrow> gm_get a' key = gm_get a key)"

text \<open>
  A checkpoint that can be restored, written for step \<open>j\<close>: the memory object is the encoding of
  a snapshot of that step, and the workspace archive is there; both pass their integrity checks.
\<close>

definition ckpt_ok :: "golib \<Rightarrow> jsonlib \<Rightarrow> blobs \<Rightarrow> int64 \<Rightarrow> CheckpointRef \<Rightarrow> bool" where
  "ckpt_ok L J a j ref \<longleftrightarrow>
     (\<exists>m w snap data arch t u r.
        ref = \<lparr>cr_Memory = Some m, cr_Workspace = Some w\<rparr>
        \<and> ms_StepIndex snap = j \<and> json_print J (snapshot_json snap) = Inr data
        \<and> blob.stored_ref L a m (lib_gzip L data) \<and> blob.stored_ref L a w arch
        \<and> ar_S3Key m = S3Key t u (ms_RunID snap) j \<and> ar_S3Key w = WorkspaceS3Key t u r j)"

lemma ckpt_okI:
  assumes "json_print J (snapshot_json snap) = Inr data" and "blob.stored_ref L a m (lib_gzip L data)" and "blob.stored_ref L a w arch"
    and "ar_S3Key m = S3Key t u (ms_RunID snap) (ms_StepIndex snap)" and "ar_S3Key w = WorkspaceS3Key t u r (ms_StepIndex snap)"
  shows "ckpt_ok L J a (ms_StepIndex snap) \<lparr>cr_Memory = Some m, cr_Workspace = Some w\<rparr>"
  unfolding ckpt_ok_def using assms by blast

definition same_ckpts :: "int64 \<Rightarrow> blobs \<Rightarrow> blobs \<Rightarrow> bool" where
  "same_ckpts j a a' \<longleftrightarrow>
     (\<forall>t u r. gm_get a' (S3Key t u r j) = gm_get a (S3Key t u r j)
        \<and> gm_get a' (WorkspaceS3Key t u r j) = gm_get a (WorkspaceS3Key t u r j))"

lemma ckpt_ok_kept: "ckpt_ok L J a j ref \<Longrightarrow> same_ckpts j a a' \<Longrightarrow> ckpt_ok L J a' j ref"
  unfolding ckpt_ok_def blob.stored_ref_def same_ckpts_def by metis

section \<open>A run leaves restorable steps\<close>

text \<open>
  The state of the loop before step \<open>k\<close>: steps \<open>start\<close> to \<open>k - 1\<close> are stored with their
  checkpoints, later ones are not stored yet, and the reference the loop holds, if any, is good.
\<close>

definition ckpts_upto ::
  "golib \<Rightarrow> jsonlib \<Rightarrow> string \<Rightarrow> int64 \<Rightarrow> int64 \<Rightarrow> CheckpointRef option \<Rightarrow> MemoryStore \<Rightarrow> blobs \<Rightarrow> bool" where
  "ckpts_upto L J runID start k held s a \<longleftrightarrow>
     (\<forall>i. start \<le> i \<and> i < k \<longrightarrow>
        (\<exists>z ref j. step_view s (stepKey runID i) = Some z \<and> s_CheckpointRef z = Some ref \<and> j \<le> i \<and> ckpt_ok L J a j ref))
     \<and> (\<forall>i. k \<le> i \<longrightarrow> step_view s (stepKey runID i) = None)
     \<and> (\<forall>ref. held = Some ref \<longrightarrow> (\<exists>j. j \<le> k \<and> ckpt_ok L J a j ref))"

text \<open>What is asked of the surroundings: nobody else writes steps of the run or engine objects.\<close>

definition ckpt_env :: "(MemoryStore, blobs, 'w) Engine \<Rightarrow> (nat \<Rightarrow> StoreOp list) \<Rightarrow> Run \<Rightarrow> bool" where
  "ckpt_env e ops run \<longleftrightarrow>
     (\<forall>i. list_all (leaves_steps (r_RunID run)) (ops i)) \<and> tools_spare (en_tools e)
     \<and> en_artifacts e = memory_artifacts (en_lib e)"

definition ckpt_inv ::
  "(MemoryStore, blobs, 'w) Engine \<Rightarrow> (nat \<Rightarrow> StoreOp list) \<Rightarrow> Run \<Rightarrow> int64 \<Rightarrow> int64 \<Rightarrow> CheckpointRef option
   \<Rightarrow> (MemoryStore, blobs, 'w) EngineState \<Rightarrow> bool" where
  "ckpt_inv e ops run start k held st \<longleftrightarrow>
     store_wf (es_store st)
     \<and> (ckpt_env e ops run \<longrightarrow> ckpts_upto (en_lib e) (en_json e) (r_RunID run) start k held (es_store st) (es_art st))"

text \<open>Stored steps stay, and only the run's own calls add to them.\<close>

lemma step_stays: "step_view s k = Some z \<Longrightarrow> store_extends s s' \<Longrightarrow> step_view s' k = Some z"
  by (auto simp: store_extends_def step_view_def dest: gm_growsD)

lemma ckpts_store:
  assumes "ckpts_upto L J runID start k held s a" and "store_extends s s'"
    and "\<And>i. step_view s (stepKey runID i) = None \<Longrightarrow> step_view s' (stepKey runID i) = None"
  shows "ckpts_upto L J runID start k held s' a"
  using assms(1,3) step_stays [OF _ assms(2)] unfolding ckpts_upto_def by meson

lemma ckpts_art:
  assumes "ckpts_upto L J runID start k held s a" and "\<And>j. j < k \<or> held \<noteq> None \<Longrightarrow> same_ckpts j a a'"
  shows "ckpts_upto L J runID start k held s a'"
proof -
  have "ckpt_ok L J a j ref \<Longrightarrow> j \<le> i \<Longrightarrow> i < k \<Longrightarrow> ckpt_ok L J a' j ref" for i j ref
    using assms(2) [of j] ckpt_ok_kept by simp
  moreover have "ckpt_ok L J a j ref \<Longrightarrow> held = Some r \<Longrightarrow> ckpt_ok L J a' j ref" for j ref r
    using assms(2) [of j] ckpt_ok_kept by simp
  ultimately show ?thesis using assms(1) unfolding ckpts_upto_def by (cases held) (simp_all, meson+)
qed

lemma ckpts_drop: "ckpts_upto L J runID start k held s a \<Longrightarrow> ckpts_upto L J runID start k None s a"
  by (simp add: ckpts_upto_def)

lemma inv_op:
  assumes "ckpt_inv e ops run start k held st" and "leaves_steps (r_RunID run) op"
  shows "ckpt_inv e ops run start k held (st\<lparr>es_store := apply_op op (es_store st)\<rparr>)"
proof -
  have "store_extends (es_store st) (apply_op op (es_store st))"
    by (rule extends_apply_op)
  then show ?thesis
    using assms by (auto simp: ckpt_inv_def wf_apply_op simp del: apply_op.simps
      intro: ckpts_store leaves_steps_step)
qed

lemma inv_clients:
  assumes "ckpt_inv e ops run start k held st"
  shows "ckpt_inv e ops run start k held (st\<lparr>es_store := run_ops (ops i) (es_store st)\<rparr>)"
proof -
  have wf: "store_wf (es_store st)" using assms by (simp add: ckpt_inv_def)
  show ?thesis
    using assms run_ops_extends [OF wf, of "ops i"] run_ops_wf [OF wf]
    by (auto simp: ckpt_inv_def ckpt_env_def run_ops_def intro: ckpts_store steps_left.inv_run)
qed

lemma inv_art:
  assumes "ckpt_inv e ops run start k held st" and "\<And>j. ckpt_env e ops run \<Longrightarrow> same_ckpts j (es_art st) a"
  shows "ckpt_inv e ops run start k held (st\<lparr>es_art := a\<rparr>)"
  using assms by (auto simp: ckpt_inv_def intro: ckpts_art)

lemma inv_tools:
  assumes "ckpt_inv e ops run start k held st" and "Registry_Get (en_tools e) name = Some tool"
    and "tl_Execute tool i (es_art st, es_ws st) args = ((a, w), res)"
  shows "ckpt_inv e ops run start k held (st\<lparr>es_art := a\<rparr>)"
proof (rule inv_art [OF assms(1)])
  fix j
  assume env: "ckpt_env e ops run"
  have "prefix ''memory/'' (S3Key t u r j)" "prefix ''workspaces/'' (WorkspaceS3Key t u r j)" for t u r
    by (simp_all add: S3Key_def WorkspaceS3Key_def)
  then show "same_ckpts j (es_art st) a"
    using env assms(2,3) unfolding ckpt_env_def tools_spare_def same_ckpts_def by blast
qed

lemma inv_frame [simp]:
  "ckpt_inv e ops run start k held (st\<lparr>es_tick := n\<rparr>) = ckpt_inv e ops run start k held st"
  "ckpt_inv e ops run start k held (st\<lparr>es_metrics := m\<rparr>) = ckpt_inv e ops run start k held st"
  "ckpt_inv e ops run start k held (st\<lparr>es_eventSeq := q\<rparr>) = ckpt_inv e ops run start k held st"
  "ckpt_inv e ops run start k held (st\<lparr>es_pushed := ps\<rparr>) = ckpt_inv e ops run start k held st"
  "ckpt_inv e ops run start k held (st\<lparr>es_requests := qs\<rparr>) = ckpt_inv e ops run start k held st"
  "ckpt_inv e ops run start k held (st\<lparr>es_ws := w\<rparr>) = ckpt_inv e ops run start k held st"
  by (simp_all add: ckpt_inv_def)

interpretation ckpt_pushes: push_invariant "local_engine e ops" tenantID taskID runID "\<lambda>_. True" "ckpt_inv e ops run start k held"
  for tenantID taskID runID run start k held
  by unfold_locales
    (auto simp: local_engine_def engine_calls inv_op inv_clients dest: memory_event simp del: apply_op.simps)

interpretation ckpt_run: engine_requests "local_engine e ops" task run "ckpt_inv e ops run start k held" for start k held
proof (unfold_locales, goal_cases)
  case (6 ty data)
  show ?case by (rule ckpt_pushes.keeps_pushEvent)
qed (auto simp: local_engine_def engine_calls inv_op inv_clients intro: inv_tools simp del: apply_op.simps)

section \<open>The phases that write\<close>

interpretation anything: engine_writes e task run "\<lambda>_. True"
  by unfold_locales (simp_all add: triple_def)

lemma checkpoint_taken:
  assumes "ckpt_inv e ops run start k None st"
    and "run_state (checkpoint_phase (local_engine e ops) task run k lv) st = (Inr (ref, lv'), st')"
  shows "ckpt_inv e ops run start k (Some ref) st'"
proof -
  let ?mem = "(lv_mem lv)\<lparr>ms_StepIndex := k\<rparr>"
  obtain a1 m where save: "Save (en_lib e) (en_json e) (en_artifacts e) (es_art st) (t_TenantID task) (t_TaskID task) ?mem = (a1, Inr m)"
    using assms(2) by (auto simp: checkpoint_phase_def run_art_call Let_def local_engine_def fail_run_def split: prod.splits sum.splits)
  obtain a2 w where snap: "SnapshotWorkspace (en_ws e) (es_ws st) (en_artifacts e) a1 (t_TenantID task) (t_TaskID task) (r_RunID run) k = (a2, Inr w)"
    and ref: "ref = \<lparr>cr_Memory = Some m, cr_Workspace = Some w\<rparr>" and st': "st' = st\<lparr>es_art := a2\<rparr>"
    using assms(2) save by (auto simp: checkpoint_phase_def run_art_call Let_def local_engine_def fail_run_def split: prod.splits sum.splits)
  have "ckpts_upto (en_lib e) (en_json e) (r_RunID run) start k (Some ref) (es_store st) a2" if env: "ckpt_env e ops run"
  proof -
    have art: "en_artifacts e = memory_artifacts (en_lib e)" using env by (simp add: ckpt_env_def)
    obtain data where d: "json_print (en_json e) (snapshot_json ?mem) = Inr data" "blob.stored_ref (en_lib e) a1 m (lib_gzip (en_lib e) data)"
      "ar_S3Key m = S3Key (t_TenantID task) (t_TaskID task) (ms_RunID ?mem) (ms_StepIndex ?mem)"
      "gm_get a1 = (gm_get (es_art st))(ar_S3Key m \<mapsto> lib_gzip (en_lib e) data)"
      by (rule blob.Save_stored [OF save [unfolded art]]) assumption
    obtain arch where w: "blob.stored_ref (en_lib e) a2 w arch" "ar_S3Key w = WorkspaceS3Key (t_TenantID task) (t_TaskID task) (r_RunID run) k"
      "gm_get a2 = (gm_get a1)(ar_S3Key w \<mapsto> arch)"
      by (rule blob.Snapshot_stored [OF snap [unfolded art]]) assumption
    have "blob.stored_ref (en_lib e) a2 m (lib_gzip (en_lib e) data)"
      using d(2) unfolding blob.stored_ref_def w(3) by (simp add: d(3) w(2) checkpoint_keys)
    then have "ckpt_ok (en_lib e) (en_json e) a2 (ms_StepIndex ?mem) ref"
      unfolding ref by (rule ckpt_okI [OF d(1) _ w(1) d(3)]) (simp add: w(2))
    then have ok: "ckpt_ok (en_lib e) (en_json e) a2 k ref" by simp
    have "same_ckpts j (es_art st) a2" if "j < k" for j
      using that unfolding same_ckpts_def w(3) d(4)
      by (auto simp: d(3) w(2) checkpoint_keys(3) checkpoint_keys(3) [symmetric] dest: checkpoint_keys(1,2))
    then have "ckpts_upto (en_lib e) (en_json e) (r_RunID run) start k None (es_store st) a2"
      using assms(1) env by (auto simp: ckpt_inv_def intro: ckpts_art)
    then show ?thesis using ok by (auto simp: ckpts_upto_def)
  qed
  then show ?thesis using assms(1) by (simp add: ckpt_inv_def st')
qed

lemma keeps_field: "keeps (ckpt_inv e ops run start k held) (externalizeStepField (local_engine e ops) t u r i field v)"
proof -
  have put: "ckpt_inv e ops run start k held (st\<lparr>es_art := a\<rparr>)"
    if "ckpt_inv e ops run start k held st" "Art_Put (en_artifacts e) (es_art st) (StepFieldS3Key t u r i field) (Inr v) = (a, res)" for st a res
  proof (rule inv_art [OF that(1)])
    fix j
    assume "ckpt_env e ops run"
    then have "Art_Put (memory_artifacts (en_lib e)) (es_art st) (StepFieldS3Key t u r i field) (Inr v) = (a, res)"
      using that(2) by (simp add: ckpt_env_def)
    then have "gm_get a = (gm_get (es_art st))(StepFieldS3Key t u r i field \<mapsto> v) \<or> gm_get a = gm_get (es_art st)"
      by (cases res) (auto dest: blob.put_err blob.put_ok)
    then show "same_ckpts j (es_art st) a" by (auto simp: same_ckpts_def checkpoint_keys)
  qed
  show ?thesis
    by (auto simp: triple_def externalizeStepField_def Let_def run_art_call local_engine_def put split: prod.split)
qed

lemma triple_field:
  "triple (ckpt_inv e ops run start k held) (externalizeLargeStepFields (local_engine e ops) t u r step)
     (\<lambda>res st. ckpt_inv e ops run start k held st
        \<and> (\<forall>step'. res = Inr step' \<longrightarrow> (\<exists>i o'. step' = step\<lparr>s_Input := i, s_Output := o'\<rparr>)))"
proof -
  have "keeps (ckpt_inv e ops run start k held) (externalizeLargeStepFields (local_engine e ops) t u r step)"
    unfolding externalizeLargeStepFields_def by (intro keeps_rules keeps_field)
  from triple_conj [OF this anything.triple_externalize] show ?thesis by simp
qed

lemma ckpts_put:
  assumes "ckpts_upto L J runID start k (Some ref) s a" and "s_CheckpointRef z = Some ref"
    and "step_view s' = (step_view s)(stepKey runID k \<mapsto> z)"
  shows "ckpts_upto L J runID start (k + 1) (Some ref) s' a"
proof -
  obtain j where j: "j \<le> k" "ckpt_ok L J a j ref" using assms(1) by (auto simp: ckpts_upto_def)
  have "\<exists>z' ref' j'. step_view s' (stepKey runID i) = Some z' \<and> s_CheckpointRef z' = Some ref' \<and> j' \<le> i \<and> ckpt_ok L J a j' ref'"
    if i: "start \<le> i" "i < k + 1" for i
  proof (cases "i = k")
    case True
    then show ?thesis using j assms(2,3) by (intro exI [of _ z] exI [of _ ref] exI [of _ j]) simp
  next
    case False
    then have "i < k" using i by simp
    then obtain z' ref' j' where "step_view s (stepKey runID i) = Some z'" "s_CheckpointRef z' = Some ref'" "j' \<le> i" "ckpt_ok L J a j' ref'"
      using assms(1) i(1) unfolding ckpts_upto_def by blast
    then show ?thesis using False assms(3) by (intro exI [of _ z'] exI [of _ ref'] exI [of _ j']) simp
  qed
  moreover have "step_view s' (stepKey runID i) = None" if "k + 1 \<le> i" for i
    using assms(1,3) that by (simp add: ckpts_upto_def)
  moreover have "\<exists>j. j \<le> k + 1 \<and> ckpt_ok L J a j ref" using j by (intro exI [of _ j]) simp
  ultimately show ?thesis unfolding ckpts_upto_def by simp
qed

lemma put_step_ckpt:
  assumes "s_RunID z = r_RunID run" and "s_StepIndex z = k" and "s_CheckpointRef z = Some ref"
  shows "triple (ckpt_inv e ops run start k (Some ref)) (store_call (local_engine e ops) (\<lambda>s. Store_PutStep (en_store (local_engine e ops)) s z))
     (\<lambda>_. ckpt_inv e ops run start (k + 1) (Some ref))"
proof (rule tripleI)
  fix st r st'
  assume inv: "ckpt_inv e ops run start k (Some ref) st"
    and run: "run_state (store_call (local_engine e ops) (\<lambda>s. Store_PutStep (en_store (local_engine e ops)) s z)) st = (r, st')"
  let ?s = "run_ops (ops (es_tick st)) (es_store st)"
  have s: "ckpt_inv e ops run start k (Some ref) (st\<lparr>es_store := ?s\<rparr>)" using inv by (rule inv_clients)
  have st': "st' = st\<lparr>es_tick := Suc (es_tick st), es_store := apply_op (OpPutStep z) ?s\<rparr>"
    using run by (auto simp: run_store_call local_engine_def memory_store_def split: prod.splits)
  have wf: "store_wf (apply_op (OpPutStep z) ?s)" using s by (intro wf_apply_op) (simp add: ckpt_inv_def)
  have "ckpts_upto (en_lib e) (en_json e) (r_RunID run) start (k + 1) (Some ref) (apply_op (OpPutStep z) ?s) (es_art st)"
    if "ckpt_env e ops run"
  proof -
    have old: "ckpts_upto (en_lib e) (en_json e) (r_RunID run) start k (Some ref) ?s (es_art st)"
      using s that by (simp add: ckpt_inv_def)
    then have "step_view ?s (stepKey (r_RunID run) k) = None" by (simp add: ckpts_upto_def)
    then have "apply_op (OpPutStep z) ?s = ?s\<lparr>db_steps := gm_put (stepKey (r_RunID run) k) z (db_steps ?s)\<rparr>"
      using assms by (simp add: PutStep_def Let_def gm_has_def step_view_def)
    then have new: "step_view (apply_op (OpPutStep z) ?s) = (step_view ?s)(stepKey (r_RunID run) k \<mapsto> z)"
      by (simp del: apply_op.simps)
    show ?thesis by (rule ckpts_put [OF old assms(3) new])
  qed
  then show "ckpt_inv e ops run start (k + 1) (Some ref) st'" using wf by (simp add: st' ckpt_inv_def)
qed

lemma ckpt_put_externalized:
  assumes "s_RunID step = r_RunID run" and "s_StepIndex step = k" and "s_CheckpointRef step = Some ref"
    and "\<And>err. triple (ckpt_inv e ops run start k (Some ref)) (g err) Q"
    and "\<And>step'. s_RunID step' = r_RunID run \<Longrightarrow> s_StepIndex step' = k \<Longrightarrow> s_CheckpointRef step' = Some ref
           \<Longrightarrow> triple (ckpt_inv e ops run start k (Some ref)) (f step') Q"
  shows "triple (ckpt_inv e ops run start k (Some ref))
     (State_Monad.bind (externalizeLargeStepFields (local_engine e ops) t u r step)
        (\<lambda>x. case x of Inl err \<Rightarrow> g err | Inr step' \<Rightarrow> f step')) Q"
proof (rule triple_bind [OF triple_field])
  fix x :: "string + Step"
  show "triple (\<lambda>st. ckpt_inv e ops run start k (Some ref) st
        \<and> (\<forall>step'. x = Inr step' \<longrightarrow> (\<exists>i o'. step' = step\<lparr>s_Input := i, s_Output := o'\<rparr>)))
      (case x of Inl err \<Rightarrow> g err | Inr step' \<Rightarrow> f step') Q"
  proof (cases x)
    case (Inl err)
    then show ?thesis using assms(4) [of err] by (simp add: triple_def)
  next
    case (Inr step')
    show ?thesis
    proof (rule triple_fact)
      assume "\<forall>s'. x = Inr s' \<longrightarrow> (\<exists>i o'. s' = step\<lparr>s_Input := i, s_Output := o'\<rparr>)"
      then obtain i o' where "step' = step\<lparr>s_Input := i, s_Output := o'\<rparr>" using Inr by auto
      then have "triple (ckpt_inv e ops run start k (Some ref)) (f step') Q" using assms(1-3) by (intro assms(5)) simp_all
      then show "triple (ckpt_inv e ops run start k (Some ref)) (case x of Inl err \<Rightarrow> g err | Inr step' \<Rightarrow> f step') Q"
        using Inr by simp
    qed
  qed
qed

text \<open>The result of a run: a success comes with a restorable checkpoint at each step.\<close>

definition ckpt_result ::
  "(MemoryStore, blobs, 'w) Engine \<Rightarrow> (nat \<Rightarrow> StoreOp list) \<Rightarrow> Run \<Rightarrow> int64 \<Rightarrow> outcome \<Rightarrow> (MemoryStore, blobs, 'w) EngineState \<Rightarrow> bool" where
  "ckpt_result e ops run start out st \<longleftrightarrow>
     (\<forall>res. out = Inr res \<longrightarrow> rr_Status res = RunStatusSucceeded \<longrightarrow>
        start \<le> rr_LastStep res \<and> (\<exists>held. ckpt_inv e ops run start (rr_LastStep res + 1) held st))"

lemma unsuccessful_result:
  "unsuccessful m \<Longrightarrow> triple P m (\<lambda>r st. \<forall>out. r = Inl out \<longrightarrow> ckpt_result e ops run start out st)"
  unfolding unsuccessful_def ckpt_result_def by (auto simp: triple_def)

lemma fail_result: "triple P (fail_run k msg lv) (\<lambda>r st. case r of Inl out \<Rightarrow> ckpt_result e ops run start out st | Inr x \<Rightarrow> Q x st)"
  by (auto simp: triple_def fail_run_def run_result_def ckpt_result_def)

lemma ckpt_attempt:
  assumes "unsuccessful m" and "triple P m (\<lambda>r st. \<forall>a. r = Inr a \<longrightarrow> R a st)"
    and "\<And>a. triple (R a) (f a) (\<lambda>r st. case r of Inl out \<Rightarrow> ckpt_result e ops run start out st | Inr x \<Rightarrow> Q x st)"
  shows "triple P (attempt m f) (\<lambda>r st. case r of Inl out \<Rightarrow> ckpt_result e ops run start out st | Inr x \<Rightarrow> Q x st)"
  using triple_conj [OF assms(2) unsuccessful_result [OF assms(1)]]
  by (intro triple_attempt [where R = "\<lambda>r st. (\<forall>a. r = Inr a \<longrightarrow> R a st) \<and> (\<forall>out. r = Inl out \<longrightarrow> ckpt_result e ops run start out st)"])
    (use assms(3) in \<open>auto simp: triple_def\<close>)

lemma write_ckpt:
  assumes "s_RunID step = r_RunID run" and "s_StepIndex step = k" and "s_CheckpointRef step = Some ref"
  shows "triple (ckpt_inv e ops run start k (Some ref)) (write_phase (local_engine e ops) task run k step lv)
     (\<lambda>r st. \<forall>x. r = Inr x \<longrightarrow> ckpt_inv e ops run start (k + 1) (Some ref) st)"
proof -
  have ends: "triple P (fail_run k msg lv) (\<lambda>r st. \<forall>x. r = Inr x \<longrightarrow> Q x st)" for P msg Q
    by (auto simp: triple_def fail_run_def)
  have last: "keeps (ckpt_inv e ops run start (k + 1) (Some ref))
      (store_call (local_engine e ops) (\<lambda>s. Store_UpdateLastStepIndex (en_store (local_engine e ops)) s t r i))" for t r i
    by (rule ckpt_run.keeps_store_call) (simp add: local_engine_def engine_calls inv_op del: apply_op.simps)
  have rest: "triple (ckpt_inv e ops run start (k + 1) (Some ref))
      (if b then fail_run k msg lv
       else do { idxErr \<leftarrow> store_call (local_engine e ops) (\<lambda>s. Store_UpdateLastStepIndex (en_store (local_engine e ops)) s t r i);
                 task_event (local_engine e ops) task run ty data; bump m; ret (Inr ()) })
      (\<lambda>r st. \<forall>x. r = Inr x \<longrightarrow> ckpt_inv e ops run start (k + 1) (Some ref) st)" for b msg t r i ty data m
    by (rule triple_if, rule ends, unfold goes_def [symmetric],
        intro goes_bind last ckpt_run.keeps_event ckpt_run.keeps_bump goes_ret)
  show ?thesis
    unfolding write_phase_def
    by (rule ckpt_put_externalized [OF assms ends]) (rule triple_bind [OF put_step_ckpt rest])
qed

lemma finish_ckpt:
  assumes "add64 k 1 = k + 1" and "start \<le> k"
  shows "triple (ckpt_inv e ops run start (k + 1) (Some ref)) (finish_phase (local_engine e ops) task run k t resp ref lv)
     (\<lambda>r st. case r of Inl out \<Rightarrow> ckpt_result e ops run start out st | Inr lv' \<Rightarrow> ckpt_inv e ops run start (k + 1) None st)"
proof -
  have drop: "ckpt_inv e ops run start (k + 1) (Some ref) st \<Longrightarrow> ckpt_inv e ops run start (k + 1) None st" for st
    by (auto simp: ckpt_inv_def dest: ckpts_drop)
  have last: "keeps (ckpt_inv e ops run start (k + 2) (Some ref))
      (store_call (local_engine e ops) (\<lambda>s. Store_UpdateLastStepIndex (en_store (local_engine e ops)) s t r i))" for t r i
    by (rule ckpt_run.keeps_store_call) (simp add: local_engine_def engine_calls inv_op del: apply_op.simps)
  let ?Q = "\<lambda>r st. case r of Inl out \<Rightarrow> ckpt_result e ops run start out st | Inr lv' \<Rightarrow> ckpt_inv e ops run start (k + 1) None st"
  have fin: "triple (ckpt_inv e ops run start (k + 2) (Some ref)) (ret (Inl (Inr (run_result RunStatusSucceeded (k + 1) [] lv)))) ?Q"
    using assms(2) by (intro triple_ret) (auto simp: ckpt_result_def run_result_def add.commute)
  have put: "triple (ckpt_inv e ops run start (k + 1) (Some ref))
      (store_call (local_engine e ops) (\<lambda>s. Store_PutStep (en_store (local_engine e ops)) s z)) (\<lambda>_. ckpt_inv e ops run start (k + 2) (Some ref))"
    if "s_RunID z = r_RunID run" "s_StepIndex z = k + 1" "s_CheckpointRef z = Some ref" for z
    by (rule triple_post [OF put_step_ckpt [OF that]]) (simp add: add.commute)
  have go: "triple (ckpt_inv e ops run start (k + 1) (Some ref)) (ret (Inr lv')) ?Q" for lv' by (rule triple_ret) (simp add: drop)
  show ?thesis
    unfolding finish_phase_def Let_def assms(1)
    by (intro triple_if go triple_bind [OF ckpt_run.keeps_event fail_result], rule ckpt_put_externalized, simp, simp, simp,
        rule fail_result, rule triple_bind [OF put], assumption+, rule triple_bind [OF last],
        rule triple_bind [OF ckpt_run.keeps_event], rule triple_bind [OF ckpt_run.keeps_bump fin])
qed

section \<open>The loop\<close>

lemma unsuccessful_usage: "unsuccessful (usage_phase e task run k start resp lv)"
  unfolding unsuccessful_def by (rule triple_post [OF usage_within]) simp

lemma unsuccessful_tools: "unsuccessful (fold_attempt (tool_step e task run k start) calls acc)"
  unfolding unsuccessful_def by (rule triple_post [OF tools_totals]) simp

lemma react_step_ckpt:
  assumes "add64 k 1 = k + 1" and "start \<le> k"
  shows "triple (ckpt_inv e ops run start k None) (react_step (local_engine e ops) task run k lv)
     (\<lambda>r st. case r of Inl out \<Rightarrow> ckpt_result e ops run start out st | Inr lv' \<Rightarrow> ckpt_inv e ops run start (k + 1) None st)"
proof -
  have taken: "triple (ckpt_inv e ops run start k None) (checkpoint_phase (local_engine e ops) task run k lv')
      (\<lambda>r st. \<forall>a. r = Inr a \<longrightarrow> ckpt_inv e ops run start k (Some (fst a)) st)" for lv'
    by (rule tripleI) (auto intro: checkpoint_taken)
  note attempt = ckpt_attempt [where R = "\<lambda>_. ckpt_inv e ops run start k None"]
  show ?thesis
    unfolding react_step_def Let_def
    by (rule attempt [OF unsuccessful_phases(1) ckpt_run.goes_check_abort [unfolded goes_def]],
        rule attempt [OF unsuccessful_phases(2) ckpt_run.goes_check_context [unfolded goes_def]],
        rule attempt [OF unsuccessful_phases(3) ckpt_run.goes_llm_phase [unfolded goes_def]], clarify,
        rule attempt [OF unsuccessful_usage ckpt_run.goes_usage_phase [unfolded goes_def]],
        rule attempt [OF unsuccessful_tools goes_fold_attempt [OF ckpt_run.goes_tool_step, unfolded goes_def]], clarify,
        rule triple_bind [OF ckpt_run.keeps_time_Now], rule ckpt_attempt [OF unsuccessful_phases(5) taken], clarify,
        rule ckpt_attempt [OF unsuccessful_phases(6) write_ckpt], simp_all, rule finish_ckpt [OF assms])
qed

lemma react_loop_ckpt:
  assumes "start \<le> k" and "in_i64 k"
  shows "triple (ckpt_inv e ops run start k None) (react_loop (local_engine e ops) task run start k lv)
     (\<lambda>out st. ckpt_result e ops run start out st)"
  using assms
proof (induction "nat (add64 start (en_MaxSteps e) - k)" arbitrary: k lv rule: less_induct)
  case less
  show ?case
  proof (cases "k < add64 start (en_MaxSteps e)")
    case False
    then have eq: "react_loop (local_engine e ops) task run start k lv = max_steps_reached (local_engine e ops) task run start lv"
      by (intro react_loop_done) (simp add: local_engine_def)
    show ?thesis
      unfolding eq by (auto simp: triple_def max_steps_reached_def ckpt_result_def run_result_def split: prod.split)
  next
    case True
    have "in_i64 (add64 start (en_MaxSteps e))" by (simp add: add64_def)
    then have i64: "in_i64 (k + 1)" using True less.prems(2) by (auto simp: in_i64_def)
    then have Suc: "add64 k 1 = k + 1" by (rule add64_exact)
    have rest: "triple (\<lambda>st. case r of Inl out \<Rightarrow> ckpt_result e ops run start out st | Inr lv' \<Rightarrow> ckpt_inv e ops run start (k + 1) None st)
        (case r of Inl out \<Rightarrow> ret out | Inr lv' \<Rightarrow> react_loop (local_engine e ops) task run start (k + 1) lv')
        (\<lambda>out st. ckpt_result e ops run start out st)" for r
    proof (cases r)
      case (Inr lv')
      have "triple (ckpt_inv e ops run start (k + 1) None) (react_loop (local_engine e ops) task run start (k + 1) lv')
          (\<lambda>out st. ckpt_result e ops run start out st)"
        by (rule less(1)) (use True less.prems i64 in simp_all)
      then show ?thesis by (simp add: Inr)
    qed (simp add: triple_ret)
    have "react_loop (local_engine e ops) task run start k lv =
        State_Monad.bind (react_step (local_engine e ops) task run k lv)
          (\<lambda>r. case r of Inl out \<Rightarrow> ret out | Inr lv' \<Rightarrow> react_loop (local_engine e ops) task run start (add64 k 1) lv')"
      using True by (intro react_loop_more) (simp add: local_engine_def)
    then show ?thesis
      unfolding Suc by (rule ssubst) (rule triple_bind [OF react_step_ckpt [OF Suc less.prems(1)] rest])
  qed
qed

definition first_step :: "Run \<Rightarrow> int64" where
  "first_step run = (case r_ResumeFromStepIndex run of None \<Rightarrow> 0 | Some i \<Rightarrow> add64 i 1)"

lemma restore_ckpt:
  "triple (ckpt_inv e ops run start start None) (restore_phase (local_engine e ops) run)
     (\<lambda>r st. ckpt_inv e ops run start start None st \<and> (\<forall>mem start'. r = Inr (mem, start') \<longrightarrow> start' = first_step run))"
proof -
  have "keeps (ckpt_inv e ops run start start None) (restore_phase (local_engine e ops) run)"
    unfolding restore_phase_def Let_def by (intro keeps_rules ckpt_run.keeps_store_read triple_modify) simp
  moreover have "triple (\<lambda>_. True) (restore_phase (local_engine e ops) run)
      (\<lambda>r _. \<forall>mem start'. r = Inr (mem, start') \<longrightarrow> start' = first_step run)"
    by (auto simp: restore_phase_def first_step_def triple_def Let_def split: prod.splits sum.splits option.splits)
  ultimately show ?thesis using triple_conj by fastforce
qed

lemma Execute_ckpt:
  "triple (ckpt_inv e ops run (first_step run) (first_step run) None) (Execute (local_engine e ops) task run)
     (\<lambda>out st. ckpt_result e ops run (first_step run) out st)"
  (is "triple ?I _ ?Q")
proof (cases "Validate (en_env (local_engine e ops)) (t_Prompt task) (LoadFromEnv (en_env (local_engine e ops)))")
  case (Some err)
  then show ?thesis by (simp add: Execute_def triple_def ckpt_result_def)
next
  case None
  have i64: "in_i64 (first_step run)" by (cases "r_ResumeFromStepIndex run") (simp_all add: first_step_def add64_def, simp add: in_i64_def)
  have run: "triple (\<lambda>st. ?I st \<and> (\<forall>mem start'. r = Inr (mem, start') \<longrightarrow> start' = first_step run))
      (case r of Inl err \<Rightarrow> ret (Inl err) | Inr (mem, start) \<Rightarrow> react_loop (local_engine e ops) task run start start (lv mem)) ?Q" for r lv
  proof (rule triple_fact)
    assume start: "\<forall>mem start'. r = Inr (mem, start') \<longrightarrow> start' = first_step run"
    show "triple ?I (case r of Inl err \<Rightarrow> ret (Inl err) | Inr (mem, start) \<Rightarrow> react_loop (local_engine e ops) task run start start (lv mem)) ?Q"
    proof (cases r)
      case (Inl err)
      then show ?thesis by (simp add: triple_def ckpt_result_def)
    next
      case (Inr p)
      then have "snd p = first_step run" using start by (cases p) simp
      then show ?thesis
        using react_loop_ckpt [of "first_step run" "first_step run" e ops run task "lv (fst p)"] i64 Inr by (simp add: case_prod_unfold)
    qed
  qed
  show ?thesis
    unfolding Execute_def None option.case
    by (rule triple_bind [OF ckpt_run.keeps_bump], rule triple_bind [where R = "\<lambda>_. ?I"], rule triple_modify, simp,
        rule triple_bind [OF restore_ckpt], rule run)
qed

text \<open>
  What a resume gets from a step: the memory object decodes to what the encoding of a snapshot
  decodes to, and the workspace manager is handed an archive; no integrity check fails.
\<close>

definition restores :: "golib \<Rightarrow> jsonlib \<Rightarrow> 'w WsManager \<Rightarrow> blobs \<Rightarrow> int64 \<Rightarrow> Step \<Rightarrow> bool" where
  "restores L J W a i z \<longleftrightarrow>
     (\<exists>m w snap data arch.
        s_CheckpointRef z = Some \<lparr>cr_Memory = Some m, cr_Workspace = Some w\<rparr>
        \<and> json_print J (snapshot_json snap) = Inr data \<and> ms_StepIndex snap \<le> i
        \<and> Load L (memory_artifacts L) a m = map_sum (\<lambda>err. SnapErr (''memory: unmarshal: '' @ err)) id (lib_unmarshal_snapshot L data)
        \<and> (\<forall>w0. RestoreWorkspace L W w0 (memory_artifacts L) a w =
             (case Ws_Restore W w0 arch of
                (w1, err) \<Rightarrow> (w1, map_option (\<lambda>x. WsSnapErr (''restore workspace: '' @ WsErr_Error x)) err))))"

lemma ckpt_ok_restores:
  assumes "ckpt_ok L J a j ref" and "s_CheckpointRef z = Some ref" and "j \<le> i"
    and "\<forall>data. lib_gzip_reader L (lib_gzip L data) = Inr (Inr data)"
  shows "restores L J W a i z"
proof -
  obtain m w snap data arch where r: "ref = \<lparr>cr_Memory = Some m, cr_Workspace = Some w\<rparr>" "ms_StepIndex snap = j"
    "json_print J (snapshot_json snap) = Inr data" "blob.stored_ref L a m (lib_gzip L data)" "blob.stored_ref L a w arch"
    using assms(1) unfolding ckpt_ok_def by blast
  have "Load L (memory_artifacts L) a m = map_sum (\<lambda>err. SnapErr (''memory: unmarshal: '' @ err)) id (lib_unmarshal_snapshot L data)"
    using blob.get_ok [of a "ar_S3Key m" "lib_gzip L data" L] blob.stored_intact [OF r(4)] r(4) assms(4)
    by (simp add: Load_def blob.stored_ref_def split: sum.split)
  moreover have "RestoreWorkspace L W w0 (memory_artifacts L) a w = (case Ws_Restore W w0 arch of
      (w1, err) \<Rightarrow> (w1, map_option (\<lambda>x. WsSnapErr (''restore workspace: '' @ WsErr_Error x)) err))" for w0
    using blob.get_ok [of a "ar_S3Key w" arch L] blob.stored_intact [OF r(5)] r(5)
    by (simp add: RestoreWorkspace_def blob.stored_ref_def split: prod.split option.split)
  ultimately show ?thesis unfolding restores_def using assms(2,3) r by blast
qed



end
