(* ===== verification/Worker.thy ===== *)
theory Worker
  imports EngineProps
begin

text \<open>
  The worker (\<open>pkg/engine/worker.go\<close>): what it does with one queue message, over the same
  state as the engine. Creating and removing the workspace directory and the built-in file
  tools are parameters; so is the engine with its dependencies, whose tools are the caller's.
\<close>

section \<open>Definitions\<close>

record ('s, 'a, 'w) Worker =
  wk_engine :: "('s, 'a, 'w) Engine"
  wk_NewFSTools :: "string \<Rightarrow> ('a, 'w) Tool list"
  wk_NewLocalManager :: "nat \<Rightarrow> string \<Rightarrow> 'w \<Rightarrow> string + 'w"
  wk_Cleanup :: "'w \<Rightarrow> 'w"

definition exportPrefix :: "SQSMessage \<Rightarrow> string" where
  "exportPrefix msg = ''exports/'' @ m_TenantID msg @ ''/'' @ m_TaskID msg @ ''/'' @ m_RunID msg"

text \<open>The built-in tools, overridden by the caller's.\<close>

definition worker_registry :: "('s, 'a, 'w) Worker \<Rightarrow> SQSMessage \<Rightarrow> ('a, 'w) registry" where
  "worker_registry w msg =
     (let builtin = fold Register (wk_NewFSTools w (exportPrefix msg)) [];
          custom = en_tools (wk_engine w)
      in fold (\<lambda>name r. case Registry_Get custom name of None \<Rightarrow> r | Some tool \<Rightarrow> Register tool r)
           (Registry_List custom) builtin)"

fun task_status_of :: "RunStatus \<Rightarrow> TaskStatus" where
  "task_status_of RunStatusFailed = TaskStatusFailed"
| "task_status_of RunStatusAborted = TaskStatusAborted"
| "task_status_of _ = TaskStatusSucceeded"

definition complete_run ::
  "('s, 'a, 'w) Engine \<Rightarrow> string \<Rightarrow> string \<Rightarrow> RunStatus \<Rightarrow> ('s, 'a, 'w, StateErr option) engine_prog" where
  "complete_run e taskID runID status = do {
     now \<leftarrow> time_Now e;
     store_call e (\<lambda>s. Store_CompleteRun (en_store e) now s taskID runID status)
   }"

definition update_task ::
  "('s, 'a, 'w) Engine \<Rightarrow> string \<Rightarrow> string \<Rightarrow> TaskStatus list \<Rightarrow> TaskStatus \<Rightarrow> ('s, 'a, 'w, StateErr option) engine_prog" where
  "update_task e taskID runID from to = do {
     now \<leftarrow> time_Now e;
     store_call e (\<lambda>s. Store_UpdateTaskStatusForRun (en_store e) now s taskID runID from to)
   }"

definition finalizeRun ::
  "('s, 'a, 'w) Engine \<Rightarrow> string \<Rightarrow> string \<Rightarrow> RunStatus \<Rightarrow> ('s, 'a, 'w, string option) engine_prog" where
  "finalizeRun e taskID runID runStatus = do {
     err \<leftarrow> complete_run e taskID runID runStatus;
     (case err of
        Some x \<Rightarrow> ret (Some (''worker: finalize complete run: '' @ StateErr_Error x))
      | None \<Rightarrow> do {
          err2 \<leftarrow> update_task e taskID runID [TaskStatusRunning] (task_status_of runStatus);
          ret (case err2 of
              None \<Rightarrow> None
            | Some x \<Rightarrow> if x = ErrConflict \<or> x = ErrNotFound then None
                        else Some (''worker: finalize update task status: '' @ StateErr_Error x)) })
   }"

text \<open>
  From the loaded task and run on: workspace, engine, finalisation, and the deferred cleanup.
  The value is the error that makes the queue retry; \<open>None\<close> acknowledges the message.
\<close>

definition execute_run ::
  "('s, 'a, 'w) Worker \<Rightarrow> SQSMessage \<Rightarrow> Task \<Rightarrow> Run \<Rightarrow> ('s, 'a, 'w, string option) engine_prog" where
  "execute_run w msg task run =
     (let e = (wk_engine w)\<lparr>en_tools := worker_registry w msg\<rparr>
      in do {
        i \<leftarrow> tick;
        fs \<leftarrow> gets es_ws;
        (case wk_NewLocalManager w i (m_RunID msg) fs of
           Inl err \<Rightarrow> ret (Some (''worker: create workspace: '' @ err))
         | Inr ws \<Rightarrow> do {
             modify (\<lambda>st. st\<lparr>es_ws := ws, es_metrics := NewMetrics\<rparr>);
             out \<leftarrow> Execute e task run;
             err \<leftarrow> finalizeRun e (m_TaskID msg) (m_RunID msg)
               (case out of Inl _ \<Rightarrow> RunStatusFailed | Inr res \<Rightarrow> rr_Status res);
             modify (\<lambda>st. st\<lparr>es_ws := wk_Cleanup w (es_ws st)\<rparr>);
             ret err }) })"

definition load_and_execute :: "('s, 'a, 'w) Worker \<Rightarrow> SQSMessage \<Rightarrow> ('s, 'a, 'w, string option) engine_prog" where
  "load_and_execute w msg =
     (let e = wk_engine w
      in do {
        gotTask \<leftarrow> store_read e (\<lambda>s. Store_GetTask (en_store e) s (m_TaskID msg));
        (case gotTask of
           Inl err \<Rightarrow> do {
             completeErr \<leftarrow> complete_run e (m_TaskID msg) (m_RunID msg) RunStatusFailed;
             ret (Some (''worker: get task: '' @ StateErr_Error err)) }
         | Inr task \<Rightarrow>
             if t_TenantID task \<noteq> m_TenantID msg
             then do {
               completeErr \<leftarrow> complete_run e (m_TaskID msg) (m_RunID msg) RunStatusFailed;
               updateErr \<leftarrow> update_task e (m_TaskID msg) (m_RunID msg) [TaskStatusRunning] TaskStatusFailed;
               ret None }
             else do {
               gotRun \<leftarrow> store_read e (\<lambda>s. Store_GetRun (en_store e) s (m_TaskID msg) (m_RunID msg));
               (case gotRun of
                  Inl err \<Rightarrow> do {
                    completeErr \<leftarrow> complete_run e (m_TaskID msg) (m_RunID msg) RunStatusFailed;
                    updateErr \<leftarrow> update_task e (m_TaskID msg) (m_RunID msg) [TaskStatusRunning] TaskStatusFailed;
                    ret (Some (''worker: get run: '' @ StateErr_Error err)) }
                | Inr run \<Rightarrow> execute_run w msg task run) }) })"

definition handleMessage :: "('s, 'a, 'w) Worker \<Rightarrow> SQSMessage \<Rightarrow> ('s, 'a, 'w, string option) engine_prog" where
  "handleMessage w msg =
     (let e = wk_engine w
      in do {
        now \<leftarrow> time_Now e;
        claimErr \<leftarrow> store_call e (\<lambda>s. Store_ClaimRun (en_store e) now s (m_TaskID msg) (m_RunID msg));
        (case claimErr of
           Some err \<Rightarrow>
             if err = ErrConflict \<or> err = ErrNotFound then ret None
             else ret (Some (''worker: claim run: '' @ StateErr_Error err))
         | None \<Rightarrow> do {
             taskErr \<leftarrow> update_task e (m_TaskID msg) (m_RunID msg) [TaskStatusQueued, TaskStatusRunning] TaskStatusRunning;
             (case taskErr of
                Some err \<Rightarrow>
                  if err = ErrConflict \<or> err = ErrNotFound
                  then do { completeErr \<leftarrow> complete_run e (m_TaskID msg) (m_RunID msg) RunStatusAborted; ret None }
                  else do {
                    completeErr \<leftarrow> complete_run e (m_TaskID msg) (m_RunID msg) RunStatusFailed;
                    ret (Some (''worker: update task status to RUNNING: '' @ StateErr_Error err)) }
              | None \<Rightarrow> load_and_execute w msg) }) })"

end
