(* ===== verification/WorkerProps.thy ===== *)
theory WorkerProps
  imports Worker
begin

text \<open>
  Properties of the worker over the in-memory store, while other clients work on other tasks
  and runs: how a message ends, what a repeated delivery and a superseded run do, and where a
  run is left behind.
\<close>

section \<open>The worker beside other clients of the store\<close>

definition local_worker ::
  "(MemoryStore, 'a, 'w) Worker \<Rightarrow> (nat \<Rightarrow> StoreOp list) \<Rightarrow> (MemoryStore, 'a, 'w) Worker" where
  "local_worker w ops = w\<lparr>wk_engine := local_engine (wk_engine w) ops\<rparr>"

definition leaves_message :: "SQSMessage \<Rightarrow> StoreOp \<Rightarrow> bool" where
  "leaves_message msg op \<longleftrightarrow> leaves_task (m_TaskID msg) op \<and> leaves_run (runKey (m_TaskID msg) (m_RunID msg)) op"

text \<open>The task of a message satisfies \<open>P\<close>, and its run has the given status.\<close>

definition stands :: "SQSMessage \<Rightarrow> (Task \<Rightarrow> bool) \<Rightarrow> RunStatus \<Rightarrow> (MemoryStore, 'a, 'w) EngineState \<Rightarrow> bool" where
  "stands msg P status st \<longleftrightarrow>
     (\<exists>x. task_view (es_store st) (m_TaskID msg) = Some x \<and> P x)
     \<and> (\<exists>y. run_view (es_store st) (runKey (m_TaskID msg) (m_RunID msg)) = Some y \<and> r_Status y = status)"

lemma stands_frame [simp]:
  "stands msg P status (st\<lparr>es_tick := n\<rparr>) = stands msg P status st"
  "stands msg P status (st\<lparr>es_metrics := m\<rparr>) = stands msg P status st"
  "stands msg P status (st\<lparr>es_ws := w\<rparr>) = stands msg P status st"
  by (simp_all add: stands_def)

lemma stands_others:
  assumes "stands msg P status st" and "list_all (leaves_message msg) os"
  shows "stands msg P status (st\<lparr>es_store := run_ops os (es_store st)\<rparr>)"
proof -
  have "list_all (leaves_task (m_TaskID msg)) os" "list_all (leaves_run (runKey (m_TaskID msg) (m_RunID msg))) os"
    using assms(2) by (simp_all add: leaves_message_def list_all_iff)
  then show ?thesis
    using assms(1) task_left.inv_run run_left.inv_run unfolding stands_def run_ops_def by (simp, blast)
qed

text \<open>Calls of the store, given that the others leave the task and the run of the message alone.\<close>

lemma call_stands:
  assumes "\<And>i. list_all (leaves_message msg) (ops i)"
    and "\<And>st. stands msg P status st \<Longrightarrow> Q (snd (f (es_store st))) (st\<lparr>es_store := fst (f (es_store st))\<rparr>)"
    and "\<And>r st n. Q r st \<Longrightarrow> Q r (st\<lparr>es_tick := n\<rparr>)"
  shows "triple (stands msg P status) (store_call (local_engine e ops) f) Q"
proof (rule tripleI)
  fix st r st'
  assume "stands msg P status st" and run: "run_state (store_call (local_engine e ops) f) st = (r, st')"
  let ?st = "st\<lparr>es_store := run_ops (ops (es_tick st)) (es_store st)\<rparr>"
  have "stands msg P status ?st" using \<open>stands msg P status st\<close> assms(1) by (rule stands_others)
  then have "Q (snd (f (es_store ?st))) (?st\<lparr>es_store := fst (f (es_store ?st)), es_tick := Suc (es_tick st)\<rparr>)"
    by (intro assms(3) assms(2))
  moreover have "r = snd (f (es_store ?st))" "st' = ?st\<lparr>es_store := fst (f (es_store ?st)), es_tick := Suc (es_tick st)\<rparr>"
    using run by (auto simp: run_store_call local_engine_def Let_def split: prod.splits)
  ultimately show "Q r st'" by simp
qed

lemma now_stands: "keeps (stands msg P status) (time_Now e)"
  by (simp add: triple_def)

lemma claim_stands:
  assumes "\<And>i. list_all (leaves_message msg) (ops i)"
  shows "triple (stands msg P RunStatusQueued)
     (store_call (local_engine e ops) (\<lambda>s. Store_ClaimRun (en_store (local_engine e ops)) now s (m_TaskID msg) (m_RunID msg)))
     (\<lambda>r st. r = None \<and> stands msg P RunStatusRunning st)"
  by (rule call_stands [OF assms])
    (auto simp: stands_def local_engine_def memory_store_def ClaimRun_def run_view_def task_view_def gomap_simps)

lemma complete_stands:
  assumes "\<And>i. list_all (leaves_message msg) (ops i)"
  shows "triple (stands msg P status) (complete_run (local_engine e ops) (m_TaskID msg) (m_RunID msg) status')
     (\<lambda>r st. r = None \<and> stands msg P status' st)"
  unfolding complete_run_def
  by (rule triple_bind [OF now_stands], rule call_stands [OF assms])
    (auto simp: stands_def local_engine_def memory_store_def CompleteRun_def run_view_def task_view_def gomap_simps)

lemma update_stands:
  assumes "\<And>i. list_all (leaves_message msg) (ops i)"
    and "\<And>x now. P x \<Longrightarrow> t_ActiveRunID x = m_RunID msg \<and> t_Status x \<in> set from' \<and> Q (x\<lparr>t_Status := to', t_UpdatedAt := now\<rparr>)"
  shows "triple (stands msg P status) (update_task (local_engine e ops) (m_TaskID msg) (m_RunID msg) from' to')
     (\<lambda>r st. r = None \<and> stands msg Q status st)"
  unfolding update_task_def
  by (rule triple_bind [OF now_stands], rule call_stands [OF assms(1)])
    (auto simp: stands_def local_engine_def memory_store_def UpdateTaskStatusForRun_def run_view_def task_view_def gomap_simps
      dest: assms(2) split: if_splits)

lemma update_superseded:
  assumes "\<And>i. list_all (leaves_message msg) (ops i)" and "\<And>x. P x \<Longrightarrow> t_ActiveRunID x \<noteq> m_RunID msg"
  shows "triple (stands msg P status) (update_task (local_engine e ops) (m_TaskID msg) (m_RunID msg) from' to')
     (\<lambda>r st. r = Some ErrConflict \<and> stands msg P status st)"
  unfolding update_task_def
  by (rule triple_bind [OF now_stands], rule call_stands [OF assms(1)])
    (auto simp: stands_def local_engine_def memory_store_def UpdateTaskStatusForRun_def run_view_def task_view_def
      dest: assms(2))

lemma Execute_stands:
  assumes "\<And>i. list_all (leaves_message msg) (ops i)"
  shows "keeps (stands msg P status) (Execute (local_engine e ops) task run)"
proof (rule tripleI)
  fix st out st'
  assume "stands msg P status st" and exec: "run_state (Execute (local_engine e ops) task run) st = (out, st')"
  then obtain x y where x: "task_view (es_store st) (m_TaskID msg) = Some x" "P x"
    and y: "run_view (es_store st) (runKey (m_TaskID msg) (m_RunID msg)) = Some y" "r_Status y = status"
    by (auto simp: stands_def)
  have os: "\<forall>i. list_all (leaves_task (m_TaskID msg)) (ops i)" "\<forall>i. list_all (leaves_run (runKey (m_TaskID msg) (m_RunID msg))) (ops i)"
    using assms by (simp_all add: leaves_message_def list_all_iff)
  have st': "st' = snd (run_state (Execute (local_engine e ops) task run) st)" using exec by simp
  have "task_view (es_store st') (m_TaskID msg) = Some x"
    using engine_task.store_kept [where ops = ops and t = "m_TaskID msg" and x = x and st = st and e = e and task = task and run = run] x os
    unfolding st' by blast
  moreover have "status_kept (runKey (m_TaskID msg) (m_RunID msg)) y (es_store st')"
    using engine_status.store_kept [where ops = ops and k = "runKey (m_TaskID msg) (m_RunID msg)" and y = y and st = st and e = e
        and task = task and run = run] y os
    unfolding st' status_kept_def by blast
  ultimately show "stands msg P status st'" using x y by (auto simp: stands_def status_kept_def)
qed

section \<open>How runs end\<close>

fun terminal :: "RunStatus \<Rightarrow> bool" where
  "terminal RunStatusSucceeded = True"
| "terminal RunStatusFailed = True"
| "terminal RunStatusAborted = True"
| "terminal _ = False"

definition over :: "outcome \<Rightarrow> bool" where
  "over out \<longleftrightarrow> (\<forall>res. out = Inr res \<longrightarrow> terminal (rr_Status res))"

definition stops :: "('s, outcome + 'b) state \<Rightarrow> bool" where
  "stops m \<longleftrightarrow> triple (\<lambda>_. True) m (\<lambda>r _. \<forall>out. r = Inl out \<longrightarrow> over out)"

lemma stops_rules:
  "stops (ret (Inr x))"
  "over out \<Longrightarrow> stops (ret (Inl out))"
  "stops (fail_run k msg lv)"
  "(\<And>a. stops (f a)) \<Longrightarrow> stops (State_Monad.bind m f)"
  by (auto simp: stops_def triple_def fail_run_def run_result_def over_def split: prod.split)

lemma over_rules [simp]: "over (Inl err)" "terminal status \<Longrightarrow> over (Inr (run_result status k msg lv))"
  by (simp_all add: over_def run_result_def)

lemma stops_attempt:
  assumes "stops m" and "\<And>a. stops (f a)"
  shows "stops (attempt m f)"
  using assms unfolding stops_def
  by (intro triple_attempt [where R = "\<lambda>r _. \<forall>out. r = Inl out \<longrightarrow> over out"]) (auto simp: triple_def)

lemma stops_fold: "(\<And>x b. stops (f x b)) \<Longrightarrow> stops (fold_attempt f xs b)"
  by (induction xs arbitrary: b) (auto intro: stops_rules stops_attempt)

lemma stops_cases:
  "stops m \<Longrightarrow> stops n \<Longrightarrow> stops (if b then m else n)"
  "(\<And>e. stops (g e)) \<Longrightarrow> (\<And>x. stops (f x)) \<Longrightarrow> stops (case v of Inl e \<Rightarrow> g e | Inr x \<Rightarrow> f x)"
  "stops m \<Longrightarrow> (\<And>x. stops (h x)) \<Longrightarrow> stops (case u of None \<Rightarrow> m | Some x \<Rightarrow> h x)"
  "(\<And>x y. stops (p x y)) \<Longrightarrow> stops (case q of (x, y) \<Rightarrow> p x y)"
  by (auto split: sum.split option.split prod.split)

lemma stops_react_step: "stops (react_step e task run k lv)"
  unfolding react_step_def check_abort_def check_context_def llm_phase_def usage_phase_def tool_step_def
    checkpoint_phase_def write_phase_def finish_phase_def Let_def
  by (intro stops_rules stops_attempt stops_fold stops_cases over_rules) simp_all

lemma react_loop_over: "triple (\<lambda>_. True) (react_loop e task run start k lv) (\<lambda>out _. over out)"
proof (induction e task run start k lv rule: react_loop.induct)
  case (1 e task run start k lv)
  show ?case
  proof (cases "k < add64 start (en_MaxSteps e)")
    case True
    have rest: "triple (\<lambda>_. \<forall>out. r = Inl out \<longrightarrow> over out)
        (case r of Inl out \<Rightarrow> ret out | Inr lv' \<Rightarrow> react_loop e task run start (add64 k 1) lv') (\<lambda>out _. over out)" for r
      using 1 [OF True] by (cases r) (auto simp: triple_def)
    show ?thesis
      unfolding react_loop_more [OF True] by (rule triple_bind [OF stops_react_step [unfolded stops_def] rest])
  next
    case False
    show ?thesis
      unfolding react_loop_done [OF False] by (auto simp: triple_def max_steps_reached_def split: prod.split)
  qed
qed

lemma Execute_over: "triple (\<lambda>_. True) (Execute e task run) (\<lambda>out _. over out)"
proof (cases "Validate (en_env e) (t_Prompt task) (LoadFromEnv (en_env e))")
  case (Some err)
  then show ?thesis by (simp add: Execute_def triple_def over_def)
next
  case None
  have run: "triple (\<lambda>_. True) (case r of Inl err \<Rightarrow> ret (Inl err) | Inr (mem, start) \<Rightarrow> react_loop e task run start start (lv mem))
      (\<lambda>out _. over out)" for r lv
    by (cases r) (auto simp: triple_ret react_loop_over split: prod.split)
  show ?thesis
    unfolding Execute_def None option.case
    by (rule triple_bind [where R = "\<lambda>_ _. True"], simp add: triple_def,
        rule triple_bind [where R = "\<lambda>_ _. True"], simp add: triple_def,
        rule triple_bind [where R = "\<lambda>_ _. True"], simp add: triple_def, rule run)
qed

section \<open>How a message ends\<close>

text \<open>The task of a message: its active run is the message's, it belongs to the tenant, and its status.\<close>

definition owns :: "SQSMessage \<Rightarrow> TaskStatus \<Rightarrow> Task \<Rightarrow> bool" where
  "owns msg status x \<longleftrightarrow> t_ActiveRunID x = m_RunID msg \<and> t_TenantID x = m_TenantID msg \<and> t_Status x = status"

lemma finalize_stands:
  assumes "\<And>i. list_all (leaves_message msg) (ops i)"
  shows "triple (stands msg (owns msg TaskStatusRunning) RunStatusRunning)
     (finalizeRun (local_engine e ops) (m_TaskID msg) (m_RunID msg) status)
     (\<lambda>r st. r = None \<and> stands msg (owns msg (task_status_of status)) status st)"
proof -
  have update: "triple (stands msg (owns msg TaskStatusRunning) status)
      (update_task (local_engine e ops) (m_TaskID msg) (m_RunID msg) [TaskStatusRunning] (task_status_of status))
      (\<lambda>r st. r = None \<and> stands msg (owns msg (task_status_of status)) status st)"
    by (rule update_stands [OF assms]) (simp add: owns_def)
  have rest: "triple (\<lambda>st. r = None \<and> stands msg (owns msg TaskStatusRunning) status st)
      (case r of Some x \<Rightarrow> f x
       | None \<Rightarrow> do {
           err2 \<leftarrow> update_task (local_engine e ops) (m_TaskID msg) (m_RunID msg) [TaskStatusRunning] (task_status_of status);
           ret (case err2 of None \<Rightarrow> None | Some x \<Rightarrow> g x) })
      (\<lambda>r st. r = None \<and> stands msg (owns msg (task_status_of status)) status st)" for r f g
  proof (cases r)
    case None
    have "triple (stands msg (owns msg TaskStatusRunning) status)
        (do { err2 \<leftarrow> update_task (local_engine e ops) (m_TaskID msg) (m_RunID msg) [TaskStatusRunning] (task_status_of status);
              ret (case err2 of None \<Rightarrow> None | Some x \<Rightarrow> g x) })
        (\<lambda>r st. r = None \<and> stands msg (owns msg (task_status_of status)) status st)"
      by (rule triple_bind [OF update]) (auto simp: triple_def)
    then show ?thesis by (simp add: None)
  qed (simp add: triple_def)
  show ?thesis
    unfolding finalizeRun_def by (rule triple_bind [OF complete_stands [OF assms] rest])
qed

definition settled :: "SQSMessage \<Rightarrow> string option \<Rightarrow> (MemoryStore, 'a, 'w) EngineState \<Rightarrow> bool" where
  "settled msg r st \<longleftrightarrow>
     (case r of
        None \<Rightarrow> (\<exists>status. terminal status \<and> stands msg (owns msg (task_status_of status)) status st)
      | Some err \<Rightarrow> prefix ''worker: create workspace: '' err \<and> stands msg (owns msg TaskStatusRunning) RunStatusRunning st)"

lemma execute_settled:
  assumes "\<And>i. list_all (leaves_message msg) (ops i)"
  shows "triple (stands msg (owns msg TaskStatusRunning) RunStatusRunning) (execute_run (local_worker w ops) msg task run) (settled msg)"
proof -
  let ?I = "stands msg (owns msg TaskStatusRunning) RunStatusRunning"
  let ?e = "(wk_engine w)\<lparr>en_tools := worker_registry (local_worker w ops) msg\<rparr>"
  have e: "(wk_engine (local_worker w ops))\<lparr>en_tools := worker_registry (local_worker w ops) msg\<rparr> = local_engine ?e ops"
    by (simp add: local_worker_def local_engine_def)
  have fin: "triple (\<lambda>st. ?I st \<and> over out)
      (do { err \<leftarrow> finalizeRun (local_engine ?e ops) (m_TaskID msg) (m_RunID msg)
              (case out of Inl _ \<Rightarrow> RunStatusFailed | Inr res \<Rightarrow> rr_Status res);
            modify (\<lambda>st. st\<lparr>es_ws := wk_Cleanup (local_worker w ops) (es_ws st)\<rparr>);
            ret err }) (settled msg)" for out
  proof (rule triple_fact)
    assume "over out"
    then have "terminal (case out of Inl _ \<Rightarrow> RunStatusFailed | Inr res \<Rightarrow> rr_Status res)"
      by (simp add: over_def split: sum.split)
    then show "triple ?I (do { err \<leftarrow> finalizeRun (local_engine ?e ops) (m_TaskID msg) (m_RunID msg)
              (case out of Inl _ \<Rightarrow> RunStatusFailed | Inr res \<Rightarrow> rr_Status res);
            modify (\<lambda>st. st\<lparr>es_ws := wk_Cleanup (local_worker w ops) (es_ws st)\<rparr>);
            ret err }) (settled msg)"
      by (intro triple_bind [OF finalize_stands [OF assms]]) (auto simp: triple_def settled_def)
  qed
  have exec: "triple ?I (Execute (local_engine ?e ops) task run) (\<lambda>out st. ?I st \<and> over out)"
    using triple_conj [OF Execute_stands [OF assms] Execute_over] by simp
  have ws: "triple ?I (case res of Inl err \<Rightarrow> ret (Some (''worker: create workspace: '' @ err))
      | Inr ws \<Rightarrow> do {
          modify (\<lambda>st. st\<lparr>es_ws := ws, es_metrics := NewMetrics\<rparr>);
          out \<leftarrow> Execute (local_engine ?e ops) task run;
          err \<leftarrow> finalizeRun (local_engine ?e ops) (m_TaskID msg) (m_RunID msg)
            (case out of Inl _ \<Rightarrow> RunStatusFailed | Inr res \<Rightarrow> rr_Status res);
          modify (\<lambda>st. st\<lparr>es_ws := wk_Cleanup (local_worker w ops) (es_ws st)\<rparr>);
          ret err }) (settled msg)" for res
  proof (cases res)
    case (Inl err)
    then show ?thesis by (simp add: triple_def settled_def)
  next
    case (Inr ws)
    show ?thesis
      unfolding Inr sum.case
      by (rule triple_bind [where R = "\<lambda>_. ?I"], rule triple_modify, simp, rule triple_bind [OF exec fin])
  qed
  show ?thesis
    unfolding execute_run_def Let_def e
    by (rule triple_bind [where R = "\<lambda>_. ?I"], simp add: triple_def, rule triple_bind [OF keeps_gets ws])
qed


lemma read_stands:
  assumes "\<And>i. list_all (leaves_message msg) (ops i)"
  shows "triple (stands msg P status) (store_read (local_engine e ops) (\<lambda>s. Store_GetTask (en_store (local_engine e ops)) s (m_TaskID msg)))
      (\<lambda>r st. stands msg P status st \<and> (\<exists>x. r = Inr x \<and> P x))" (is ?task)
    and "triple (stands msg P status)
      (store_read (local_engine e ops) (\<lambda>s. Store_GetRun (en_store (local_engine e ops)) s (m_TaskID msg) (m_RunID msg)))
      (\<lambda>r st. stands msg P status st \<and> (\<exists>y. r = Inr y))" (is ?run)
proof -
  show ?task
    unfolding store_read_def
    by (rule call_stands [OF assms])
      (auto simp: stands_def local_engine_def memory_store_def GetTask_def task_view_def)
  show ?run
    unfolding store_read_def
    by (rule call_stands [OF assms])
      (auto simp: stands_def local_engine_def memory_store_def GetRun_def run_view_def)
qed

text \<open>Whatever holds after the execution holds after the handling of a message.\<close>

lemma load_runs:
  assumes "\<And>i. list_all (leaves_message msg) (ops i)"
    and "\<And>task run. triple (stands msg (owns msg TaskStatusRunning) RunStatusRunning) (execute_run (local_worker w ops) msg task run) Q"
  shows "triple (stands msg (owns msg TaskStatusRunning) RunStatusRunning) (load_and_execute (local_worker w ops) msg) Q"
proof -
  let ?I = "stands msg (owns msg TaskStatusRunning) RunStatusRunning"
  have E: "wk_engine (local_worker w ops) = local_engine (wk_engine w) ops" by (simp add: local_worker_def)
  have run: "triple (\<lambda>st. ?I st \<and> (\<exists>y. r = Inr y)) (case r of Inl err \<Rightarrow> f err | Inr run \<Rightarrow> execute_run (local_worker w ops) msg task run)
      Q" for r task and f :: "StateErr \<Rightarrow> _"
    using assms(2) by (intro triple_fact) auto
  have task: "triple (\<lambda>st. ?I st \<and> (\<exists>x. r = Inr x \<and> owns msg TaskStatusRunning x))
      (case r of Inl err \<Rightarrow> f err
       | Inr task \<Rightarrow> if t_TenantID task \<noteq> m_TenantID msg then g task
           else do {
             got \<leftarrow> store_read (local_engine (wk_engine w) ops)
               (\<lambda>s. Store_GetRun (en_store (local_engine (wk_engine w) ops)) s (m_TaskID msg) (m_RunID msg));
             (case got of Inl err \<Rightarrow> h err | Inr run \<Rightarrow> execute_run (local_worker w ops) msg task run) }) Q"
    for r g h and f :: "StateErr \<Rightarrow> _"
    by (rule triple_fact) (auto simp: owns_def intro!: triple_bind [OF read_stands(2) [OF assms(1)] run])
  show ?thesis
    unfolding load_and_execute_def Let_def E by (rule triple_bind [OF read_stands(1) [OF assms(1)] task])
qed

lemma handle_runs:
  assumes "\<And>i. list_all (leaves_message msg) (ops i)" and "status \<in> {TaskStatusQueued, TaskStatusRunning}"
    and "\<And>task run. triple (stands msg (owns msg TaskStatusRunning) RunStatusRunning) (execute_run (local_worker w ops) msg task run) Q"
  shows "triple (stands msg (owns msg status) RunStatusQueued) (handleMessage (local_worker w ops) msg) Q"
proof -
  let ?E = "local_engine (wk_engine w) ops"
  have E: "wk_engine (local_worker w ops) = ?E" by (simp add: local_worker_def)
  have update: "triple (stands msg (owns msg status) RunStatusRunning)
      (update_task ?E (m_TaskID msg) (m_RunID msg) [TaskStatusQueued, TaskStatusRunning] TaskStatusRunning)
      (\<lambda>r st. stands msg (owns msg TaskStatusRunning) RunStatusRunning st \<and> r = None)"
    by (rule triple_post [OF update_stands [OF assms(1)]]) (use assms(2) in \<open>auto simp: owns_def\<close>)
  have load: "triple (\<lambda>st. stands msg (owns msg TaskStatusRunning) RunStatusRunning st \<and> r = None)
      (case r of Some err \<Rightarrow> g err | None \<Rightarrow> load_and_execute (local_worker w ops) msg) Q"
    for r and g :: "StateErr \<Rightarrow> _"
    using load_runs [OF assms(1,3)] by (intro triple_fact) simp
  have claimed: "triple (\<lambda>st. r = None \<and> stands msg (owns msg status) RunStatusRunning st)
      (case r of Some err \<Rightarrow> f err
       | None \<Rightarrow> do {
           taskErr \<leftarrow> update_task ?E (m_TaskID msg) (m_RunID msg) [TaskStatusQueued, TaskStatusRunning] TaskStatusRunning;
           (case taskErr of Some err \<Rightarrow> g err | None \<Rightarrow> load_and_execute (local_worker w ops) msg) }) Q"
    for r g and f :: "StateErr \<Rightarrow> _"
  proof (cases r)
    case None
    then show ?thesis by (simp add: triple_bind [OF update load])
  qed (simp add: triple_def)
  show ?thesis
    unfolding handleMessage_def Let_def E
    by (rule triple_bind [OF now_stands], rule triple_bind [OF claim_stands [OF assms(1)] claimed])
qed


lemma claim_refused:
  assumes "run_view (es_store st) (runKey (m_TaskID msg) (m_RunID msg)) = Some y" and "r_Status y \<noteq> RunStatusQueued"
    and "list_all (leaves_message msg) (ops (Suc (es_tick st)))"
  shows "run_state (handleMessage (local_worker w ops) msg) st =
     (None, st\<lparr>es_tick := es_tick st + 2, es_store := run_ops (ops (Suc (es_tick st))) (es_store st)\<rparr>)"
proof -
  have "list_all (leaves_run (runKey (m_TaskID msg) (m_RunID msg))) (ops (Suc (es_tick st)))"
    using assms(3) by (simp add: leaves_message_def list_all_iff)
  then have "run_view (run_ops (ops (Suc (es_tick st))) (es_store st)) (runKey (m_TaskID msg) (m_RunID msg)) = Some y"
    using run_left.inv_run [OF assms(1)] by (simp add: run_ops_def)
  then have "Store_ClaimRun memory_store now (run_ops (ops (Suc (es_tick st))) (es_store st)) (m_TaskID msg) (m_RunID msg)
      = (run_ops (ops (Suc (es_tick st))) (es_store st), Some ErrConflict)" for now
    using assms(2) by (simp add: memory_store_def ClaimRun_def run_view_def)
  then show ?thesis
    by (simp add: handleMessage_def local_worker_def local_engine_def run_store_call Let_def)
qed

text \<open>
  C19. Repeated deliveries are harmless: a message whose run is not queued any more is
  acknowledged; the worker calls neither the model nor a tool, pushes no event, and leaves the
  store to what the other clients do.
\<close>

theorem duplicate_delivery:
  assumes "run_view (es_store st) (runKey (m_TaskID msg) (m_RunID msg)) = Some y" and "r_Status y \<noteq> RunStatusQueued"
    and "list_all (leaves_message msg) (ops (Suc (es_tick st)))"
  shows "run_state (handleMessage (local_worker w ops) msg) st =
     (None, st\<lparr>es_tick := es_tick st + 2, es_store := run_ops (ops (Suc (es_tick st))) (es_store st)\<rparr>)"
  using assms by (rule claim_refused)

text \<open>Calls of the store and of the clock send nothing to the model.\<close>

lemma quiet_calls:
  "keeps (\<lambda>s. es_requests s = q) (time_Now e)"
  "keeps (\<lambda>s. es_requests s = q) (store_call e f)"
  "keeps (\<lambda>s. es_requests s = q) (complete_run e t r status)"
  "keeps (\<lambda>s. es_requests s = q) (update_task e t r from' to')"
  by (auto simp: triple_def run_store_call complete_run_def update_task_def Let_def split: prod.split)

lemma handle_superseded:
  assumes "\<And>i. list_all (leaves_message msg) (ops i)" and "\<And>x. P x \<Longrightarrow> t_ActiveRunID x \<noteq> m_RunID msg"
  shows "triple (\<lambda>s. stands msg P RunStatusQueued s \<and> es_requests s = q) (handleMessage (local_worker w ops) msg)
     (\<lambda>r s. r = None \<and> stands msg P RunStatusAborted s \<and> es_requests s = q)"
proof -
  let ?E = "local_engine (wk_engine w) ops"
  let ?S = "\<lambda>status s. stands msg P status s \<and> es_requests s = q"
  have E: "wk_engine (local_worker w ops) = ?E" by (simp add: local_worker_def)
  have complete: "triple (?S RunStatusRunning)
      (do { completeErr \<leftarrow> complete_run ?E (m_TaskID msg) (m_RunID msg) RunStatusAborted; ret None })
      (\<lambda>r s. r = None \<and> ?S RunStatusAborted s)"
    using triple_conj [OF complete_stands [OF assms(1)] quiet_calls(3)] by (rule triple_bind) (simp add: triple_def)
  have update: "triple (?S RunStatusRunning) (update_task ?E (m_TaskID msg) (m_RunID msg) from' to')
      (\<lambda>r s. ?S RunStatusRunning s \<and> r = Some ErrConflict)" for from' to'
    using triple_conj [OF update_superseded [OF assms] quiet_calls(4)] by (rule triple_post) simp_all
  have claim: "triple (?S RunStatusQueued) (store_call ?E (\<lambda>s. Store_ClaimRun (en_store ?E) now s (m_TaskID msg) (m_RunID msg)))
      (\<lambda>r s. ?S RunStatusRunning s \<and> r = None)" for now
    using triple_conj [OF claim_stands [OF assms(1)] quiet_calls(2)] by (rule triple_post) simp
  have now: "keeps (?S RunStatusQueued) (time_Now ?E)" by (rule triple_conj [OF now_stands quiet_calls(1)])
  show ?thesis
    unfolding handleMessage_def Let_def E
    by (rule triple_bind [OF now], rule triple_bind [OF claim], rule triple_fact, simp, rule triple_bind [OF update],
        rule triple_fact, simp add: complete)
qed


lemma execute_strands:
  assumes "\<And>i runID fs. wk_NewLocalManager w i runID fs = Inl err"
  shows "triple (stands msg P RunStatusRunning) (execute_run (local_worker w ops) msg task run)
     (\<lambda>r st. r = Some (''worker: create workspace: '' @ err) \<and> stands msg P RunStatusRunning st)"
  using assms by (auto simp: triple_def execute_run_def local_worker_def Let_def)

text \<open>
  C37. A failure to create the workspace strands the run: the first delivery is answered with
  an error so that the queue retries, but the run was claimed and stays RUNNING; the retry is
  acknowledged as a duplicate, so that the queue drops the message with run and task RUNNING.
\<close>

theorem workspace_failure_strands:
  assumes "task_view (es_store st) (m_TaskID msg) = Some x" and "t_ActiveRunID x = m_RunID msg"
    and "t_TenantID x = m_TenantID msg" and "t_Status x = TaskStatusQueued"
    and "run_view (es_store st) (runKey (m_TaskID msg) (m_RunID msg)) = Some y" and "r_Status y = RunStatusQueued"
    and "\<forall>i. list_all (leaves_message msg) (ops i)"
    and "\<forall>i runID fs. wk_NewLocalManager w i runID fs = Inl err"
    and "run_state (handleMessage (local_worker w ops) msg) st = (res1, st1)"
    and "run_state (handleMessage (local_worker w ops) msg) st1 = (res2, st2)"
  shows "res1 = Some (''worker: create workspace: '' @ err) \<and> res2 = None
     \<and> (\<exists>x2 y2. task_view (es_store st2) (m_TaskID msg) = Some x2 \<and> t_Status x2 = TaskStatusRunning
          \<and> run_view (es_store st2) (runKey (m_TaskID msg) (m_RunID msg)) = Some y2 \<and> r_Status y2 = RunStatusRunning)"
proof -
  have os: "\<And>i. list_all (leaves_message msg) (ops i)" using assms(7) by simp
  have "stands msg (owns msg TaskStatusQueued) RunStatusQueued st" using assms by (auto simp: stands_def owns_def)
  then have first: "res1 = Some (''worker: create workspace: '' @ err) \<and> stands msg (owns msg TaskStatusRunning) RunStatusRunning st1"
    using tripleD [OF handle_runs [where status = TaskStatusQueued, OF os _ execute_strands [where err = err]] _ assms(9)] assms(8) by simp
  then obtain y1 where "run_view (es_store st1) (runKey (m_TaskID msg) (m_RunID msg)) = Some y1" "r_Status y1 = RunStatusRunning"
    by (auto simp: stands_def)
  then have "res2 = None \<and> st2 = st1\<lparr>es_tick := es_tick st1 + 2, es_store := run_ops (ops (Suc (es_tick st1))) (es_store st1)\<rparr>"
    using claim_refused [of st1 msg y1 ops w] os assms(10) by simp
  moreover have "stands msg (owns msg TaskStatusRunning) RunStatusRunning (st1\<lparr>es_store := run_ops (ops (Suc (es_tick st1))) (es_store st1)\<rparr>)"
    using first os by (intro stands_others) simp_all
  ultimately show ?thesis using first by (auto simp: stands_def owns_def)
qed

section \<open>A concrete worker\<close>

definition sample_worker :: "(MemoryStore, blobs, unit) Worker" where
  "sample_worker = \<lparr>wk_engine = sample_engine, wk_NewFSTools = (\<lambda>_. []), wk_NewLocalManager = (\<lambda>_ _ _. Inr ()), wk_Cleanup = id\<rparr>"

definition worker_msg :: SQSMessage where
  "worker_msg = \<lparr>m_TenantID = ''acme'', m_TaskID = ''t1'', m_RunID = ''r1'', m_TaskType = [], m_SubmittedAt = 0, m_Attempt = 1,
     m_DedupeKey = [], m_EstimatedTokens = 0, m_EstimatedCost = 0\<rparr>"

definition queued_state :: "string \<Rightarrow> (MemoryStore, blobs, unit) EngineState" where
  "queued_state active = sample_state\<lparr>es_store := NewMemoryStore\<lparr>
     db_tasks := [(''t1'', sample_task\<lparr>t_Status := TaskStatusQueued, t_ActiveRunID := active\<rparr>)],
     db_runs := [(''t1#r1'', sample_run\<lparr>r_Status := RunStatusQueued\<rparr>)]\<rparr>\<rparr>"

lemma queued_views:
  "task_view (es_store (queued_state active)) (m_TaskID worker_msg) = Some (sample_task\<lparr>t_Status := TaskStatusQueued, t_ActiveRunID := active\<rparr>)"
  "run_view (es_store (queued_state active)) (runKey (m_TaskID worker_msg) (m_RunID worker_msg)) = Some (sample_run\<lparr>r_Status := RunStatusQueued\<rparr>)"
  by (simp_all add: queued_state_def worker_msg_def task_view_def run_view_def runKey_def)


theorem duplicate_delivery_witness:
  "fst (run_state (handleMessage (local_worker sample_worker (\<lambda>_. [])) worker_msg) sample_state) = None"
  using duplicate_delivery [of sample_state worker_msg sample_run "\<lambda>_. []" sample_worker]
  by (simp add: sample_state_def worker_msg_def sample_run_def run_view_def runKey_def)


theorem workspace_failure_strands_witness:
  "\<exists>res1 st1. run_state (handleMessage (local_worker (sample_worker\<lparr>wk_NewLocalManager := (\<lambda>_ _ _. Inl ''disk full'')\<rparr>) (\<lambda>_. []))
       worker_msg) (queued_state ''r1'') = (res1, st1) \<and> res1 = Some ''worker: create workspace: disk full''
     \<and> fst (run_state (handleMessage (local_worker (sample_worker\<lparr>wk_NewLocalManager := (\<lambda>_ _ _. Inl ''disk full'')\<rparr>) (\<lambda>_. []))
         worker_msg) st1) = None"
  (is "\<exists>res1 st1. run_state (handleMessage (local_worker ?w _) _) _ = _ \<and> _ \<and> _")
proof -
  obtain res1 st1 where first: "run_state (handleMessage (local_worker ?w (\<lambda>_. [])) worker_msg) (queued_state ''r1'') = (res1, st1)"
    by fastforce
  obtain res2 st2 where second: "run_state (handleMessage (local_worker ?w (\<lambda>_. [])) worker_msg) st1 = (res2, st2)" by fastforce
  show ?thesis
    using workspace_failure_strands [OF queued_views(1) _ _ _ queued_views(2) _ _ _ first second, of "''disk full''"] first second
    by (simp add: worker_msg_def sample_task_def)
qed

end
