(* ===== verification/Ops.thy ===== *)
theory Ops
  imports Engine TaskService
begin

text \<open>
  The operational tooling of \<open>internal/ops\<close>: recovery of stale runs (\<open>recovery.go\<close>), the
  consistency checker with its repairs (\<open>consistency.go\<close>) and the scheduler that runs both
  (\<open>scheduler.go\<close>), as programs over a store and a queue. Before each call of the store the
  other clients change it (\<open>oe_others\<close>); \<open>oe_ctxErr\<close> tells when the context is done.
\<close>

section \<open>State and environment\<close>

record ('s, 'q) OpsState =
  op_store :: 's
  op_queue :: 'q
  op_tick :: nat

record ('s, 'q) OpsEnv =
  oe_store :: "'s Store"
  oe_Enqueue :: "'q \<Rightarrow> SQSMessage \<Rightarrow> 'q \<times> string option"
  oe_clock :: clock
  oe_ctxErr :: "nat \<Rightarrow> string option"
  oe_others :: "'s interference"
  oe_env :: goenv
  oe_lib :: golib

type_synonym ('s, 'q, 'r) ops_prog = "(('s, 'q) OpsState, 'r) state"

definition op_step :: "('s, 'q, nat) ops_prog" where
  "op_step = State (\<lambda>st. (op_tick st, st\<lparr>op_tick := Suc (op_tick st)\<rparr>))"

definition op_Now :: "('s, 'q) OpsEnv \<Rightarrow> ('s, 'q, gotime) ops_prog" where
  "op_Now e = do { i \<leftarrow> op_step; ret (oe_clock e i) }"

definition ctx_Err :: "('s, 'q) OpsEnv \<Rightarrow> ('s, 'q, string option) ops_prog" where
  "ctx_Err e = do { i \<leftarrow> op_step; ret (oe_ctxErr e i) }"

definition op_call :: "('s, 'q) OpsEnv \<Rightarrow> ('s \<Rightarrow> 's \<times> 'r) \<Rightarrow> ('s, 'q, 'r) ops_prog" where
  "op_call e f = do {
     i \<leftarrow> op_step;
     State (\<lambda>st. let (s', r) = f (oe_others e i (op_store st)) in (r, st\<lparr>op_store := s'\<rparr>))
   }"

definition op_read :: "('s, 'q) OpsEnv \<Rightarrow> ('s \<Rightarrow> 'r) \<Rightarrow> ('s, 'q, 'r) ops_prog" where
  "op_read e f = op_call e (\<lambda>s. (s, f s))"

definition op_enqueue :: "('s, 'q) OpsEnv \<Rightarrow> SQSMessage \<Rightarrow> ('s, 'q, string option) ops_prog" where
  "op_enqueue e msg = State (\<lambda>st. let (q', err) = oe_Enqueue e (op_queue st) msg in (err, st\<lparr>op_queue := q'\<rparr>))"

section \<open>Recovery of stale runs\<close>

record RecoveryReport =
  rv_Scanned :: int64
  rv_Recovered :: int64
  rv_Skipped :: int64
  rv_Errors :: "string list"

definition isRunStale :: "Run \<Rightarrow> Task \<Rightarrow> gotime \<Rightarrow> duration \<Rightarrow> bool" where
  "isRunStale run taskObj now staleFor =
     (case r_Status run of
        RunStatusQueued \<Rightarrow>
          (case r_QueuedAt run of
             Some t \<Rightarrow> staleFor \<le> time_Sub now t
           | None \<Rightarrow> staleFor \<le> time_Sub now (t_UpdatedAt taskObj))
      | RunStatusRunning \<Rightarrow>
          (case r_StartedAt run of None \<Rightarrow> True | Some t \<Rightarrow> staleFor \<le> time_Sub now t)
      | _ \<Rightarrow> False)"

definition recovery_message :: "goenv \<Rightarrow> Task \<Rightarrow> Run \<Rightarrow> gotime \<Rightarrow> SQSMessage" where
  "recovery_message E taskObj run now =
     \<lparr>m_TenantID = r_TenantID run, m_TaskID = r_TaskID run, m_RunID = r_RunID run,
      m_TaskType = InferTaskType E (t_Prompt taskObj), m_SubmittedAt = time_Unix now, m_Attempt = 1,
      m_DedupeKey = r_TaskID run @ ''#'' @ r_RunID run,
      m_EstimatedTokens = fst (EstimateUsage E (t_Prompt taskObj) (r_ModelConfig run)),
      m_EstimatedCost = snd (EstimateUsage E (t_Prompt taskObj) (r_ModelConfig run))\<rparr>"

definition recovery_error :: "string \<Rightarrow> Run \<Rightarrow> string \<Rightarrow> RecoveryReport \<Rightarrow> RecoveryReport" where
  "recovery_error what run err out =
     out\<lparr>rv_Errors := rv_Errors out @ [what @ '' failed task='' @ r_TaskID run @ '' run='' @ r_RunID run @ '': '' @ err]\<rparr>"

definition any_task_status :: "TaskStatus list" where
  "any_task_status = [TaskStatusRunning, TaskStatusQueued, TaskStatusFailed, TaskStatusAborted, TaskStatusSucceeded]"

text \<open>One iteration; an early return carries the report so far and the context's error.\<close>

definition recover_run ::
  "('s, 'q) OpsEnv \<Rightarrow> gotime \<Rightarrow> duration \<Rightarrow> Run \<Rightarrow> RecoveryReport
   \<Rightarrow> ('s, 'q, (RecoveryReport \<times> string) + RecoveryReport) ops_prog" where
  "recover_run e now staleFor run out0 =
     (let out = out0\<lparr>rv_Scanned := add64 (rv_Scanned out0) 1\<rparr>
      in do {
        ctxErr \<leftarrow> ctx_Err e;
        (case ctxErr of
           Some err \<Rightarrow> ret (Inl (out, err))
         | None \<Rightarrow> do {
             got \<leftarrow> op_read e (\<lambda>s. Store_GetTask (oe_store e) s (r_TaskID run));
             (case got of
                Inl err \<Rightarrow> ret (Inr (recovery_error ''task lookup'' run (StateErr_Error err) out))
              | Inr taskObj \<Rightarrow>
                  if t_ActiveRunID taskObj \<noteq> r_RunID run then ret (Inr (out\<lparr>rv_Skipped := add64 (rv_Skipped out) 1\<rparr>))
                  else if \<not> isRunStale run taskObj now staleFor then ret (Inr (out\<lparr>rv_Skipped := add64 (rv_Skipped out) 1\<rparr>))
                  else do {
                    t1 \<leftarrow> op_Now e;
                    resetErr \<leftarrow> op_call e (\<lambda>s. Store_ResetRunToQueued (oe_store e) t1 s (r_TaskID run) (r_RunID run));
                    (case resetErr of
                       Some err \<Rightarrow> ret (Inr (recovery_error ''reset run'' run (StateErr_Error err) out))
                     | None \<Rightarrow> do {
                         t2 \<leftarrow> op_Now e;
                         ignored \<leftarrow> op_call e (\<lambda>s. Store_UpdateTaskStatusForRun (oe_store e) t2 s (r_TaskID run) (r_RunID run)
                           any_task_status TaskStatusQueued);
                         enqErr \<leftarrow> op_enqueue e (recovery_message (oe_env e) taskObj run now);
                         ret (Inr (case enqErr of
                             Some err \<Rightarrow> recovery_error ''requeue'' run err out
                           | None \<Rightarrow> out\<lparr>rv_Recovered := add64 (rv_Recovered out) 1\<rparr>)) }) }) }) })"

definition RecoverStaleRuns ::
  "('s, 'q) OpsEnv \<Rightarrow> string \<Rightarrow> duration \<Rightarrow> int64 \<Rightarrow> ('s, 'q, RecoveryReport option \<times> string option) ops_prog" where
  "RecoverStaleRuns e tenantID staleFor0 limit0 =
     (let staleFor = (if staleFor0 \<le> 0 then 10 * Minute else staleFor0);
          limit = (if limit0 \<le> 0 then 200 else limit0)
      in do {
        now \<leftarrow> op_Now e;
        got \<leftarrow> op_read e (\<lambda>s. Store_ListRuns (oe_store e) s tenantID [RunStatusRunning, RunStatusQueued] limit);
        (case got of
           Inl err \<Rightarrow> ret (None, Some (''ops: list runs: '' @ StateErr_Error err))
         | Inr runs \<Rightarrow> do {
             r \<leftarrow> fold_attempt (recover_run e now staleFor) runs \<lparr>rv_Scanned = 0, rv_Recovered = 0, rv_Skipped = 0, rv_Errors = []\<rparr>;
             ret (case r of Inl (out, err) \<Rightarrow> (Some out, Some err) | Inr out \<Rightarrow> (Some out, None)) }) })"

section \<open>The consistency checker\<close>

definition IssueMissingActiveRun :: string where
  "IssueMissingActiveRun = ''missing_active_run''"

definition IssueTaskRunStatusMismatch :: string where
  "IssueTaskRunStatusMismatch = ''task_run_status_mismatch''"

definition IssueRunLastStepDrift :: string where
  "IssueRunLastStepDrift = ''run_last_step_drift''"

record DriftIssue =
  di_Type :: string
  di_TenantID :: string
  di_TaskID :: string
  di_RunID :: string
  di_Detail :: string

record CheckReport =
  ck_ScannedTasks :: int64
  ck_ScannedRuns :: int64
  ck_Issues :: "DriftIssue list"

record RepairReport =
  rep_Requested :: int64
  rep_Applied :: int64
  rep_Failed :: int64
  rep_Errors :: "string list"

definition mismatch_text :: "TaskStatus \<Rightarrow> RunStatus \<Rightarrow> string" where
  "mismatch_text taskStatus runStatus = ''task='' @ TaskStatus_str taskStatus @ '' run='' @ RunStatus_str runStatus"

definition taskRunStatusMismatch :: "TaskStatus \<Rightarrow> RunStatus \<Rightarrow> string" where
  "taskRunStatusMismatch taskStatus runStatus =
     (case runStatus of
        RunStatusQueued \<Rightarrow> if taskStatus \<noteq> TaskStatusQueued then mismatch_text taskStatus runStatus else []
      | RunStatusRunning \<Rightarrow> if taskStatus \<noteq> TaskStatusRunning then mismatch_text taskStatus runStatus else []
      | RunStatusSucceeded \<Rightarrow> if taskStatus \<noteq> TaskStatusSucceeded then mismatch_text taskStatus runStatus else []
      | RunStatusFailed \<Rightarrow> if taskStatus \<noteq> TaskStatusFailed then mismatch_text taskStatus runStatus else []
      | RunStatusAborted \<Rightarrow> if taskStatus \<noteq> TaskStatusAborted then mismatch_text taskStatus runStatus else [])"

fun mapRunToTaskStatus :: "RunStatus \<Rightarrow> TaskStatus" where
  "mapRunToTaskStatus RunStatusQueued = TaskStatusQueued"
| "mapRunToTaskStatus RunStatusRunning = TaskStatusRunning"
| "mapRunToTaskStatus RunStatusSucceeded = TaskStatusSucceeded"
| "mapRunToTaskStatus RunStatusFailed = TaskStatusFailed"
| "mapRunToTaskStatus RunStatusAborted = TaskStatusAborted"

definition add_issue :: "DriftIssue \<Rightarrow> CheckReport \<Rightarrow> CheckReport" where
  "add_issue i report = report\<lparr>ck_Issues := ck_Issues report @ [i]\<rparr>"

definition check_task ::
  "('s, 'q) OpsEnv \<Rightarrow> (string, Run) gomap \<Rightarrow> Task \<Rightarrow> CheckReport
   \<Rightarrow> ('s, 'q, (CheckReport \<times> string) + CheckReport) ops_prog" where
  "check_task e runByTaskRun taskObj report = do {
     ctxErr \<leftarrow> ctx_Err e;
     ret (case ctxErr of
         Some err \<Rightarrow> Inl (report, err)
       | None \<Rightarrow>
           (case gm_get runByTaskRun (t_TaskID taskObj @ ''#'' @ t_ActiveRunID taskObj) of
              None \<Rightarrow> Inr (add_issue \<lparr>di_Type = IssueMissingActiveRun, di_TenantID = t_TenantID taskObj, di_TaskID = t_TaskID taskObj,
                 di_RunID = t_ActiveRunID taskObj, di_Detail = ''task.active_run_id does not exist''\<rparr> report)
            | Some activeRun \<Rightarrow>
                let mismatch = taskRunStatusMismatch (t_Status taskObj) (r_Status activeRun)
                in if mismatch \<noteq> []
                   then Inr (add_issue \<lparr>di_Type = IssueTaskRunStatusMismatch, di_TenantID = t_TenantID taskObj, di_TaskID = t_TaskID taskObj,
                     di_RunID = r_RunID activeRun, di_Detail = mismatch\<rparr> report)
                   else Inr report)) }"

definition drift_detail :: "int64 \<Rightarrow> int64 \<Rightarrow> string" where
  "drift_detail lastStep maxStep = ''run.last_step_index='' @ fmt_d lastStep @ '' expected='' @ fmt_d maxStep"

definition max_step :: "Step list \<Rightarrow> int64" where
  "max_step steps = fold (\<lambda>step maxStep. if maxStep < s_StepIndex step then s_StepIndex step else maxStep) steps (- 1)"

definition check_run ::
  "('s, 'q) OpsEnv \<Rightarrow> Run \<Rightarrow> CheckReport \<Rightarrow> ('s, 'q, (CheckReport \<times> string) + CheckReport) ops_prog" where
  "check_run e run report = do {
     ctxErr \<leftarrow> ctx_Err e;
     (case ctxErr of
        Some err \<Rightarrow> ret (Inl (report, err))
      | None \<Rightarrow> do {
          got \<leftarrow> op_read e (\<lambda>s. Store_ListSteps (oe_store e) s (r_RunID run) 0 100000);
          ret (case got of
              Inl err \<Rightarrow> Inr report
            | Inr steps \<Rightarrow>
                let maxStep = max_step steps
                in if 0 \<le> maxStep \<and> r_LastStepIndex run \<noteq> maxStep
                   then Inr (add_issue \<lparr>di_Type = IssueRunLastStepDrift, di_TenantID = r_TenantID run, di_TaskID = r_TaskID run,
                     di_RunID = r_RunID run, di_Detail = drift_detail (r_LastStepIndex run) maxStep\<rparr> report)
                   else Inr report) }) }"

definition Check ::
  "('s, 'q) OpsEnv \<Rightarrow> string \<Rightarrow> int64 \<Rightarrow> ('s, 'q, CheckReport option \<times> string option) ops_prog" where
  "Check e tenantID limit0 =
     (let limit = (if limit0 \<le> 0 then 500 else limit0)
      in do {
        gotTasks \<leftarrow> op_read e (\<lambda>s. Store_ListTasks (oe_store e) s tenantID [] limit);
        (case gotTasks of
           Inl err \<Rightarrow> ret (None, Some (''ops: list tasks: '' @ StateErr_Error err))
         | Inr tasks \<Rightarrow> do {
             gotRuns \<leftarrow> op_read e (\<lambda>s. Store_ListRuns (oe_store e) s tenantID [] (mul64 limit 4));
             (case gotRuns of
                Inl err \<Rightarrow> ret (None, Some (''ops: list runs: '' @ StateErr_Error err))
              | Inr runs \<Rightarrow>
                  let report = \<lparr>ck_ScannedTasks = int (length tasks), ck_ScannedRuns = int (length runs), ck_Issues = []\<rparr>;
                      runByTaskRun = fold (\<lambda>run. gm_put (r_TaskID run @ ''#'' @ r_RunID run) run) runs []
                  in do {
                    r \<leftarrow> attempt (fold_attempt (check_task e runByTaskRun) tasks report)
                      (\<lambda>report1. fold_attempt (check_run e) runs report1);
                    ret (case r of Inl (out, err) \<Rightarrow> (Some out, Some err) | Inr out \<Rightarrow> (Some out, None)) }) }) })"

section \<open>Repairs\<close>

definition atoi_error :: "golib \<Rightarrow> string \<Rightarrow> string" where
  "atoi_error L s =
     ''strconv.Atoi: parsing '' @ lib_Quote L s @
     (if parse_digits (case s of [] \<Rightarrow> [] | c # cs \<Rightarrow> if c = CHR ''-'' \<or> c = CHR ''+'' then cs else s) = None
      then '': invalid syntax'' else '': value out of range'')"

definition parseExpectedFromDetail :: "golib \<Rightarrow> string \<Rightarrow> string + int64" where
  "parseExpectedFromDetail L detail =
     (let parts = Split detail ''expected=''
      in if length parts \<noteq> 2 then Inl (''invalid detail: '' @ lib_Quote L detail)
         else let text = TrimSpace (parts ! 1)
              in case Atoi text of None \<Rightarrow> Inl (atoi_error L text) | Some n \<Rightarrow> Inr n)"

definition every_task_status :: "TaskStatus list" where
  "every_task_status = [TaskStatusQueued, TaskStatusRunning, TaskStatusSucceeded, TaskStatusFailed, TaskStatusAborted]"

definition repairTaskRunStatus :: "('s, 'q) OpsEnv \<Rightarrow> DriftIssue \<Rightarrow> ('s, 'q, string option) ops_prog" where
  "repairTaskRunStatus e issue = do {
     got \<leftarrow> op_read e (\<lambda>s. Store_GetRun (oe_store e) s (di_TaskID issue) (di_RunID issue));
     (case got of
        Inl err \<Rightarrow> ret (Some (StateErr_Error err))
      | Inr run \<Rightarrow> do {
          now \<leftarrow> op_Now e;
          err \<leftarrow> op_call e (\<lambda>s. Store_UpdateTaskStatusForRun (oe_store e) now s (di_TaskID issue) (di_RunID issue)
            every_task_status (mapRunToTaskStatus (r_Status run)));
          ret (map_option StateErr_Error err) }) }"

definition repairLastStep :: "('s, 'q) OpsEnv \<Rightarrow> DriftIssue \<Rightarrow> ('s, 'q, string option) ops_prog" where
  "repairLastStep e issue =
     (case parseExpectedFromDetail (oe_lib e) (di_Detail issue) of
        Inl err \<Rightarrow> ret (Some err)
      | Inr want \<Rightarrow> do {
          err \<leftarrow> op_call e (\<lambda>s. Store_UpdateLastStepIndex (oe_store e) s (di_TaskID issue) (di_RunID issue) want);
          ret (map_option StateErr_Error err) })"

definition repairMissingActiveRun :: "('s, 'q) OpsEnv \<Rightarrow> DriftIssue \<Rightarrow> ('s, 'q, string option) ops_prog" where
  "repairMissingActiveRun e issue = do {
     now \<leftarrow> op_Now e;
     err \<leftarrow> op_call e (\<lambda>s. Store_UpdateTaskStatus (oe_store e) now s (di_TaskID issue) every_task_status TaskStatusFailed);
     ret (map_option StateErr_Error err) }"

definition repair_issue :: "('s, 'q) OpsEnv \<Rightarrow> DriftIssue \<Rightarrow> ('s, 'q, string option) ops_prog" where
  "repair_issue e issue =
     (if di_Type issue = IssueTaskRunStatusMismatch then repairTaskRunStatus e issue
      else if di_Type issue = IssueRunLastStepDrift then repairLastStep e issue
      else if di_Type issue = IssueMissingActiveRun then repairMissingActiveRun e issue
      else ret (Some (''unsupported issue type: '' @ di_Type issue)))"

definition repair_one ::
  "('s, 'q) OpsEnv \<Rightarrow> DriftIssue \<Rightarrow> RepairReport \<Rightarrow> ('s, 'q, (RepairReport \<times> string) + RepairReport) ops_prog" where
  "repair_one e issue report = do {
     ctxErr \<leftarrow> ctx_Err e;
     (case ctxErr of
        Some err \<Rightarrow> ret (Inl (report, err))
      | None \<Rightarrow> do {
          failure \<leftarrow> repair_issue e issue;
          ret (Inr (case failure of
              Some err \<Rightarrow> report\<lparr>rep_Failed := add64 (rep_Failed report) 1, rep_Errors := rep_Errors report @
                [di_Type issue @ '' task='' @ di_TaskID issue @ '' run='' @ di_RunID issue @ '': '' @ err]\<rparr>
            | None \<Rightarrow> report\<lparr>rep_Applied := add64 (rep_Applied report) 1\<rparr>)) }) }"

definition Repair :: "('s, 'q) OpsEnv \<Rightarrow> DriftIssue list \<Rightarrow> ('s, 'q, RepairReport \<times> string option) ops_prog" where
  "Repair e issues = do {
     r \<leftarrow> fold_attempt (repair_one e) issues \<lparr>rep_Requested = int (length issues), rep_Applied = 0, rep_Failed = 0, rep_Errors = []\<rparr>;
     ret (case r of Inl (out, err) \<Rightarrow> (out, Some err) | Inr out \<Rightarrow> (out, None)) }"

section \<open>The scheduler\<close>

record SchedulerConfig =
  sc_Interval :: duration
  sc_StaleFor :: duration
  sc_Limit :: int64
  sc_TenantID :: string
  sc_ConsistencyCheck :: bool
  sc_ConsistencyRepair :: bool
  sc_EventCompactionEnabled :: bool
  sc_EventCompactionWindow :: duration

record EventCompactionReport =
  ec_BeforeTS :: int64
  ec_RunsScanned :: int64
  ec_RunsCompacted :: int64
  ec_EventsRemoved :: int64
  ec_Errors :: "string list"

record SchedulerReport =
  sr_Timestamp :: gotime
  sr_TenantID :: string
  sr_DurationMS :: int64
  sr_Recovery :: "RecoveryReport option"
  sr_Consistency :: "CheckReport option"
  sr_Repair :: "RepairReport option"
  sr_EventCompaction :: "EventCompactionReport option"
  sr_Error :: string

definition normalizeSchedulerConfig :: "SchedulerConfig \<Rightarrow> SchedulerConfig" where
  "normalizeSchedulerConfig cfg =
     cfg\<lparr>sc_StaleFor := (if sc_StaleFor cfg \<le> 0 then 10 * Minute else sc_StaleFor cfg),
         sc_Limit := (if sc_Limit cfg \<le> 0 then 200 else sc_Limit cfg),
         sc_EventCompactionWindow := (if sc_EventCompactionWindow cfg \<le> 0 then 24 * Hour else sc_EventCompactionWindow cfg)\<rparr>"

definition compact_run ::
  "('s, 'q) OpsEnv \<Rightarrow> int64 \<Rightarrow> Run \<Rightarrow> EventCompactionReport \<Rightarrow> ('s, 'q, string + EventCompactionReport) ops_prog" where
  "compact_run e cutoff run report =
     (case r_EndedAt run of
        None \<Rightarrow> ret (Inr report)
      | Some endedAt \<Rightarrow>
          if cutoff < time_Unix endedAt then ret (Inr report)
          else do {
            got \<leftarrow> op_call e (\<lambda>s. Store_CompactEvents (oe_store e) s (r_TaskID run) (r_RunID run) cutoff);
            ret (Inr (case got of
                Inl err \<Rightarrow> report\<lparr>ec_Errors := ec_Errors report @
                  [''task='' @ r_TaskID run @ '' run='' @ r_RunID run @ '': '' @ StateErr_Error err]\<rparr>
              | Inr removed \<Rightarrow> report\<lparr>ec_RunsCompacted := add64 (ec_RunsCompacted report) 1,
                  ec_EventsRemoved := add64 (ec_EventsRemoved report) removed\<rparr>)) })"

definition compactRunEvents ::
  "('s, 'q) OpsEnv \<Rightarrow> SchedulerConfig \<Rightarrow> ('s, 'q, string + EventCompactionReport) ops_prog" where
  "compactRunEvents e cfg = do {
     now \<leftarrow> op_Now e;
     (let cutoff = time_Unix (time_Add now (sub64 0 (sc_EventCompactionWindow cfg)))
      in do {
        got \<leftarrow> op_read e (\<lambda>s. Store_ListRuns (oe_store e) s (sc_TenantID cfg)
          [RunStatusSucceeded, RunStatusFailed, RunStatusAborted] (sc_Limit cfg));
        (case got of
           Inl err \<Rightarrow> ret (Inl (''list runs for compaction: '' @ StateErr_Error err))
         | Inr runs \<Rightarrow> fold_attempt (compact_run e cutoff) runs
             \<lparr>ec_BeforeTS = cutoff, ec_RunsScanned = int (length runs), ec_RunsCompacted = 0, ec_EventsRemoved = 0, ec_Errors = []\<rparr>) }) }"

text \<open>The end of a pass: the duration is filled in, and the error of the pass if there is one.\<close>

definition end_pass ::
  "('s, 'q) OpsEnv \<Rightarrow> SchedulerReport \<Rightarrow> string option \<Rightarrow> ('s, 'q, SchedulerReport \<times> string option) ops_prog" where
  "end_pass e report err = do {
     now \<leftarrow> op_Now e;
     ret (report\<lparr>sr_DurationMS := Milliseconds (time_Sub now (sr_Timestamp report)),
                 sr_Error := (case err of None \<Rightarrow> sr_Error report | Some x \<Rightarrow> x)\<rparr>, err) }"

definition pass_compaction ::
  "('s, 'q) OpsEnv \<Rightarrow> SchedulerConfig \<Rightarrow> SchedulerReport \<Rightarrow> ('s, 'q, SchedulerReport \<times> string option) ops_prog" where
  "pass_compaction e cfg report =
     (if sc_EventCompactionEnabled cfg
      then do {
        got \<leftarrow> compactRunEvents e cfg;
        (case got of
           Inl err \<Rightarrow> end_pass e report (Some err)
         | Inr compaction \<Rightarrow> end_pass e (report\<lparr>sr_EventCompaction := Some compaction\<rparr>) None) }
      else end_pass e report None)"

definition pass_check ::
  "('s, 'q) OpsEnv \<Rightarrow> SchedulerConfig \<Rightarrow> SchedulerReport \<Rightarrow> ('s, 'q, SchedulerReport \<times> string option) ops_prog" where
  "pass_check e cfg report =
     (if sc_ConsistencyCheck cfg
      then do {
        got \<leftarrow> Check e (sc_TenantID cfg) (sc_Limit cfg);
        (case got of
           (check, Some err) \<Rightarrow> end_pass e report (Some err)
         | (check, None) \<Rightarrow>
             let report1 = report\<lparr>sr_Consistency := check\<rparr>;
                 issues = (case check of None \<Rightarrow> [] | Some c \<Rightarrow> ck_Issues c)
             in if sc_ConsistencyRepair cfg \<and> issues \<noteq> []
                then do {
                  repaired \<leftarrow> Repair e issues;
                  (case repaired of
                     (repair, Some err) \<Rightarrow> end_pass e report1 (Some err)
                   | (repair, None) \<Rightarrow> pass_compaction e cfg (report1\<lparr>sr_Repair := Some repair\<rparr>)) }
                else pass_compaction e cfg report1) }
      else pass_compaction e cfg report)"

definition RunOnce ::
  "('s, 'q) OpsEnv \<Rightarrow> SchedulerConfig \<Rightarrow> ('s, 'q, SchedulerReport \<times> string option) ops_prog" where
  "RunOnce e cfg = do {
     start \<leftarrow> op_Now e;
     (let report = \<lparr>sr_Timestamp = start, sr_TenantID = sc_TenantID cfg, sr_DurationMS = 0, sr_Recovery = None,
            sr_Consistency = None, sr_Repair = None, sr_EventCompaction = None, sr_Error = []\<rparr>
      in do {
        got \<leftarrow> RecoverStaleRuns e (sc_TenantID cfg) (sc_StaleFor cfg) (sc_Limit cfg);
        (case got of
           (recovery, Some err) \<Rightarrow> end_pass e report (Some err)
         | (recovery, None) \<Rightarrow> pass_check e cfg (report\<lparr>sr_Recovery := recovery\<rparr>)) }) }"

text \<open>
  \<open>Start\<close>: one pass at once, then one per tick of the ticker until the context is done; \<open>n\<close>
  is the number of ticks before that. The value is what is logged.
\<close>

fun ticker_passes ::
  "('s, 'q) OpsEnv \<Rightarrow> SchedulerConfig \<Rightarrow> nat \<Rightarrow> ('s, 'q, (SchedulerReport \<times> string option) list) ops_prog" where
  "ticker_passes e cfg 0 = ret []"
| "ticker_passes e cfg (Suc n) = do { r \<leftarrow> RunOnce e cfg; rs \<leftarrow> ticker_passes e cfg n; ret (r # rs) }"

definition Scheduler_Start ::
  "('s, 'q) OpsEnv \<Rightarrow> SchedulerConfig \<Rightarrow> nat \<Rightarrow> ('s, 'q, (SchedulerReport \<times> string option) list) ops_prog" where
  "Scheduler_Start e cfg n = do {
     r \<leftarrow> RunOnce e cfg;
     rs \<leftarrow> ticker_passes e cfg (if sc_Interval cfg \<le> 0 then 0 else n);
     ret (r # rs) }"

end
