(* ===== verification/OpsProps.thy ===== *)
theory OpsProps
  imports Ops StateProps
begin

text \<open>
  Properties of the operational tooling over the in-memory store: the consistency check decides
  a declarative notion of consistency when its listings are complete, and raises false alarms
  when they are not; repairs remove the drifts they are meant for; recovery requeues exactly
  the stale active runs it scans.
\<close>

section \<open>Passes without interference\<close>

text \<open>The environment on the in-memory store, with no other client and a live context.\<close>

definition quiet :: "(MemoryStore, 'q) OpsEnv \<Rightarrow> (MemoryStore, 'q) OpsEnv" where
  "quiet e = e\<lparr>oe_store := memory_store, oe_others := (\<lambda>_ s. s), oe_ctxErr := (\<lambda>_. None)\<rparr>"

lemma run_op_step [simp]: "run_state op_step st = (op_tick st, st\<lparr>op_tick := Suc (op_tick st)\<rparr>)"
  by (simp add: op_step_def)

lemma run_op_Now [simp]: "run_state (op_Now e) st = (oe_clock e (op_tick st), st\<lparr>op_tick := Suc (op_tick st)\<rparr>)"
  by (simp add: op_Now_def)

lemma run_ctx_Err [simp]: "run_state (ctx_Err e) st = (oe_ctxErr e (op_tick st), st\<lparr>op_tick := Suc (op_tick st)\<rparr>)"
  by (simp add: ctx_Err_def)

lemma run_op_call:
  "run_state (op_call e f) st =
     (let (s', r) = f (oe_others e (op_tick st) (op_store st)) in (r, st\<lparr>op_tick := Suc (op_tick st), op_store := s'\<rparr>))"
  by (simp add: op_call_def Let_def split: prod.split)

lemma run_op_read:
  "run_state (op_read e f) st =
     (f (oe_others e (op_tick st) (op_store st)),
      st\<lparr>op_tick := Suc (op_tick st), op_store := oe_others e (op_tick st) (op_store st)\<rparr>)"
  by (simp add: op_read_def run_op_call)

lemma run_op_enqueue:
  "run_state (op_enqueue e msg) st = (let (q', err) = oe_Enqueue e (op_queue st) msg in (err, st\<lparr>op_queue := q'\<rparr>))"
  by (simp add: op_enqueue_def)

lemma quiet_simps [simp]:
  "oe_store (quiet e) = memory_store" "oe_others (quiet e) i s = s" "oe_ctxErr (quiet e) i = None"
  "oe_Enqueue (quiet e) = oe_Enqueue e" "oe_clock (quiet e) = oe_clock e" "oe_env (quiet e) = oe_env e" "oe_lib (quiet e) = oe_lib e"
  by (simp_all add: quiet_def)

lemmas ops_runs = run_op_call run_op_read run_op_enqueue Let_def

text \<open>A loop whose body computes a function and keeps an invariant.\<close>

lemma fold_attempt_pure:
  assumes "\<And>x b st. I st \<Longrightarrow> \<exists>st'. run_state (f x b) st = (Inr (g x b), st') \<and> I st'" and "I st"
  shows "\<exists>st'. run_state (fold_attempt f xs b) st = (Inr (fold g xs b), st') \<and> I st'"
  using assms(2)
proof (induction xs arbitrary: b st)
  case (Cons x xs)
  obtain st1 where "run_state (f x b) st = (Inr (g x b), st1)" "I st1" using assms(1) [OF Cons.prems] by blast
  moreover obtain st2 where "run_state (fold_attempt f xs (g x b)) st1 = (Inr (fold g xs (g x b)), st2)" "I st2"
    using Cons.IH [OF \<open>I st1\<close>] by blast
  ultimately show ?case by simp
qed simp

section \<open>What a check reports\<close>

definition task_issues :: "(string, Run) gomap \<Rightarrow> Task \<Rightarrow> DriftIssue list" where
  "task_issues m x =
     (case gm_get m (runKey (t_TaskID x) (t_ActiveRunID x)) of
        None \<Rightarrow> [\<lparr>di_Type = IssueMissingActiveRun, di_TenantID = t_TenantID x, di_TaskID = t_TaskID x,
                  di_RunID = t_ActiveRunID x, di_Detail = ''task.active_run_id does not exist''\<rparr>]
      | Some y \<Rightarrow> if t_Status x = mapRunToTaskStatus (r_Status y) then []
                  else [\<lparr>di_Type = IssueTaskRunStatusMismatch, di_TenantID = t_TenantID x, di_TaskID = t_TaskID x,
                         di_RunID = r_RunID y, di_Detail = mismatch_text (t_Status x) (r_Status y)\<rparr>])"

definition listed_steps :: "MemoryStore \<Rightarrow> string \<Rightarrow> Step list" where
  "listed_steps s runID = (case ListSteps s runID 0 100000 of Inr zs \<Rightarrow> zs | Inl _ \<Rightarrow> [])"

definition run_issues :: "MemoryStore \<Rightarrow> Run \<Rightarrow> DriftIssue list" where
  "run_issues s y =
     (let m = max_step (listed_steps s (r_RunID y))
      in if 0 \<le> m \<and> r_LastStepIndex y \<noteq> m
         then [\<lparr>di_Type = IssueRunLastStepDrift, di_TenantID = r_TenantID y, di_TaskID = r_TaskID y, di_RunID = r_RunID y,
                di_Detail = drift_detail (r_LastStepIndex y) m\<rparr>] else [])"

definition the_tasks :: "MemoryStore \<Rightarrow> string \<Rightarrow> int64 \<Rightarrow> Task list" where
  "the_tasks s tenantID limit = (case ListTasks s tenantID [] limit of Inr ts \<Rightarrow> ts | Inl _ \<Rightarrow> [])"

definition the_runs :: "MemoryStore \<Rightarrow> string \<Rightarrow> int64 \<Rightarrow> Run list" where
  "the_runs s tenantID limit = (case ListRuns s tenantID [] limit of Inr rs \<Rightarrow> rs | Inl _ \<Rightarrow> [])"

definition run_index :: "Run list \<Rightarrow> (string, Run) gomap" where
  "run_index runs = fold (\<lambda>run. gm_put (runKey (r_TaskID run) (r_RunID run)) run) runs []"

definition report_of :: "MemoryStore \<Rightarrow> string \<Rightarrow> int64 \<Rightarrow> CheckReport" where
  "report_of s tenantID limit =
     (let tasks = the_tasks s tenantID limit; runs = the_runs s tenantID (mul64 limit 4)
      in \<lparr>ck_ScannedTasks = int (length tasks), ck_ScannedRuns = int (length runs),
          ck_Issues = concat (map (task_issues (run_index runs)) tasks) @ concat (map (run_issues s) runs)\<rparr>)"

lemma mismatch_empty: "taskRunStatusMismatch ts rs = (if ts = mapRunToTaskStatus rs then [] else mismatch_text ts rs)"
  by (cases rs) (auto simp: taskRunStatusMismatch_def)

lemma mismatch_text_nonempty [simp]: "mismatch_text ts rs \<noteq> []"
  by (simp add: mismatch_text_def)

lemma check_task_pure:
  "run_state (check_task (quiet e) m x report) st =
     (Inr (report\<lparr>ck_Issues := ck_Issues report @ task_issues m x\<rparr>), st\<lparr>op_tick := Suc (op_tick st)\<rparr>)"
  by (simp add: check_task_def task_issues_def mismatch_empty add_issue_def runKey_def Let_def split: option.split)

lemma check_run_pure:
  "run_state (check_run (quiet e) y report) st =
     (Inr (report\<lparr>ck_Issues := ck_Issues report @ run_issues (op_store st) y\<rparr>), st\<lparr>op_tick := Suc (Suc (op_tick st))\<rparr>)"
  by (simp add: check_run_def run_issues_def run_op_read add_issue_def listed_steps_def memory_store_def ListSteps_def Let_def)

lemma fold_issues:
  "fold (\<lambda>x report. report\<lparr>ck_Issues := ck_Issues report @ f x\<rparr>) xs report
     = report\<lparr>ck_Issues := ck_Issues report @ concat (map f xs)\<rparr>"
  by (induction xs arbitrary: report) simp_all

lemma Check_pure:
  assumes "0 < limit"
  shows "\<exists>st'. run_state (Check (quiet e) tenantID limit) st = ((Some (report_of (op_store st) tenantID limit), None), st')
     \<and> op_store st' = op_store st \<and> op_queue st' = op_queue st"
proof -
  let ?s = "op_store st"
  let ?I = "\<lambda>st'. op_store st' = op_store st \<and> op_queue st' = op_queue st"
  let ?ts = "the_tasks ?s tenantID limit" and ?rs = "the_runs ?s tenantID (mul64 limit 4)"
  let ?r0 = "\<lparr>ck_ScannedTasks = int (length ?ts), ck_ScannedRuns = int (length ?rs), ck_Issues = []\<rparr>"
  let ?st = "st\<lparr>op_tick := Suc (Suc (op_tick st))\<rparr>"
  obtain st1 where tasks: "run_state (fold_attempt (check_task (quiet e) (run_index ?rs)) ?ts ?r0) ?st =
      (Inr (?r0\<lparr>ck_Issues := concat (map (task_issues (run_index ?rs)) ?ts)\<rparr>), st1)" "?I st1"
    using fold_attempt_pure [where I = ?I and f = "check_task (quiet e) (run_index ?rs)" and st = ?st and xs = ?ts and b = ?r0
        and g = "\<lambda>x report. report\<lparr>ck_Issues := ck_Issues report @ task_issues (run_index ?rs) x\<rparr>"]
    by (auto simp: check_task_pure fold_issues)
  obtain st2 where runs: "run_state (fold_attempt (check_run (quiet e)) ?rs (?r0\<lparr>ck_Issues := concat (map (task_issues (run_index ?rs)) ?ts)\<rparr>)) st1 =
      (Inr (report_of ?s tenantID limit), st2)" "?I st2"
    using fold_attempt_pure [where I = ?I and f = "check_run (quiet e)" and st = st1 and xs = ?rs
        and b = "?r0\<lparr>ck_Issues := concat (map (task_issues (run_index ?rs)) ?ts)\<rparr>"
        and g = "\<lambda>y report. report\<lparr>ck_Issues := ck_Issues report @ run_issues ?s y\<rparr>"] tasks(2)
    by (auto simp: check_run_pure fold_issues report_of_def Let_def)
  have reads: "ListTasks ?s tenantID [] limit = Inr ?ts" "ListRuns ?s tenantID [] (mul64 limit 4) = Inr ?rs"
    by (simp_all add: the_tasks_def the_runs_def ListTasks_def ListRuns_def)
  have "run_state (Check (quiet e) tenantID limit) st = ((Some (report_of ?s tenantID limit), None), st2)"
    using assms tasks(1) runs(1) reads
    by (simp add: Check_def run_op_read memory_store_def run_index_def runKey_def)
  then show ?thesis using runs(2) by blast
qed

section \<open>Consistency\<close>

definition of_tenant :: "string \<Rightarrow> string \<Rightarrow> bool" where
  "of_tenant tenantID t \<longleftrightarrow> tenantID = [] \<or> t = tenantID"

definition steps_fit :: "MemoryStore \<Rightarrow> Run \<Rightarrow> bool" where
  "steps_fit s y \<longleftrightarrow>
     (\<forall>i z. 0 \<le> i \<and> step_view s (stepKey (r_RunID y) i) = Some z \<longrightarrow>
        i \<le> r_LastStepIndex y \<and> step_view s (stepKey (r_RunID y) (r_LastStepIndex y)) \<noteq> None)"

text \<open>
  What a tenant's state should satisfy: the active run of each task exists and has the status of
  the task, and the last step index of a run is the greatest index of its stored steps.
\<close>

definition consistent :: "MemoryStore \<Rightarrow> string \<Rightarrow> bool" where
  "consistent s tenantID \<longleftrightarrow>
     (\<forall>t x. task_view s t = Some x \<and> of_tenant tenantID (t_TenantID x) \<longrightarrow>
        (\<exists>y. run_view s (runKey t (t_ActiveRunID x)) = Some y \<and> of_tenant tenantID (r_TenantID y)
           \<and> t_Status x = mapRunToTaskStatus (r_Status y)))
     \<and> (\<forall>k y. run_view s k = Some y \<and> of_tenant tenantID (r_TenantID y) \<longrightarrow>
          steps_fit s y)"

lemma max_step_spec:
  "z \<in> set zs \<Longrightarrow> s_StepIndex z \<le> max_step zs"
  "max_step zs = - 1 \<or> max_step zs \<in> s_StepIndex ` set zs"
  "- 1 \<le> max_step zs"
proof -
  have fold: "(\<forall>z \<in> set zs. s_StepIndex z \<le> fold (\<lambda>z m. if m < s_StepIndex z then s_StepIndex z else m) zs m)
      \<and> m \<le> fold (\<lambda>z m. if m < s_StepIndex z then s_StepIndex z else m) zs m
      \<and> (fold (\<lambda>z m. if m < s_StepIndex z then s_StepIndex z else m) zs m = m
         \<or> fold (\<lambda>z m. if m < s_StepIndex z then s_StepIndex z else m) zs m \<in> s_StepIndex ` set zs)" for m
  proof (induction zs arbitrary: m)
    case (Cons z zs)
    show ?case using Cons.IH [of "if m < s_StepIndex z then s_StepIndex z else m"] by (auto split: if_splits)
  qed simp
  show "max_step zs = - 1 \<or> max_step zs \<in> s_StepIndex ` set zs" "- 1 \<le> max_step zs"
    using fold [of "- 1"] by (simp_all add: max_step_def)
  show "z \<in> set zs \<Longrightarrow> s_StepIndex z \<le> max_step zs" using fold [of "- 1"] by (simp add: max_step_def)
qed

lemma listed_steps_set:
  assumes "store_wf s" and "int (length (db_steps s)) \<le> 100000"
  shows "set (listed_steps s r) = {z. step_view s (stepKey r (s_StepIndex z)) = Some z \<and> 0 \<le> s_StepIndex z}"
proof -
  have wf: "gm_wf (db_steps s)" using assms(1) by (simp add: store_wf_def)
  have "set (listed_steps s r) = {z. (\<exists>k. gm_get (db_steps s) k = Some z) \<and> s_RunID z = r \<and> 0 \<le> s_StepIndex z}"
    by (rule listing_spec(4) [OF wf _ disjI2 [OF assms(2)]]) (simp add: listed_steps_def ListSteps_def)
  also have "\<dots> = {z. step_view s (stepKey r (s_StepIndex z)) = Some z \<and> 0 \<le> s_StepIndex z}"
    using wf_step_key [OF assms(1)] by (fastforce simp: step_view_def)
  finally show ?thesis .
qed

lemma run_issues_none:
  assumes "store_wf s" and "int (length (db_steps s)) \<le> 100000"
  shows "run_issues s y = [] \<longleftrightarrow> steps_fit s y"
proof -
  let ?zs = "listed_steps s (r_RunID y)"
  note zs = listed_steps_set [OF assms, of "r_RunID y"]
  have key: "step_view s (stepKey (r_RunID y) i) = Some z \<Longrightarrow> s_StepIndex z = i" for i z
    using wf_step_key [OF assms(1), of "stepKey (r_RunID y) i" z] by (simp add: step_view_def)
  have top: "i \<le> max_step ?zs" if "0 \<le> i" "step_view s (stepKey (r_RunID y) i) = Some z" for i z
    using max_step_spec(1) [of z ?zs] that key [OF that(2)] by (simp add: zs)
  have hit: "\<exists>z. step_view s (stepKey (r_RunID y) (max_step ?zs)) = Some z" if "0 \<le> max_step ?zs"
    using max_step_spec(2) [of ?zs] that by (auto simp: zs)
  have "run_issues s y = [] \<longleftrightarrow> (0 \<le> max_step ?zs \<longrightarrow> r_LastStepIndex y = max_step ?zs)"
    by (simp add: run_issues_def Let_def)
  also have "\<dots> \<longleftrightarrow> steps_fit s y"
  proof
    assume fits: "0 \<le> max_step ?zs \<longrightarrow> r_LastStepIndex y = max_step ?zs"
    show "steps_fit s y"
      unfolding steps_fit_def
    proof (intro allI impI)
      fix i z
      assume "0 \<le> i \<and> step_view s (stepKey (r_RunID y) i) = Some z"
      then have "i \<le> max_step ?zs" "0 \<le> max_step ?zs" using top by force+
      then show "i \<le> r_LastStepIndex y \<and> step_view s (stepKey (r_RunID y) (r_LastStepIndex y)) \<noteq> None"
        using fits hit by auto
    qed
  next
    assume R: "steps_fit s y"
    show "0 \<le> max_step ?zs \<longrightarrow> r_LastStepIndex y = max_step ?zs"
    proof
      assume m: "0 \<le> max_step ?zs"
      then have le: "max_step ?zs \<le> r_LastStepIndex y" "step_view s (stepKey (r_RunID y) (r_LastStepIndex y)) \<noteq> None"
        using hit [OF m] m R unfolding steps_fit_def by blast+
      then obtain z where "step_view s (stepKey (r_RunID y) (r_LastStepIndex y)) = Some z" by blast
      then have "r_LastStepIndex y \<le> max_step ?zs" using m le(1) by (intro top) auto
      then show "r_LastStepIndex y = max_step ?zs" using le(1) by simp
    qed
  qed
  finally show ?thesis .
qed

lemma run_index_get:
  assumes "store_wf s" and "set runs \<subseteq> {y. \<exists>k. run_view s k = Some y}"
  shows "gm_get (run_index runs) k = (case run_view s k of Some y \<Rightarrow> if y \<in> set runs then Some y else None | None \<Rightarrow> None)"
proof -
  have key: "run_view s (runKey (r_TaskID y) (r_RunID y)) = Some y" if "y \<in> set runs" for y
    using assms(2) that wf_run_key [OF assms(1)] by (auto simp: run_view_def)
  have "gm_get (fold (\<lambda>run. gm_put (runKey (r_TaskID run) (r_RunID run)) run) ys m) k =
      (case run_view s k of Some y \<Rightarrow> if y \<in> set ys then Some y else gm_get m k | None \<Rightarrow> gm_get m k)"
    if "set ys \<subseteq> set runs" for ys m
    using that
  proof (induction ys arbitrary: m)
    case (Cons y ys)
    let ?ky = "runKey (r_TaskID y) (r_RunID y)"
    have y: "run_view s ?ky = Some y" using Cons.prems by (intro key) simp
    have other: "run_view s k \<noteq> Some y" if "k \<noteq> ?ky" using wf_run_key [OF assms(1), of k y] that by (auto simp: run_view_def)
    have ys: "set ys \<subseteq> set runs" using Cons.prems by simp
    show ?case
    proof (cases "k = ?ky")
      case True
      then show ?thesis using Cons.IH [OF ys, of "gm_put ?ky y m"] y by (simp add: gomap_simps)
    next
      case False
      then show ?thesis using Cons.IH [OF ys, of "gm_put ?ky y m"] other by (simp add: gomap_simps split: option.splits)
    qed
  qed (simp split: option.split)
  from this [of runs "[]"] show ?thesis by (simp add: run_index_def split: option.split)
qed

lemma report_empty:
  assumes "store_wf s" and "0 < limit" and "int (length (db_tasks s)) \<le> limit" and "int (length (db_runs s)) \<le> mul64 limit 4"
    and "int (length (db_steps s)) \<le> 100000"
  shows "ck_Issues (report_of s tenantID limit) = [] \<longleftrightarrow> consistent s tenantID"
proof -
  let ?rs = "the_runs s tenantID (mul64 limit 4)"
  have wf: "gm_wf (db_tasks s)" "gm_wf (db_runs s)" using assms(1) by (simp_all add: store_wf_def)
  have ts: "set (the_tasks s tenantID limit) = {x. (\<exists>t. gm_get (db_tasks s) t = Some x) \<and> of_tenant tenantID (t_TenantID x)}"
    by (rule listing_spec(4) [OF wf(1) _ disjI2 [OF assms(3)]]) (simp add: the_tasks_def ListTasks_def of_tenant_def)
  have rs: "set ?rs = {y. (\<exists>k. gm_get (db_runs s) k = Some y) \<and> of_tenant tenantID (r_TenantID y)}"
    by (rule listing_spec(4) [OF wf(2) _ disjI2 [OF assms(4)]]) (simp add: the_runs_def ListRuns_def of_tenant_def)
  have index: "gm_get (run_index ?rs) k = (case run_view s k of Some y \<Rightarrow> if y \<in> set ?rs then Some y else None | None \<Rightarrow> None)" for k
    by (rule run_index_get [OF assms(1)]) (auto simp: rs run_view_def)
  have task: "task_issues (run_index ?rs) x = [] \<longleftrightarrow>
      (\<exists>y. run_view s (runKey t (t_ActiveRunID x)) = Some y \<and> of_tenant tenantID (r_TenantID y)
           \<and> t_Status x = mapRunToTaskStatus (r_Status y))" if "task_view s t = Some x" for t x
  proof -
    have "t_TaskID x = t" using wf_task_key [OF assms(1)] that by (simp add: task_view_def)
    then show ?thesis by (auto simp: task_issues_def index rs run_view_def split: option.splits if_splits)
  qed
  have "ck_Issues (report_of s tenantID limit) = [] \<longleftrightarrow>
      (\<forall>x \<in> set (the_tasks s tenantID limit). task_issues (run_index ?rs) x = []) \<and> (\<forall>y \<in> set ?rs. run_issues s y = [])"
    by (simp add: report_of_def Let_def)
  also have "\<dots> \<longleftrightarrow> consistent s tenantID"
    unfolding consistent_def ts rs run_issues_none [OF assms(1,5)]
    using task by (auto simp: task_view_def run_view_def)
  finally show ?thesis .
qed

text \<open>
  C14. The check decides consistency: on the in-memory store at rest, with listings that are
  not cut (tasks up to the limit, runs up to four times the limit, at most 100000 steps), a
  check reports no issue exactly when the tenant's state is consistent, and it changes nothing.
\<close>

theorem check_decides:
  assumes "store_wf (op_store st)" and "0 < limit" and "int (length (db_tasks (op_store st))) \<le> limit"
    and "int (length (db_runs (op_store st))) \<le> mul64 limit 4" and "int (length (db_steps (op_store st))) \<le> 100000"
    and "run_state (Check (quiet e) tenantID limit) st = ((report, err), st')"
  shows "\<exists>rep. report = Some rep \<and> err = None \<and> (ck_Issues rep = [] \<longleftrightarrow> consistent (op_store st) tenantID)
     \<and> op_store st' = op_store st"
  using Check_pure [OF assms(2), of e tenantID st] report_empty [OF assms(1-5), of tenantID] assms(6) by auto

section \<open>What a repair does\<close>

lemma map_of_map_entries: "map_of (map (\<lambda>(j, v). (j, f j v)) m) k = map_option (f k) (map_of m k)"
  by (induction m) auto

lemma gm_put_entries:
  assumes "gm_wf m" and "gm_get m k = Some v"
  shows "gm_put k (g v) (map (\<lambda>(j, v). (j, f j v)) m) = map (\<lambda>(j, v). (j, if j = k then g v else f j v)) m"
  using assms
proof (induction m)
  case (Cons p m)
  obtain j w where p: "p = (j, w)" by (cases p)
  show ?case
  proof (cases "j = k")
    case True
    moreover have "map (\<lambda>(j, v). (j, f j v)) m = map (\<lambda>(j, v). (j, if j = k then g v else f j v)) m"
      using Cons.prems(1) True p by (auto simp: image_iff)
    ultimately show ?thesis using Cons.prems p by auto
  qed (use Cons p in auto)
qed simp

text \<open>The store with other task statuses, update times and last step indices.\<close>

definition retouch :: "MemoryStore \<Rightarrow> (string \<Rightarrow> TaskStatus) \<Rightarrow> (string \<Rightarrow> gotime) \<Rightarrow> (string \<Rightarrow> int64) \<Rightarrow> MemoryStore" where
  "retouch s a up ls =
     s\<lparr>db_tasks := map (\<lambda>(k, x). (k, x\<lparr>t_Status := a k, t_UpdatedAt := up k\<rparr>)) (db_tasks s),
       db_runs := map (\<lambda>(k, y). (k, y\<lparr>r_LastStepIndex := ls k\<rparr>)) (db_runs s)\<rparr>"

lemma retouch_views:
  "task_view (retouch s a up ls) k = map_option (\<lambda>x. x\<lparr>t_Status := a k, t_UpdatedAt := up k\<rparr>) (task_view s k)"
  "run_view (retouch s a up ls) k = map_option (\<lambda>y. y\<lparr>r_LastStepIndex := ls k\<rparr>) (run_view s k)"
  "step_view (retouch s a up ls) = step_view s"
  by (simp_all add: task_view_def run_view_def step_view_def retouch_def map_of_map_entries fun_eq_iff)

lemma retouch_task:
  assumes "store_wf s" and "task_view s k = Some x"
  shows "(retouch s a up ls)\<lparr>db_tasks := gm_put k (x\<lparr>t_Status := v, t_UpdatedAt := now\<rparr>) (db_tasks (retouch s a up ls))\<rparr>
     = retouch s (a(k := v)) (up(k := now)) ls"
proof -
  have wf: "gm_wf (db_tasks s)" using assms(1) by (simp add: store_wf_def)
  have "gm_put k (x\<lparr>t_Status := v, t_UpdatedAt := now\<rparr>) (map (\<lambda>(k, x). (k, x\<lparr>t_Status := a k, t_UpdatedAt := up k\<rparr>)) (db_tasks s))
      = map (\<lambda>(j, x). (j, if j = k then x\<lparr>t_Status := v, t_UpdatedAt := now\<rparr> else x\<lparr>t_Status := a j, t_UpdatedAt := up j\<rparr>)) (db_tasks s)"
    by (rule gm_put_entries [OF wf]) (use assms(2) in \<open>simp add: task_view_def\<close>)
  also have "\<dots> = map (\<lambda>(j, x). (j, x\<lparr>t_Status := (a(k := v)) j, t_UpdatedAt := (up(k := now)) j\<rparr>)) (db_tasks s)" by auto
  finally show ?thesis by (simp add: retouch_def)
qed

lemma retouch_run:
  assumes "store_wf s" and "run_view s k = Some y"
  shows "(retouch s a up ls)\<lparr>db_runs := gm_put k (y\<lparr>r_LastStepIndex := v\<rparr>) (db_runs (retouch s a up ls))\<rparr>
     = retouch s a up (ls(k := v))"
proof -
  have wf: "gm_wf (db_runs s)" using assms(1) by (simp add: store_wf_def)
  have "gm_put k (y\<lparr>r_LastStepIndex := v\<rparr>) (map (\<lambda>(k, y). (k, y\<lparr>r_LastStepIndex := ls k\<rparr>)) (db_runs s))
      = map (\<lambda>(j, y). (j, if j = k then y\<lparr>r_LastStepIndex := v\<rparr> else y\<lparr>r_LastStepIndex := ls j\<rparr>)) (db_runs s)"
    by (rule gm_put_entries [OF wf]) (use assms(2) in \<open>simp add: run_view_def\<close>)
  also have "\<dots> = map (\<lambda>(j, y). (j, y\<lparr>r_LastStepIndex := (ls(k := v)) j\<rparr>)) (db_runs s)" by auto
  finally show ?thesis by (simp add: retouch_def)
qed

lemma every_status [simp]: "v \<in> set every_task_status"
  by (cases v) (simp_all add: every_task_status_def)

lemma issue_types [simp]:
  "IssueMissingActiveRun \<noteq> IssueTaskRunStatusMismatch" "IssueTaskRunStatusMismatch \<noteq> IssueMissingActiveRun"
  "IssueRunLastStepDrift \<noteq> IssueTaskRunStatusMismatch" "IssueTaskRunStatusMismatch \<noteq> IssueRunLastStepDrift"
  "IssueMissingActiveRun \<noteq> IssueRunLastStepDrift" "IssueRunLastStepDrift \<noteq> IssueMissingActiveRun"
  by (simp_all add: IssueMissingActiveRun_def IssueTaskRunStatusMismatch_def IssueRunLastStepDrift_def)

lemma retouch_calls:
  assumes "store_wf s"
  shows "task_view s k = Some x \<Longrightarrow> t_ActiveRunID x = r
     \<Longrightarrow> UpdateTaskStatusForRun now (retouch s a up ls) k r every_task_status v = (retouch s (a(k := v)) (up(k := now)) ls, None)"
    and "task_view s k = Some x
     \<Longrightarrow> UpdateTaskStatus now (retouch s a up ls) k every_task_status v = (retouch s (a(k := v)) (up(k := now)) ls, None)"
    and "run_view s (runKey t r') = Some y
     \<Longrightarrow> UpdateLastStepIndex (retouch s a up ls) t r' n = (retouch s a up (ls(runKey t r' := n)), None)"
    and "run_view s (runKey t r') = Some y \<Longrightarrow> GetRun (retouch s a up ls) t r' = Inr (y\<lparr>r_LastStepIndex := ls (runKey t r')\<rparr>)"
  using retouch_task [OF assms, where a = a and up = up and ls = ls] retouch_run [OF assms, where a = a and up = up and ls = ls]
    retouch_views [of s a up ls]
  by (simp_all add: UpdateTaskStatusForRun_def UpdateTaskStatus_def UpdateLastStepIndex_def GetRun_def
      task_view_def [of "retouch s a up ls"] run_view_def [of "retouch s a up ls"])

text \<open>The issues a repair can handle, and the value it sets.\<close>

definition valid_issue :: "golib \<Rightarrow> MemoryStore \<Rightarrow> DriftIssue \<Rightarrow> bool" where
  "valid_issue L s i \<longleftrightarrow>
     (if di_Type i = IssueTaskRunStatusMismatch
      then (\<exists>x. task_view s (di_TaskID i) = Some x \<and> t_ActiveRunID x = di_RunID i) \<and> run_view s (runKey (di_TaskID i) (di_RunID i)) \<noteq> None
      else if di_Type i = IssueRunLastStepDrift
      then run_view s (runKey (di_TaskID i) (di_RunID i)) \<noteq> None \<and> (\<exists>v. parseExpectedFromDetail L (di_Detail i) = Inr v)
      else di_Type i = IssueMissingActiveRun \<and> task_view s (di_TaskID i) \<noteq> None)"

definition new_status :: "MemoryStore \<Rightarrow> DriftIssue \<Rightarrow> TaskStatus" where
  "new_status s i =
     (if di_Type i = IssueTaskRunStatusMismatch
      then mapRunToTaskStatus (r_Status (the (run_view s (runKey (di_TaskID i) (di_RunID i))))) else TaskStatusFailed)"

definition new_last :: "golib \<Rightarrow> DriftIssue \<Rightarrow> int64" where
  "new_last L i = (case parseExpectedFromDetail L (di_Detail i) of Inr v \<Rightarrow> v | Inl _ \<Rightarrow> 0)"

definition about_status :: "DriftIssue \<Rightarrow> bool" where
  "about_status i \<longleftrightarrow> di_Type i \<noteq> IssueRunLastStepDrift"

definition after_status :: "MemoryStore \<Rightarrow> DriftIssue \<Rightarrow> (string \<Rightarrow> TaskStatus) \<Rightarrow> (string \<Rightarrow> TaskStatus)" where
  "after_status s i a = (if about_status i then a(di_TaskID i := new_status s i) else a)"

definition after_last :: "golib \<Rightarrow> DriftIssue \<Rightarrow> (string \<Rightarrow> int64) \<Rightarrow> (string \<Rightarrow> int64)" where
  "after_last L i ls = (if about_status i then ls else ls(runKey (di_TaskID i) (di_RunID i) := new_last L i))"

lemma repair_issue_effect:
  assumes "store_wf s" and "valid_issue (oe_lib e) s i" and "op_store st = retouch s a up ls"
  shows "\<exists>st' up'. run_state (repair_issue (quiet e) i) st = (None, st')
     \<and> op_store st' = retouch s (after_status s i a) up' (after_last (oe_lib e) i ls)"
proof -
  consider (mismatch) "di_Type i = IssueTaskRunStatusMismatch" | (last) "di_Type i = IssueRunLastStepDrift"
    | (missing) "di_Type i = IssueMissingActiveRun"
    using assms(2) by (auto simp: valid_issue_def split: if_splits)
  then show ?thesis
  proof cases
    case mismatch
    then obtain x y where x: "task_view s (di_TaskID i) = Some x" "t_ActiveRunID x = di_RunID i"
      and y: "run_view s (runKey (di_TaskID i) (di_RunID i)) = Some y"
      using assms(2) by (auto simp: valid_issue_def)
    then show ?thesis
      using mismatch retouch_calls(1,4) [OF assms(1)]
      by (simp add: repair_issue_def repairTaskRunStatus_def run_op_read run_op_call memory_store_def assms(3)
          after_status_def after_last_def about_status_def new_status_def) blast
  next
    case last
    then obtain y v where y: "run_view s (runKey (di_TaskID i) (di_RunID i)) = Some y"
      and v: "parseExpectedFromDetail (oe_lib e) (di_Detail i) = Inr v"
      using assms(2) by (auto simp: valid_issue_def)
    then show ?thesis
      using last v retouch_calls(3) [OF assms(1)]
      by (simp add: repair_issue_def repairLastStep_def run_op_call memory_store_def assms(3)
          after_status_def after_last_def about_status_def new_last_def) blast
  next
    case missing
    then obtain x where x: "task_view s (di_TaskID i) = Some x" using assms(2) by (auto simp: valid_issue_def)
    then show ?thesis
      using missing retouch_calls(2) [OF assms(1)]
      by (simp add: repair_issue_def repairMissingActiveRun_def run_op_call memory_store_def assms(3)
          after_status_def after_last_def about_status_def new_status_def) blast
  qed
qed

lemma Repair_effect:
  assumes "store_wf s" and "list_all (valid_issue (oe_lib e) s) issues" and "op_store st = retouch s a up ls"
  shows "\<exists>rep st' up'. run_state (Repair (quiet e) issues) st = ((rep, None), st') \<and> rep_Failed rep = 0
     \<and> op_store st' = retouch s (fold (after_status s) issues a) up' (fold (after_last (oe_lib e)) issues ls)"
proof -
  have loop: "\<exists>rep' st' up'. run_state (fold_attempt (repair_one (quiet e)) is rep) st = (Inr rep', st') \<and> rep_Failed rep' = rep_Failed rep
      \<and> op_store st' = retouch s (fold (after_status s) is a) up' (fold (after_last (oe_lib e)) is ls)"
    if "list_all (valid_issue (oe_lib e) s) is" "op_store st = retouch s a up ls" for "is" rep st a up ls
    using that
  proof (induction "is" arbitrary: rep st a up ls)
    case (Cons i "is")
    let ?st = "st\<lparr>op_tick := Suc (op_tick st)\<rparr>"
    have "op_store ?st = retouch s a up ls" "valid_issue (oe_lib e) s i" using Cons.prems by simp_all
    then obtain st1 up1 where one: "run_state (repair_issue (quiet e) i) ?st = (None, st1)"
      and st1: "op_store st1 = retouch s (after_status s i a) up1 (after_last (oe_lib e) i ls)"
      using repair_issue_effect [OF assms(1)] by blast
    have "list_all (valid_issue (oe_lib e) s) is" using Cons.prems by simp
    from Cons.IH [OF this st1, of "rep\<lparr>rep_Applied := add64 (rep_Applied rep) 1\<rparr>"] one
    show ?case by (auto simp: repair_one_def)
  qed auto
  show ?thesis
    using loop [OF assms(2,3), of "\<lparr>rep_Requested = int (length issues), rep_Applied = 0, rep_Failed = 0, rep_Errors = []\<rparr>"]
    by (auto simp: Repair_def)
qed

section \<open>The text of an issue\<close>

lemma find_prefix_plain: "\<forall>p \<in> set ps. p \<noteq> [] \<longrightarrow> hd p \<notin> set s \<Longrightarrow> find_prefix ps s = None"
  unfolding find_prefix_def find_None_iff by (metis hd_in_set set_mono_prefix subsetD hd_append2 prefixE)

lemma TrimSpace_number:
  assumes "list_all (\<lambda>c. is_digit c \<or> c = CHR ''-'') s"
  shows "TrimSpace s = s"
proof -
  have plain: "find_prefix ps s' = None" if "\<forall>p \<in> set ps. \<not> is_digit (hd p) \<and> hd p \<noteq> CHR ''-''" "set s' = set s" for ps s'
    using that assms unfolding list_all_iff by (intro find_prefix_plain) blast
  have "find_prefix space_seqs s = None" "find_prefix (map rev space_seqs) (rev s) = None"
    by (rule plain; simp add: space_seqs_def is_digit_def)+
  then show ?thesis by (simp add: TrimSpace_def trim_with_fix)
qed

lemma split_from_skip: "sep \<noteq> [] \<Longrightarrow> hd sep \<notin> set s \<Longrightarrow> split_from sep cur (s @ t) = split_from sep (cur @ s) t"
proof (induction s arbitrary: cur)
  case (Cons c s)
  then have "\<not> prefix sep ((c # s) @ t)" by (cases sep) auto
  then show ?case using Cons by (subst split_from.simps) simp
qed simp

lemma number_chars: "list_all (\<lambda>c. is_digit c \<or> c = CHR ''-'') (fmt_d i)"
  using dec_nat_digits by (auto simp: fmt_d_def list_all_iff)

lemma detail_roundtrip:
  assumes "in_i64 b"
  shows "parseExpectedFromDetail L (drift_detail a b) = Inr b"
proof -
  have e: "CHR ''e'' \<notin> set (fmt_d i)" for i using number_chars [of i] by (auto simp: list_all_iff is_digit_def)
  have "split_from ''expected='' cur (fmt_d b) = [cur @ fmt_d b]" for cur
    using split_from_skip [of "''expected=''" "fmt_d b" cur "[]"] e [of b] by (simp add: split_from.simps [of _ _ "[]"])
  then have tail: "split_from ''expected='' cur (''expected='' @ fmt_d b) = [cur, fmt_d b]" for cur
    by (subst split_from.simps) simp
  have "split_from ''expected='' cur (fmt_d a @ '' '' @ ''expected='' @ fmt_d b) = [cur @ fmt_d a @ '' '', fmt_d b]" for cur
    using split_from_skip [of "''expected=''" "fmt_d a @ '' ''" cur "''expected='' @ fmt_d b"] e [of a] tail by simp
  then have "Split (drift_detail a b) ''expected='' = [''run.last_step_index='' @ fmt_d a @ '' '', fmt_d b]"
    unfolding Split_def drift_detail_def by (simp add: split_from.simps [of _ _ "_ # _"])
  then show ?thesis
    using assms by (simp add: parseExpectedFromDetail_def TrimSpace_number [OF number_chars] Atoi_fmt_d)
qed

section \<open>Check, repair, check\<close>

text \<open>Identifiers as the service makes them: no task id contains the separator of the keys.\<close>

definition plain_ids :: "MemoryStore \<Rightarrow> bool" where
  "plain_ids s \<longleftrightarrow>
     (\<forall>k x. task_view s k = Some x \<longrightarrow> CHR ''#'' \<notin> set k) \<and> (\<forall>k y. run_view s k = Some y \<longrightarrow> CHR ''#'' \<notin> set (r_TaskID y))
     \<and> (\<forall>k z. step_view s k = Some z \<longrightarrow> in_i64 (s_StepIndex z))"

lemma the_tasks_stored:
  assumes "store_wf s" and "x \<in> set (the_tasks s tenantID limit)"
  shows "task_view s (t_TaskID x) = Some x"
proof -
  have wf: "gm_wf (db_tasks s)" using assms(1) by (simp add: store_wf_def)
  have "set (the_tasks s tenantID limit) \<subseteq> {x. (\<exists>k. gm_get (db_tasks s) k = Some x) \<and> of_tenant tenantID (t_TenantID x)}"
    by (rule listing_spec(1) [OF wf]) (simp add: the_tasks_def ListTasks_def of_tenant_def)
  then obtain k where k: "gm_get (db_tasks s) k = Some x" using assms(2) by blast
  show ?thesis using k wf_task_key [OF assms(1) k] by (simp add: task_view_def)
qed

lemma the_runs_stored:
  assumes "store_wf s" and "y \<in> set (the_runs s tenantID limit)"
  shows "run_view s (runKey (r_TaskID y) (r_RunID y)) = Some y"
proof -
  have wf: "gm_wf (db_runs s)" using assms(1) by (simp add: store_wf_def)
  have "set (the_runs s tenantID limit) \<subseteq> {y. (\<exists>k. gm_get (db_runs s) k = Some y) \<and> of_tenant tenantID (r_TenantID y)}"
    by (rule listing_spec(1) [OF wf]) (simp add: the_runs_def ListRuns_def of_tenant_def)
  then obtain k where k: "gm_get (db_runs s) k = Some y" using assms(2) by blast
  show ?thesis using k wf_run_key [OF assms(1) k] by (simp add: run_view_def)
qed

lemma index_stored:
  assumes "store_wf s" and "gm_get (run_index (the_runs s tenantID limit)) k = Some y"
  shows "run_view s k = Some y"
proof -
  have "set (the_runs s tenantID limit) \<subseteq> {y. \<exists>k. run_view s k = Some y}" using the_runs_stored [OF assms(1)] by blast
  from run_index_get [OF assms(1) this] show ?thesis using assms(2) by (simp split: option.splits if_splits)
qed

text \<open>What the status of a task should become, given the runs that were listed.\<close>

definition due_status :: "(string, Run) gomap \<Rightarrow> Task \<Rightarrow> TaskStatus" where
  "due_status m x =
     (case gm_get m (runKey (t_TaskID x) (t_ActiveRunID x)) of
        None \<Rightarrow> TaskStatusFailed | Some y \<Rightarrow> mapRunToTaskStatus (r_Status y))"

lemma task_issue_valid:
  assumes "store_wf s" and "plain_ids s" and "x \<in> set (the_tasks s tenantID limit)"
    and "m = run_index (the_runs s tenantID limit')" and "i \<in> set (task_issues m x)"
  shows "valid_issue L s i \<and> about_status i \<and> di_TaskID i = t_TaskID x \<and> new_status s i = due_status m x"
proof (cases "gm_get m (runKey (t_TaskID x) (t_ActiveRunID x))")
  case None
  then show ?thesis
    using assms(5) the_tasks_stored [OF assms(1,3)]
    by (simp add: task_issues_def valid_issue_def about_status_def new_status_def due_status_def)
next
  case (Some y)
  have x: "task_view s (t_TaskID x) = Some x" by (rule the_tasks_stored [OF assms(1,3)])
  have y: "run_view s (runKey (t_TaskID x) (t_ActiveRunID x)) = Some y" using index_stored [OF assms(1)] Some assms(4) by blast
  then have "runKey (r_TaskID y) (r_RunID y) = runKey (t_TaskID x) (t_ActiveRunID x)"
    using wf_run_key [OF assms(1)] by (simp add: run_view_def)
  moreover have "CHR ''#'' \<notin> set (r_TaskID y)" "CHR ''#'' \<notin> set (t_TaskID x)" using assms(2) x y unfolding plain_ids_def by blast+
  ultimately have "r_RunID y = t_ActiveRunID x"
    using join_first_sep [of "r_TaskID y" "CHR ''#''" "r_RunID y" "t_TaskID x" "t_ActiveRunID x"] by (simp add: runKey_def)
  then show ?thesis
    using assms(5) Some x y
    by (auto simp: task_issues_def valid_issue_def about_status_def new_status_def due_status_def split: if_splits)
qed

lemma run_issue_valid:
  assumes "store_wf s" and "plain_ids s" and "y \<in> set (the_runs s tenantID limit)" and "i \<in> set (run_issues s y)"
  shows "valid_issue L s i \<and> \<not> about_status i \<and> runKey (di_TaskID i) (di_RunID i) = runKey (r_TaskID y) (r_RunID y)
     \<and> new_last L i = max_step (listed_steps s (r_RunID y))"
proof -
  let ?zs = "listed_steps s (r_RunID y)"
  have m: "0 \<le> max_step ?zs" using assms(4) by (simp add: run_issues_def Let_def split: if_splits)
  then obtain z where z: "z \<in> set ?zs" "s_StepIndex z = max_step ?zs" using max_step_spec(2) [of ?zs] by auto
  have wf: "gm_wf (db_steps s)" using assms(1) by (simp add: store_wf_def)
  have "set ?zs \<subseteq> {z. (\<exists>k. gm_get (db_steps s) k = Some z) \<and> s_RunID z = r_RunID y \<and> 0 \<le> s_StepIndex z}"
    by (rule listing_spec(1) [OF wf]) (simp add: listed_steps_def ListSteps_def)
  then have "in_i64 (max_step ?zs)" using z assms(2) unfolding plain_ids_def step_view_def by fastforce
  then have "parseExpectedFromDetail L (drift_detail (r_LastStepIndex y) (max_step ?zs)) = Inr (max_step ?zs)" by (rule detail_roundtrip)
  then show ?thesis
    using assms(4) the_runs_stored [OF assms(1,3)]
    by (simp add: run_issues_def Let_def valid_issue_def about_status_def new_last_def split: if_splits)
qed

text \<open>The values after a list of repairs, when the issues of one task or run agree.\<close>

lemma after_statuses:
  "(\<forall>i \<in> set is. about_status i \<longrightarrow> new_status s i = W (di_TaskID i)) \<Longrightarrow>
   fold (after_status s) is a k = (if \<exists>i \<in> set is. about_status i \<and> di_TaskID i = k then W k else a k)"
  by (induction "is" arbitrary: a) (auto simp: after_status_def)

lemma after_lasts:
  "(\<forall>i \<in> set is. \<not> about_status i \<longrightarrow> new_last L i = W (runKey (di_TaskID i) (di_RunID i))) \<Longrightarrow>
   fold (after_last L) is ls k = (if \<exists>i \<in> set is. \<not> about_status i \<and> runKey (di_TaskID i) (di_RunID i) = k then W k else ls k)"
  by (induction "is" arbitrary: ls) (auto simp: after_last_def)

text \<open>Listings of a retouched store are the retouched listings.\<close>

lemma insort_key_map: "insort_key f (g x) (map g xs) = map g (insort_key (\<lambda>x. f (g x)) x xs)"
  by (induction xs) simp_all

lemma sort_key_map: "sort_key f (map g xs) = map g (sort_key (\<lambda>x. f (g x)) xs)"
  by (induction xs) (simp_all add: insort_key_map)

lemma take_limit_map: "take_limit n (map f xs) = map f (take_limit n xs)"
  by (simp add: take_limit_def take_map)

lemma entries_values:
  "list_all (\<lambda>(k, v). key v = k) m \<Longrightarrow> map snd (map (\<lambda>(k, v). (k, f k v)) m) = map (\<lambda>v. f (key v) v) (map snd m)"
  by (induction m) auto

lemma retouch_listings:
  assumes "store_wf s"
  shows "the_tasks (retouch s a up ls) tenantID limit =
       map (\<lambda>x. x\<lparr>t_Status := a (t_TaskID x), t_UpdatedAt := up (t_TaskID x)\<rparr>) (the_tasks s tenantID limit)"
    and "the_runs (retouch s a up ls) tenantID limit =
       map (\<lambda>y. y\<lparr>r_LastStepIndex := ls (runKey (r_TaskID y) (r_RunID y))\<rparr>) (the_runs s tenantID limit)"
    and "listed_steps (retouch s a up ls) r = listed_steps s r"
proof -
  have keys: "list_all (\<lambda>(k, x). t_TaskID x = k) (db_tasks s)" "list_all (\<lambda>(k, y). runKey (r_TaskID y) (r_RunID y) = k) (db_runs s)"
    using assms by (simp_all add: store_wf_def)
  show "the_tasks (retouch s a up ls) tenantID limit =
       map (\<lambda>x. x\<lparr>t_Status := a (t_TaskID x), t_UpdatedAt := up (t_TaskID x)\<rparr>) (the_tasks s tenantID limit)"
    by (simp add: the_tasks_def ListTasks_def retouch_def entries_values [OF keys(1)] filter_map o_def sort_key_map take_limit_map
        del: map_map)
  show "the_runs (retouch s a up ls) tenantID limit =
       map (\<lambda>y. y\<lparr>r_LastStepIndex := ls (runKey (r_TaskID y) (r_RunID y))\<rparr>) (the_runs s tenantID limit)"
    by (simp add: the_runs_def ListRuns_def retouch_def entries_values [OF keys(2)] filter_map o_def sort_key_map take_limit_map
        del: map_map)
  show "listed_steps (retouch s a up ls) r = listed_steps s r"
    by (simp add: listed_steps_def ListSteps_def retouch_def)
qed

lemma index_retouch:
  "gm_get (run_index (map (\<lambda>y. y\<lparr>r_LastStepIndex := ls (runKey (r_TaskID y) (r_RunID y))\<rparr>) runs)) k
     = map_option (\<lambda>y. y\<lparr>r_LastStepIndex := ls (runKey (r_TaskID y) (r_RunID y))\<rparr>) (gm_get (run_index runs) k)"
proof -
  let ?f = "\<lambda>y. y\<lparr>r_LastStepIndex := ls (runKey (r_TaskID y) (r_RunID y))\<rparr>"
  have "gm_get (fold (\<lambda>run. gm_put (runKey (r_TaskID run) (r_RunID run)) run) (map ?f ys) m') k
      = map_option ?f (gm_get (fold (\<lambda>run. gm_put (runKey (r_TaskID run) (r_RunID run)) run) ys m) k)"
    if "\<And>k. gm_get m' k = map_option ?f (gm_get m k)" for ys m m'
    using that by (induction ys arbitrary: m m') (simp_all add: gomap_simps)
  from this [of "[]" "[]"] show ?thesis by (simp add: run_index_def)
qed

lemma retouch_id:
  assumes "store_wf s"
  shows "retouch s (\<lambda>k. t_Status (the (task_view s k))) (\<lambda>k. t_UpdatedAt (the (task_view s k))) (\<lambda>k. r_LastStepIndex (the (run_view s k))) = s"
proof -
  have wf: "gm_wf (db_tasks s)" "gm_wf (db_runs s)" using assms by (simp_all add: store_wf_def)
  have tasks: "map (\<lambda>(k, x). (k, x\<lparr>t_Status := t_Status (the (task_view s k)), t_UpdatedAt := t_UpdatedAt (the (task_view s k))\<rparr>)) (db_tasks s) = db_tasks s"
    by (rule map_idI) (use wf(1) in \<open>auto simp: task_view_def dest: map_of_is_SomeI\<close>)
  have runs: "map (\<lambda>(k, y). (k, y\<lparr>r_LastStepIndex := r_LastStepIndex (the (run_view s k))\<rparr>)) (db_runs s) = db_runs s"
    by (rule map_idI) (use wf(2) in \<open>auto simp: run_view_def dest: map_of_is_SomeI\<close>)
  show ?thesis unfolding retouch_def tasks runs by simp
qed

text \<open>The store after the repair of everything a check reported.\<close>

definition repaired :: "MemoryStore \<Rightarrow> (string, Run) gomap \<Rightarrow> Task list \<Rightarrow> Run list
   \<Rightarrow> (string \<Rightarrow> TaskStatus) \<Rightarrow> (string \<Rightarrow> int64) \<Rightarrow> bool" where
  "repaired s m tasks runs a ls \<longleftrightarrow>
     (\<forall>x \<in> set tasks. a (t_TaskID x) = (if task_issues m x = [] then t_Status x else due_status m x))
     \<and> (\<forall>y \<in> set runs. ls (runKey (r_TaskID y) (r_RunID y)) =
          (if run_issues s y = [] then r_LastStepIndex y else max_step (listed_steps s (r_RunID y))))"

lemma reported_issues:
  "set (ck_Issues (report_of s tenantID limit)) =
     (\<Union>x \<in> set (the_tasks s tenantID limit). set (task_issues (run_index (the_runs s tenantID (mul64 limit 4))) x))
     \<union> (\<Union>y \<in> set (the_runs s tenantID (mul64 limit 4)). set (run_issues s y))"
  by (simp add: report_of_def Let_def)

lemma issue_source:
  assumes "store_wf s" and "plain_ids s" and "i \<in> set (ck_Issues (report_of s tenantID limit))"
  obtains (task) x where "x \<in> set (the_tasks s tenantID limit)" "i \<in> set (task_issues (run_index (the_runs s tenantID (mul64 limit 4))) x)"
      "about_status i" "di_TaskID i = t_TaskID x" "task_view s (di_TaskID i) = Some x"
    | (run) y where "y \<in> set (the_runs s tenantID (mul64 limit 4))" "i \<in> set (run_issues s y)"
      "\<not> about_status i" "run_view s (runKey (di_TaskID i) (di_RunID i)) = Some y"
proof -
  from assms(3) consider x where "x \<in> set (the_tasks s tenantID limit)" "i \<in> set (task_issues (run_index (the_runs s tenantID (mul64 limit 4))) x)"
    | y where "y \<in> set (the_runs s tenantID (mul64 limit 4))" "i \<in> set (run_issues s y)"
    unfolding reported_issues by auto
  then show thesis
  proof cases
    case (1 x)
    from task_issue_valid [OF assms(1,2) 1(1) refl 1(2)] the_tasks_stored [OF assms(1) 1(1)] show thesis by (intro task [OF 1]) simp_all
  next
    case (2 y)
    from run_issue_valid [OF assms(1,2) 2] the_runs_stored [OF assms(1) 2(1)] show thesis by (intro run [OF 2]) simp_all
  qed
qed

lemma task_reported:
  assumes "store_wf s" and "plain_ids s" and x: "x \<in> set (the_tasks s tenantID limit)"
  shows "(\<exists>i \<in> set (ck_Issues (report_of s tenantID limit)). about_status i \<and> di_TaskID i = t_TaskID x)
     \<longleftrightarrow> task_issues (run_index (the_runs s tenantID (mul64 limit 4))) x \<noteq> []" (is "?L \<longleftrightarrow> ?R")
proof
  assume ?L
  then obtain i where i: "i \<in> set (ck_Issues (report_of s tenantID limit))" "about_status i" "di_TaskID i = t_TaskID x" by blast
  from assms(1,2) i(1) show ?R
  proof (cases rule: issue_source)
    case (task x')
    have "x' = x" using task(5) the_tasks_stored [OF assms(1) x] unfolding i(3) by simp
    then show ?thesis using task(2) by (cases "task_issues (run_index (the_runs s tenantID (mul64 limit 4))) x") simp_all
  next
    case (run y)
    show ?thesis using i(2) run(3) by blast
  qed
next
  assume ?R
  then have i: "hd (task_issues (run_index (the_runs s tenantID (mul64 limit 4))) x) \<in> set (task_issues (run_index (the_runs s tenantID (mul64 limit 4))) x)"
    by (rule hd_in_set)
  then have "hd (task_issues (run_index (the_runs s tenantID (mul64 limit 4))) x) \<in> set (ck_Issues (report_of s tenantID limit))"
    unfolding reported_issues by (intro UnI1 UN_I [OF x])
  then show ?L using task_issue_valid [OF assms(1,2) x refl i] by blast
qed

lemma run_reported:
  assumes "store_wf s" and "plain_ids s" and y: "y \<in> set (the_runs s tenantID (mul64 limit 4))"
  shows "(\<exists>i \<in> set (ck_Issues (report_of s tenantID limit)).
       \<not> about_status i \<and> runKey (di_TaskID i) (di_RunID i) = runKey (r_TaskID y) (r_RunID y)) \<longleftrightarrow> run_issues s y \<noteq> []" (is "?L \<longleftrightarrow> ?R")
proof
  assume ?L
  then obtain i where i: "i \<in> set (ck_Issues (report_of s tenantID limit))" "\<not> about_status i"
    "runKey (di_TaskID i) (di_RunID i) = runKey (r_TaskID y) (r_RunID y)" by blast
  from assms(1,2) i(1) show ?R
  proof (cases rule: issue_source)
    case (run y')
    have "y' = y" using run(4) the_runs_stored [OF assms(1) y] unfolding i(3) by simp
    then show ?thesis using run(2) by (cases "run_issues s y") simp_all
  next
    case (task x)
    show ?thesis using i(2) task(3) by blast
  qed
next
  assume ?R
  then have i: "hd (run_issues s y) \<in> set (run_issues s y)" by (rule hd_in_set)
  then have "hd (run_issues s y) \<in> set (ck_Issues (report_of s tenantID limit))"
    unfolding reported_issues by (intro UnI2 UN_I [OF y])
  then show ?L using run_issue_valid [OF assms(1,2) y i] by blast
qed

lemma Repair_report:
  assumes "store_wf s" and "plain_ids s" and "op_store st = s"
  shows "\<exists>fix st' a up ls. run_state (Repair (quiet e) (ck_Issues (report_of s tenantID limit))) st = ((fix, None), st') \<and> rep_Failed fix = 0
     \<and> op_store st' = retouch s a up ls
     \<and> repaired s (run_index (the_runs s tenantID (mul64 limit 4))) (the_tasks s tenantID limit) (the_runs s tenantID (mul64 limit 4)) a ls"
proof -
  let ?rs = "the_runs s tenantID (mul64 limit 4)"
  let ?m = "run_index ?rs" and ?is = "ck_Issues (report_of s tenantID limit)"
  let ?a0 = "\<lambda>k. t_Status (the (task_view s k))" and ?l0 = "\<lambda>k. r_LastStepIndex (the (run_view s k))"
  have valid: "valid_issue (oe_lib e) s i"
    and S: "about_status i \<longrightarrow> new_status s i = due_status ?m (the (task_view s (di_TaskID i)))"
    and Lst: "\<not> about_status i \<longrightarrow>
      new_last (oe_lib e) i = max_step (listed_steps s (r_RunID (the (run_view s (runKey (di_TaskID i) (di_RunID i))))))"
    if "i \<in> set ?is" for i
    using assms(1,2) that
    by (cases rule: issue_source; use task_issue_valid [OF assms(1,2) _ refl] run_issue_valid [OF assms(1,2)] in fastforce)+
  then have S: "\<forall>i \<in> set ?is. about_status i \<longrightarrow> new_status s i = due_status ?m (the (task_view s (di_TaskID i)))"
    and Lst: "\<forall>i \<in> set ?is. \<not> about_status i \<longrightarrow>
      new_last (oe_lib e) i = max_step (listed_steps s (r_RunID (the (run_view s (runKey (di_TaskID i) (di_RunID i))))))"
    and valid: "list_all (valid_issue (oe_lib e) s) ?is" by (simp_all add: list_all_iff)
  obtain fix' st' up where run: "run_state (Repair (quiet e) ?is) st = ((fix', None), st')" "rep_Failed fix' = 0"
    "op_store st' = retouch s (fold (after_status s) ?is ?a0) up (fold (after_last (oe_lib e)) ?is ?l0)"
    using Repair_effect [OF assms(1) valid, of st ?a0 "\<lambda>k. t_UpdatedAt (the (task_view s k))" ?l0] retouch_id [OF assms(1)] assms(3) by auto
  have "repaired s ?m (the_tasks s tenantID limit) ?rs (fold (after_status s) ?is ?a0) (fold (after_last (oe_lib e)) ?is ?l0)"
    unfolding repaired_def after_statuses [OF S] after_lasts [OF Lst]
  proof (intro conjI ballI, goal_cases)
    case (1 x)
    show ?case unfolding task_reported [OF assms(1,2) 1] by (simp add: the_tasks_stored [OF assms(1) 1])
  next
    case (2 y)
    show ?case unfolding run_reported [OF assms(1,2) 2] by (simp add: the_runs_stored [OF assms(1) 2])
  qed
  then show ?thesis using run by blast
qed

lemma checked_again:
  assumes "store_wf s" and "repaired s (run_index runs) tasks runs a ls"
    and "tasks = the_tasks s tenantID limit" and "runs = the_runs s tenantID (mul64 limit 4)"
  shows "ck_Issues (report_of (retouch s a up ls) tenantID limit) =
     filter (\<lambda>i. di_Type i = IssueMissingActiveRun) (ck_Issues (report_of s tenantID limit))"
proof -
  let ?g = "\<lambda>x. x\<lparr>t_Status := a (t_TaskID x), t_UpdatedAt := up (t_TaskID x)\<rparr>"
  let ?h = "\<lambda>y. y\<lparr>r_LastStepIndex := ls (runKey (r_TaskID y) (r_RunID y))\<rparr>"
  let ?missing = "\<lambda>i. di_Type i = IssueMissingActiveRun"
  have t: "task_issues (run_index (map ?h runs)) (?g x) = filter ?missing (task_issues (run_index runs) x)" if "x \<in> set tasks" for x
    using assms(2) that unfolding repaired_def
    by (auto simp: task_issues_def index_retouch due_status_def split: option.splits if_splits)
  have r: "run_issues (retouch s a up ls) (?h y) = filter ?missing (run_issues s y)" if "y \<in> set runs" for y
    using assms(2) that unfolding repaired_def
    by (auto simp: run_issues_def retouch_listings [OF assms(1)] Let_def split: if_splits)
  have "map (task_issues (run_index (map ?h runs))) (map ?g tasks) = map (filter ?missing) (map (task_issues (run_index runs)) tasks)"
    using t by simp
  moreover have "map (run_issues (retouch s a up ls)) (map ?h runs) = map (filter ?missing) (map (run_issues s) runs)"
    using r by simp
  ultimately show ?thesis
    unfolding report_of_def Let_def retouch_listings [OF assms(1)] assms(3,4) [symmetric]
    by (simp add: filter_concat o_def del: map_map)
qed

text \<open>
  C7. Repair converges: on the store at rest, repairing what a check reported succeeds for
  every issue, and a second check reports exactly the missing active runs of the first; status
  mismatches and drifted step indices are gone.
\<close>

theorem repair_converges:
  assumes "store_wf (op_store st)" and "plain_ids (op_store st)" and "0 < limit"
    and "run_state (Check (quiet e) tenantID limit) st = ((Some rep1, err1), st1)"
    and "run_state (Repair (quiet e) (ck_Issues rep1)) st1 = ((fix', err2), st2)"
    and "run_state (Check (quiet e) tenantID limit) st2 = ((Some rep2, err3), st3)"
  shows "err2 = None \<and> rep_Failed fix' = 0
     \<and> ck_Issues rep2 = filter (\<lambda>i. di_Type i = IssueMissingActiveRun) (ck_Issues rep1)"
proof -
  let ?s = "op_store st"
  have c1: "rep1 = report_of ?s tenantID limit" "op_store st1 = ?s" using Check_pure [OF assms(3), of e tenantID st] assms(4) by auto
  obtain a up ls where r: "err2 = None" "rep_Failed fix' = 0" "op_store st2 = retouch ?s a up ls"
    "repaired ?s (run_index (the_runs ?s tenantID (mul64 limit 4))) (the_tasks ?s tenantID limit) (the_runs ?s tenantID (mul64 limit 4)) a ls"
    using Repair_report [OF assms(1,2) c1(2), of e tenantID limit] assms(5) unfolding c1(1) by auto
  have "rep2 = report_of (op_store st2) tenantID limit" using Check_pure [OF assms(3), of e tenantID st2] assms(6) by auto
  then show ?thesis using r checked_again [OF assms(1) r(4) refl refl, of up] c1(1) by simp
qed

text \<open>
  C38. A cut listing raises a false alarm: when the active run of a task is stored but not among
  the first \<open>4 * limit\<close> runs that are listed, the check reports it as missing, and the repair
  marks the task as failed, whatever its status and that of its run are.
\<close>

theorem cut_listing_fails_task:
  assumes "store_wf (op_store st)" and "plain_ids (op_store st)" and "0 < limit"
    and "x \<in> set (the_tasks (op_store st) tenantID limit)"
    and "run_view (op_store st) (runKey (t_TaskID x) (t_ActiveRunID x)) = Some y"
    and "y \<notin> set (the_runs (op_store st) tenantID (mul64 limit 4))"
    and "run_state (Check (quiet e) tenantID limit) st = ((Some rep1, err1), st1)"
    and "run_state (Repair (quiet e) (ck_Issues rep1)) st1 = ((fix', err2), st2)"
  shows "(\<exists>i \<in> set (ck_Issues rep1). di_Type i = IssueMissingActiveRun \<and> di_TaskID i = t_TaskID x)
     \<and> (\<exists>x'. task_view (op_store st2) (t_TaskID x) = Some x' \<and> t_Status x' = TaskStatusFailed)"
proof -
  let ?s = "op_store st"
  let ?rs = "the_runs ?s tenantID (mul64 limit 4)"
  have c1: "rep1 = report_of ?s tenantID limit" "op_store st1 = ?s" using Check_pure [OF assms(3), of e tenantID st] assms(7) by auto
  have "set ?rs \<subseteq> {y. \<exists>k. run_view ?s k = Some y}" using the_runs_stored [OF assms(1)] by blast
  then have none: "gm_get (run_index ?rs) (runKey (t_TaskID x) (t_ActiveRunID x)) = None"
    using run_index_get [OF assms(1)] assms(5,6) by simp
  obtain a up ls where r: "op_store st2 = retouch ?s a up ls"
    "repaired ?s (run_index ?rs) (the_tasks ?s tenantID limit) ?rs a ls"
    using Repair_report [OF assms(1,2) c1(2), of e tenantID limit] assms(8) unfolding c1(1) by auto
  have "a (t_TaskID x) = TaskStatusFailed"
    using r(2) assms(4) none unfolding repaired_def by (simp add: task_issues_def due_status_def)
  moreover have "task_issues (run_index ?rs) x = [\<lparr>di_Type = IssueMissingActiveRun, di_TenantID = t_TenantID x, di_TaskID = t_TaskID x,
      di_RunID = t_ActiveRunID x, di_Detail = ''task.active_run_id does not exist''\<rparr>]" (is "_ = [?i]")
    using none by (simp add: task_issues_def)
  then have "?i \<in> set (ck_Issues rep1)" unfolding c1(1) reported_issues by (intro UnI1 UN_I [OF assms(4)]) simp
  then have "\<exists>i \<in> set (ck_Issues rep1). di_Type i = IssueMissingActiveRun \<and> di_TaskID i = t_TaskID x"
    by (rule rev_bexI) simp
  ultimately show ?thesis using r(1) the_tasks_stored [OF assms(1,4)] by (simp add: retouch_views)
qed

section \<open>Concrete passes\<close>

definition sample_ops :: "(MemoryStore, SQSMessage list) OpsEnv" where
  "sample_ops =
     \<lparr>oe_store = memory_store, oe_Enqueue = (\<lambda>q m. (q @ [m], None)), oe_clock = int, oe_ctxErr = (\<lambda>_. None), oe_others = (\<lambda>_ s. s),
      oe_env = sample_env,
      oe_lib = \<lparr>lib_Sum256 = (\<lambda>_. []), lib_gzip = id, lib_gzip_reader = (\<lambda>d. Inr (Inr d)),
        lib_unmarshal_snapshot = (\<lambda>_. Inl []), lib_Quote = id\<rparr>\<rparr>"

definition crowd_task :: Task where
  "crowd_task = sample_task\<lparr>t_TaskID := ''t1'', t_TenantID := ''acme'', t_Status := TaskStatusSucceeded, t_ActiveRunID := ''r5''\<rparr>"

definition crowd_run :: "string \<Rightarrow> gotime \<Rightarrow> Run" where
  "crowd_run r t = sample_run\<lparr>r_TaskID := ''t1'', r_RunID := r, r_TenantID := ''acme'', r_Status := RunStatusSucceeded, r_StartedAt := Some t\<rparr>"

text \<open>A task that succeeded in its fifth run.\<close>

definition crowded_store :: MemoryStore where
  "crowded_store = NewMemoryStore\<lparr>db_tasks := [(''t1'', crowd_task)],
     db_runs := [(''t1#r1'', crowd_run ''r1'' 1), (''t1#r2'', crowd_run ''r2'' 2), (''t1#r3'', crowd_run ''r3'' 3),
       (''t1#r4'', crowd_run ''r4'' 4), (''t1#r5'', crowd_run ''r5'' 5)]\<rparr>"

definition crowded :: "(MemoryStore, SQSMessage list) OpsState" where
  "crowded = \<lparr>op_store = crowded_store, op_queue = [], op_tick = 0\<rparr>"

lemma crowded_wf: "store_wf (op_store crowded)" "plain_ids (op_store crowded)"
proof -
  show "store_wf (op_store crowded)"
    by (simp add: crowded_def crowded_store_def crowd_task_def crowd_run_def store_wf_def NewMemoryStore_def runKey_def)
  show "plain_ids (op_store crowded)"
    by (auto simp: crowded_def crowded_store_def crowd_run_def NewMemoryStore_def plain_ids_def task_view_def run_view_def step_view_def
        split: if_splits)
qed

lemma crowded_listings:
  "the_tasks crowded_store ''acme'' 1 = [crowd_task]"
  "the_runs crowded_store ''acme'' 4 = [crowd_run ''r1'' 1, crowd_run ''r2'' 2, crowd_run ''r3'' 3, crowd_run ''r4'' 4]"
  by (simp_all add: the_tasks_def the_runs_def ListTasks_def ListRuns_def crowded_store_def crowd_task_def crowd_run_def take_limit_def runKey_def)

theorem check_decides_witness:
  "\<exists>rep. fst (run_state (Check (quiet sample_ops) ''acme'' 10) crowded) = (Some rep, None)
     \<and> (ck_Issues rep = [] \<longleftrightarrow> consistent crowded_store ''acme'')"
proof -
  obtain report err st' where run: "run_state (Check (quiet sample_ops) ''acme'' 10) crowded = ((report, err), st')"
    by (metis prod.exhaust)
  have "mul64 10 4 = 40" by (simp add: mul64_def wrap64_def)
  then show ?thesis
    using check_decides [OF crowded_wf(1) _ _ _ _ run] run
    by (auto simp: crowded_def crowded_store_def NewMemoryStore_def)
qed

theorem repair_converges_witness:
  "\<exists>rep1 err1 st1 rep2. run_state (Check (quiet sample_ops) ''acme'' 1) crowded = ((Some rep1, err1), st1)
     \<and> fst (fst (run_state (Check (quiet sample_ops) ''acme'' 1) (snd (run_state (Repair (quiet sample_ops) (ck_Issues rep1)) st1)))) = Some rep2
     \<and> ck_Issues rep2 = filter (\<lambda>i. di_Type i = IssueMissingActiveRun) (ck_Issues rep1)"
proof -
  have one: "(0::int64) < 1" by simp
  obtain rep1 err1 st1 where c1: "run_state (Check (quiet sample_ops) ''acme'' 1) crowded = ((Some rep1, err1), st1)"
    using Check_pure [OF one] by blast
  obtain fix' err2 st2 where r: "run_state (Repair (quiet sample_ops) (ck_Issues rep1)) st1 = ((fix', err2), st2)" by (metis prod.exhaust)
  obtain rep2 err3 st3 where c2: "run_state (Check (quiet sample_ops) ''acme'' 1) st2 = ((Some rep2, err3), st3)"
    using Check_pure [OF one] by blast
  show ?thesis using repair_converges [OF crowded_wf one c1 r c2] c1 r c2 by auto
qed

theorem cut_listing_fails_task_witness:
  "\<exists>rep1 err1 st1. run_state (Check (quiet sample_ops) ''acme'' 1) crowded = ((Some rep1, err1), st1)
     \<and> (\<exists>x'. task_view (op_store (snd (run_state (Repair (quiet sample_ops) (ck_Issues rep1)) st1))) ''t1'' = Some x'
          \<and> t_Status x' = TaskStatusFailed)"
proof -
  have one: "(0::int64) < 1" by simp
  have four: "mul64 1 4 = 4" by (simp add: mul64_def wrap64_def)
  obtain rep1 err1 st1 where c1: "run_state (Check (quiet sample_ops) ''acme'' 1) crowded = ((Some rep1, err1), st1)"
    using Check_pure [OF one] by blast
  obtain fix' err2 st2 where r: "run_state (Repair (quiet sample_ops) (ck_Issues rep1)) st1 = ((fix', err2), st2)" by (metis prod.exhaust)
  have "crowd_task \<in> set (the_tasks (op_store crowded) ''acme'' 1)" by (simp add: crowded_def crowded_listings)
  moreover have "run_view (op_store crowded) (runKey (t_TaskID crowd_task) (t_ActiveRunID crowd_task)) = Some (crowd_run ''r5'' 5)"
    by (simp add: crowded_def crowded_store_def crowd_task_def run_view_def runKey_def)
  moreover have "crowd_run ''r5'' 5 \<notin> set (the_runs (op_store crowded) ''acme'' (mul64 1 4))"
    by (simp add: crowded_def crowded_listings four) (simp add: crowd_run_def sample_run_def)
  ultimately show ?thesis
    using cut_listing_fails_task [OF crowded_wf one _ _ _ c1 r, of crowd_task "crowd_run ''r5'' 5"] c1 r by (auto simp: crowd_task_def)
qed

section \<open>Recovery\<close>

definition stale_active :: "MemoryStore \<Rightarrow> gotime \<Rightarrow> duration \<Rightarrow> Run \<Rightarrow> bool" where
  "stale_active s now staleFor y \<longleftrightarrow>
     (\<exists>x. task_view s (r_TaskID y) = Some x \<and> t_ActiveRunID x = r_RunID y \<and> isRunStale y x now staleFor)"

abbreviation run_id :: "Run \<Rightarrow> string" where
  "run_id y \<equiv> runKey (r_TaskID y) (r_RunID y)"

definition rescue_message :: "goenv \<Rightarrow> MemoryStore \<Rightarrow> gotime \<Rightarrow> Run \<Rightarrow> SQSMessage" where
  "rescue_message E s now y = recovery_message E (the (task_view s (r_TaskID y))) y now"

text \<open>
  The state after the runs \<open>done\<close> were handled: the stale active ones are queued again with their
  tasks and their messages were offered to the queue in order; everything else is as it was.
\<close>

definition rescued ::
  "('q \<Rightarrow> SQSMessage \<Rightarrow> 'q \<times> string option) \<Rightarrow> goenv \<Rightarrow> gotime \<Rightarrow> duration \<Rightarrow> (MemoryStore, 'q) OpsState \<Rightarrow> Run list
   \<Rightarrow> (MemoryStore, 'q) OpsState \<Rightarrow> bool" where
  "rescued enq E now staleFor st0 handled st \<longleftrightarrow>
     (let s = op_store st0; stale = filter (stale_active s now staleFor) handled
      in (\<forall>y \<in> set stale. \<exists>t. run_view (op_store st) (run_id y) =
              Some (y\<lparr>r_Status := RunStatusQueued, r_QueuedAt := Some t, r_StartedAt := None, r_EndedAt := None\<rparr>))
       \<and> (\<forall>y \<in> set stale. \<exists>t. task_view (op_store st) (r_TaskID y) =
              Some ((the (task_view s (r_TaskID y)))\<lparr>t_Status := TaskStatusQueued, t_UpdatedAt := t\<rparr>))
       \<and> (\<forall>k. k \<notin> run_id ` set stale \<longrightarrow> run_view (op_store st) k = run_view s k)
       \<and> (\<forall>k. k \<notin> r_TaskID ` set stale \<longrightarrow> task_view (op_store st) k = task_view s k)
       \<and> op_queue st = fold (\<lambda>y q. fst (enq q (rescue_message E s now y))) stale (op_queue st0))"

lemma rescued_nil: "rescued enq E now staleFor st [] st"
  by (simp add: rescued_def)

lemma rescued_tick [simp]: "rescued enq E now staleFor st0 ys (st\<lparr>op_tick := n\<rparr>) = rescued enq E now staleFor st0 ys st"
  by (simp add: rescued_def)

lemma rescued_skip:
  "rescued enq E now staleFor st0 ys st \<Longrightarrow> \<not> stale_active (op_store st0) now staleFor y \<Longrightarrow> rescued enq E now staleFor st0 (ys @ [y]) st"
  by (simp add: rescued_def)

lemma any_status [simp]: "v \<in> set any_task_status"
  by (cases v) (simp_all add: any_task_status_def)

lemma rescuedD:
  assumes "rescued enq E now staleFor st0 ys st"
  shows "z \<in> set ys \<Longrightarrow> stale_active (op_store st0) now staleFor z \<Longrightarrow>
      \<exists>t. task_view (op_store st) (r_TaskID z) = Some ((the (task_view (op_store st0) (r_TaskID z)))\<lparr>t_Status := TaskStatusQueued, t_UpdatedAt := t\<rparr>)"
    and "run_id y \<notin> run_id ` set ys \<Longrightarrow> run_view (op_store st) (run_id y) = run_view (op_store st0) (run_id y)"
    and "(\<And>z. z \<in> set ys \<Longrightarrow> stale_active (op_store st0) now staleFor z \<Longrightarrow> r_TaskID z \<noteq> k)
      \<Longrightarrow> task_view (op_store st) k = task_view (op_store st0) k"
  using assms unfolding rescued_def Let_def by (simp, force, force)

lemma other_run:
  assumes "z \<in> set ys" and "run_id y \<notin> run_id ` set ys"
  shows "run_id z \<noteq> run_id y"
proof
  assume "run_id z = run_id y"
  then have "run_id y \<in> run_id ` set ys" by (intro rev_image_eqI [OF assms(1)]) simp
  with assms(2) show False by (rule notE)
qed

text \<open>The other runs of a task that was rescued are not its active run.\<close>

lemma rescued_task:
  assumes "rescued enq E now staleFor st0 ys st" and "task_view (op_store st0) (r_TaskID y) = Some x" and "run_id y \<notin> run_id ` set ys"
  shows "\<exists>x'. task_view (op_store st) (r_TaskID y) = Some x' \<and> t_ActiveRunID x' = t_ActiveRunID x \<and> (t_ActiveRunID x = r_RunID y \<longrightarrow> x' = x)"
proof (cases "\<exists>z \<in> set ys. stale_active (op_store st0) now staleFor z \<and> r_TaskID z = r_TaskID y")
  case False
  then have "task_view (op_store st) (r_TaskID y) = task_view (op_store st0) (r_TaskID y)" by (intro rescuedD(3) [OF assms(1)]) blast
  then show ?thesis using assms(2) by simp
next
  case True
  then obtain z where z: "z \<in> set ys" "stale_active (op_store st0) now staleFor z" "r_TaskID z = r_TaskID y" by blast
  then have "t_ActiveRunID x = r_RunID z" using assms(2) by (auto simp: stale_active_def)
  moreover have "r_RunID z \<noteq> r_RunID y" using other_run [OF z(1) assms(3)] z(3) by auto
  moreover obtain t where "task_view (op_store st) (r_TaskID y) = Some (x\<lparr>t_Status := TaskStatusQueued, t_UpdatedAt := t\<rparr>)"
    using rescuedD(1) [OF assms(1) z(1,2)] assms(2) z(3) by auto
  ultimately show ?thesis by simp
qed

lemma rescued_step:
  assumes "rescued enq E now staleFor st0 ys st" and "stale_active (op_store st0) now staleFor y" and "run_id y \<notin> run_id ` set ys"
    and "task_view (op_store st0) (r_TaskID y) = Some x"
    and "task_view s' = (task_view (op_store st))(r_TaskID y \<mapsto> x\<lparr>t_Status := TaskStatusQueued, t_UpdatedAt := t2\<rparr>)"
    and "run_view s' = (run_view (op_store st))(run_id y \<mapsto> y\<lparr>r_Status := RunStatusQueued, r_QueuedAt := Some t1, r_StartedAt := None, r_EndedAt := None\<rparr>)"
  shows "rescued enq E now staleFor st0 (ys @ [y]) (st\<lparr>op_store := s', op_queue := fst (enq (op_queue st) (recovery_message E x y now))\<rparr>)"
proof -
  have other: "r_TaskID z \<noteq> r_TaskID y" if "z \<in> set ys" "stale_active (op_store st0) now staleFor z" for z
  proof
    assume same: "r_TaskID z = r_TaskID y"
    then have "r_RunID z = r_RunID y" using that(2) assms(2,4) by (auto simp: stale_active_def)
    then show False using same other_run [OF that(1) assms(3)] by simp
  qed
  have "run_id z \<noteq> run_id y" if "z \<in> set ys" for z using that assms(3) by (rule other_run)
  then show ?thesis
    using assms(1,2) other unfolding rescued_def Let_def
    by (simp add: assms(5,6) rescue_message_def assms(4)) blast
qed

lemma recover_run_rescues:
  assumes "rescued (oe_Enqueue e) (oe_env e) now staleFor st0 ys st" and "run_id y \<notin> run_id ` set ys"
    and "run_view (op_store st0) (run_id y) = Some y"
  shows "\<exists>rep' st'. run_state (recover_run (quiet e) now staleFor y rep) st = (Inr rep', st')
     \<and> rescued (oe_Enqueue e) (oe_env e) now staleFor st0 (ys @ [y]) st'"
proof (cases "task_view (op_store st0) (r_TaskID y)")
  case None
  then have no: "\<not> stale_active (op_store st0) now staleFor y" by (simp add: stale_active_def)
  have "task_view (op_store st) (r_TaskID y) = task_view (op_store st0) (r_TaskID y)"
    by (rule rescuedD(3) [OF assms(1)]) (use None in \<open>auto simp: stale_active_def\<close>)
  then have "task_view (op_store st) (r_TaskID y) = None" using None by simp
  then show ?thesis
    using rescued_skip [OF assms(1) no] by (simp add: recover_run_def run_op_read memory_store_def GetTask_def task_view_def Let_def)
next
  case (Some x)
  obtain x' where x': "task_view (op_store st) (r_TaskID y) = Some x'" "t_ActiveRunID x' = t_ActiveRunID x" "t_ActiveRunID x = r_RunID y \<longrightarrow> x' = x"
    using rescued_task [OF assms(1) Some assms(2)] by blast
  show ?thesis
  proof (cases "stale_active (op_store st0) now staleFor y")
    case False
    then have "t_ActiveRunID x' \<noteq> r_RunID y \<or> \<not> isRunStale y x' now staleFor"
      using Some x'(2,3) by (auto simp: stale_active_def)
    then show ?thesis
      using rescued_skip [OF assms(1) False] x'(1)
      by (auto simp: recover_run_def run_op_read memory_store_def GetTask_def task_view_def Let_def)
  next
    case True
    then have stale: "x' = x" "t_ActiveRunID x = r_RunID y" "isRunStale y x now staleFor" using Some x' by (auto simp: stale_active_def)
    have "run_view (op_store st) (run_id y) = Some y" using rescuedD(2) [OF assms(1,2)] assms(3) by simp
    then have y: "gm_get (db_runs (op_store st)) (run_id y) = Some y" by (simp add: run_view_def)
    have x: "gm_get (db_tasks (op_store st)) (r_TaskID y) = Some x" using x'(1) stale(1) by (simp add: task_view_def)
    let ?n = "op_tick st"
    let ?t1 = "oe_clock e (Suc (Suc ?n))" and ?t2 = "oe_clock e (Suc (Suc (Suc (Suc ?n))))"
    let ?s' = "(op_store st)\<lparr>db_runs := gm_put (run_id y) (y\<lparr>r_Status := RunStatusQueued, r_QueuedAt := Some ?t1, r_StartedAt := None, r_EndedAt := None\<rparr>)
        (db_runs (op_store st)), db_tasks := gm_put (r_TaskID y) (x\<lparr>t_Status := TaskStatusQueued, t_UpdatedAt := ?t2\<rparr>) (db_tasks (op_store st))\<rparr>"
    have "\<exists>rep' n. run_state (recover_run (quiet e) now staleFor y rep) st =
        (Inr rep', st\<lparr>op_tick := n, op_store := ?s', op_queue := fst (oe_Enqueue e (op_queue st) (recovery_message (oe_env e) x y now))\<rparr>)"
      using stale x y
      by (simp add: recover_run_def run_op_read run_op_call run_op_enqueue memory_store_def GetTask_def ResetRunToQueued_def
          UpdateTaskStatusForRun_def Let_def split: prod.split) metis
    moreover have "rescued (oe_Enqueue e) (oe_env e) now staleFor st0 (ys @ [y])
        (st\<lparr>op_store := ?s', op_queue := fst (oe_Enqueue e (op_queue st) (recovery_message (oe_env e) x y now))\<rparr>)"
      by (rule rescued_step [OF assms(1) True assms(2) Some]) (simp_all add: task_view_def run_view_def gomap_simps fun_eq_iff)
    ultimately show ?thesis by (fastforce simp: rescued_def)
  qed
qed

lemma listing_distinct:
  assumes "store_wf s" and "ListRuns s tenantID statuses limit = Inr runs"
  shows "distinct (map run_id runs)" and "y \<in> set runs \<Longrightarrow> run_view s (run_id y) = Some y"
proof -
  have m: "gm_wf (db_runs s)" "list_all (\<lambda>(k, y). run_id y = k) (db_runs s)" using assms(1) by (simp_all add: store_wf_def)
  have "map run_id (map snd (db_runs s)) = map fst (db_runs s)" using m(2) by (auto simp: list_all_iff)
  then have all: "distinct (map run_id (map snd (db_runs s)))" using m(1) by (simp only:)
  let ?xs = "filter (\<lambda>r. (tenantID = [] \<or> r_TenantID r = tenantID) \<and> (statuses = [] \<or> r_Status r \<in> set statuses)) (map snd (db_runs s))"
  let ?key = "\<lambda>r. (case r_StartedAt r of None \<Rightarrow> zero_time | Some t \<Rightarrow> t, run_id r)"
  have "distinct (map run_id (sort_key ?key ?xs))"
    using distinct_map_filter [OF all, of "\<lambda>r. (tenantID = [] \<or> r_TenantID r = tenantID) \<and> (statuses = [] \<or> r_Status r \<in> set statuses)"]
    unfolding distinct_map by simp
  then show "distinct (map run_id runs)"
    using assms(2) by (auto simp: ListRuns_def take_limit_def take_map [symmetric] split: if_splits)
  show "run_view s (run_id y) = Some y" if y: "y \<in> set runs"
  proof -
    have "set runs \<subseteq> {y. (\<exists>k. gm_get (db_runs s) k = Some y)
        \<and> (tenantID = [] \<or> r_TenantID y = tenantID) \<and> (statuses = [] \<or> r_Status y \<in> set statuses)}"
      by (rule listing_spec(1) [OF m(1), where limit = limit and f = ?key]) (use assms(2) in \<open>simp add: ListRuns_def eq_commute\<close>)
    then obtain k where k: "gm_get (db_runs s) k = Some y" using y by blast
    show ?thesis using k wf_run_key [OF assms(1) k] by (simp add: run_view_def)
  qed
qed

text \<open>
  C13. Recovery requeues exactly the stale active runs it scans: on the store at rest, after a
  pass every scanned run that is the active run of its task and stale at the start of the pass
  is queued again, with its task, and its message was offered to the queue, in the order of
  the listing; every other run and every other task is as it was.
\<close>

theorem recovery_requeues:
  assumes "store_wf (op_store st)" and "0 < staleFor" and "0 < limit"
    and "ListRuns (op_store st) tenantID [RunStatusRunning, RunStatusQueued] limit = Inr runs"
    and "run_state (RecoverStaleRuns (quiet e) tenantID staleFor limit) st = ((report, err), st')"
  shows "err = None \<and> rescued (oe_Enqueue e) (oe_env e) (oe_clock e (op_tick st)) staleFor st runs st'"
proof -
  let ?now = "oe_clock e (op_tick st)"
  have loop: "\<exists>rep' st2. run_state (fold_attempt (recover_run (quiet e) ?now staleFor) zs rep) st1 = (Inr rep', st2)
      \<and> rescued (oe_Enqueue e) (oe_env e) ?now staleFor st (ys @ zs) st2"
    if "rescued (oe_Enqueue e) (oe_env e) ?now staleFor st ys st1" "distinct (map run_id (ys @ zs))"
      "\<And>z. z \<in> set zs \<Longrightarrow> run_view (op_store st) (run_id z) = Some z" for ys zs rep st1
    using that
  proof (induction zs arbitrary: ys rep st1)
    case (Cons z zs)
    have new: "run_id z \<notin> run_id ` set ys" using Cons.prems(2) by (simp add: image_iff)
    have "run_view (op_store st) (run_id z) = Some z" using Cons.prems(3) by simp
    from recover_run_rescues [OF Cons.prems(1) new this, of rep]
    obtain rep1 st2 where one: "run_state (recover_run (quiet e) ?now staleFor z rep) st1 = (Inr rep1, st2)"
      and st2: "rescued (oe_Enqueue e) (oe_env e) ?now staleFor st (ys @ [z]) st2" by blast
    from Cons.IH [OF st2, of rep1] Cons.prems(2,3) one show ?case by auto
  qed auto
  let ?st = "st\<lparr>op_tick := Suc (Suc (op_tick st))\<rparr>"
  have start: "rescued (oe_Enqueue e) (oe_env e) ?now staleFor st [] ?st" by (simp add: rescued_nil)
  from loop [OF start, of runs "\<lparr>rv_Scanned = 0, rv_Recovered = 0, rv_Skipped = 0, rv_Errors = []\<rparr>"] listing_distinct [OF assms(1,4)]
  obtain rep' st2 where pass: "run_state (fold_attempt (recover_run (quiet e) ?now staleFor) runs
        \<lparr>rv_Scanned = 0, rv_Recovered = 0, rv_Skipped = 0, rv_Errors = []\<rparr>) ?st = (Inr rep', st2)"
    and done': "rescued (oe_Enqueue e) (oe_env e) ?now staleFor st runs st2" by auto
  have "run_state (RecoverStaleRuns (quiet e) tenantID staleFor limit) st = ((Some rep', None), st2)"
    using assms(2-4) pass by (simp add: RecoverStaleRuns_def run_op_read memory_store_def)
  then show ?thesis using assms(5) done' by simp
qed

text \<open>A run that has been running for an hour when the pass starts.\<close>

definition stuck :: "(MemoryStore, SQSMessage list) OpsState" where
  "stuck = \<lparr>op_store = NewMemoryStore\<lparr>db_tasks := [(''task_1'', sample_task\<lparr>t_Status := TaskStatusRunning\<rparr>)],
     db_runs := [(''task_1#run_1'', sample_run\<lparr>r_Status := RunStatusRunning, r_StartedAt := Some 0\<rparr>)]\<rparr>, op_queue = [], op_tick = 0\<rparr>"

theorem recovery_requeues_witness:
  "\<exists>y. run_view (op_store (snd (run_state (RecoverStaleRuns (quiet (sample_ops\<lparr>oe_clock := (\<lambda>_. Hour)\<rparr>)) ''acme'' Minute 10) stuck)))
         ''task_1#run_1'' = Some y \<and> r_Status y = RunStatusQueued"
proof -
  let ?e = "sample_ops\<lparr>oe_clock := (\<lambda>_. Hour)\<rparr>"
  let ?y = "sample_run\<lparr>r_Status := RunStatusRunning, r_StartedAt := Some 0\<rparr>"
  obtain report err st' where run: "run_state (RecoverStaleRuns (quiet ?e) ''acme'' Minute 10) stuck = ((report, err), st')"
    by (metis prod.exhaust)
  have wf: "store_wf (op_store stuck)"
    by (simp add: stuck_def store_wf_def NewMemoryStore_def sample_task_def sample_run_def runKey_def)
  have list: "ListRuns (op_store stuck) ''acme'' [RunStatusRunning, RunStatusQueued] 10 = Inr [?y]"
    by (simp add: ListRuns_def stuck_def sample_run_def take_limit_def)
  have "stale_active (op_store stuck) (oe_clock ?e (op_tick stuck)) Minute ?y"
    by (simp add: stale_active_def stuck_def task_view_def sample_task_def sample_run_def isRunStale_def time_Sub_def sat64_def Hour_def Minute_def)
  then show ?thesis
    using recovery_requeues [OF wf _ _ list run] run
    by (auto simp: rescued_def Let_def Minute_def sample_run_def runKey_def)
qed

end
