(* ===== verification/Spec2Isabelle.thy ===== *)
theory Spec2Isabelle
  imports StateProps StateRefinement StateTypes TenantProps QueueProps TaskProps RoutingProps EventProps
    CheckpointProps WorkerProps OpsProps
begin

text \<open>
  A verification of AgentForge, a service that runs language-model agents as resumable tasks.

  \<^bold>\<open>The program.\<close> A client creates a task; the task service (\<open>pkg/task\<close>) validates the request,
  stores a task with its first run in the metadata store (\<open>pkg/state\<close>) and enqueues a message
  (\<open>pkg/queue\<close>) under the admission control of the tenant manager (\<open>pkg/tenant\<close>). A worker
  (\<open>pkg/engine/worker.go\<close>) takes the message, claims the run, and executes it with the engine
  (\<open>pkg/engine/engine.go\<close>): a loop that asks a model (through \<open>router.go\<close>) for the next action,
  runs tools in a workspace, saves a checkpoint of memory and workspace (\<open>pkg/memory\<close>,
  \<open>pkg/artifact\<close>, \<open>workspace_snapshot.go\<close>) after each step, and pushes redacted events to the
  connections of the task. A task can be aborted, and resumed from any checkpointed step. An
  operations process (\<open>internal/ops\<close>) requeues stale runs, checks the store for drift and
  repairs it.

  \<^bold>\<open>Theories and the code they model.\<close>
  \<^item> \<open>Prelude\<close>, \<open>GoStrings\<close>, \<open>GoFloat\<close>: what the program uses of Go: 64-bit integers as \<open>int\<close> with
    the wrap-around written out (\<open>wrap64\<close>, \<open>add64\<close>), instants as nanoseconds, maps as association
    lists whose order is one possible iteration order, strings as bytes, \<open>float64\<close> as rationals
    with rounding to the nearest double; the locales \<open>machine\<close> and \<open>evolution\<close> of a state that
    operations keep well-formed and move along a preorder.
  \<^item> \<open>Effects\<close>: programs in the state monad, early returns, and a Hoare logic for them.
  \<^item> \<open>Model\<close>: the structs and enumerations of \<open>pkg/model\<close>; fields carry the Go name behind a prefix.
  \<^item> \<open>StateStore\<close>: the interface \<open>state.Store\<close> as the record \<open>Store\<close> of its methods, the in-memory
    store as the record \<open>MemoryStore\<close> with one definition per method of \<open>memory_store.go\<close>; a call is
    a value of \<open>StoreOp\<close>, a history a list of calls (\<open>run_ops\<close>). \<open>StateContract\<close> states what the
    services rely on as the locales \<open>state_store\<close> and \<open>local_store\<close> and interprets them on the
    in-memory store. \<open>StateProps\<close>: representation invariant and growth along every history,
    exclusive claims, failing calls change nothing, listings. \<open>StateRefinement\<close>: an abstract store
    over structured keys, and that the in-memory store refines it (locale \<open>simulation\<close>).
    \<open>StateTypes\<close>: stored values keep their machine types.
  \<^item> \<open>TenantManager\<close>, \<open>TenantProps\<close>: \<open>pkg/tenant/manager.go\<close>; limits and budgets along every
    history of calls, the life cycle of the circuit breaker, rollback, isolation of tenants.
  \<^item> \<open>MemoryQueue\<close>: the critical sections of \<open>pkg/queue/memory_queue.go\<close>; \<open>QueueSystem\<close>: the step
    relation \<open>q_step\<close> that interleaves the sections of producers, ingress loop, workers and timers,
    with its invariant; \<open>QueueProps\<close>: a key is queued or in flight at most once, dispatch is
    complete and round robin, attempts are bounded, and what is lost when a redrive is refused.
  \<^item> \<open>PromptPolicy\<close>, \<open>TaskService\<close>, \<open>TaskProps\<close>: \<open>internal/promptpolicy\<close> and \<open>pkg/task\<close> over any
    store and queue; the locale \<open>service_env\<close> holds the proofs about creation and resume under
    interference of other clients and is interpreted on the in-memory store and queue.
  \<^item> \<open>Routing\<close>, \<open>RoutingProps\<close>: \<open>llm.go\<close>, \<open>pricing.go\<close>, \<open>router.go\<close>; the route plan and fallback.
  \<^item> \<open>EventText\<close>, \<open>EventProps\<close>: redaction and truncation of event text in \<open>engine.go\<close>.
  \<^item> \<open>Artifacts\<close>, \<open>CheckpointProps\<close>: artifact store, workspace interface, memory and workspace
    snapshots; round trips, refusal of tampered objects, and that every step of a successful run
    can be restored.
  \<^item> \<open>Engine\<close>: \<open>Execute\<close> and its helpers as a program over the record \<open>EngineState\<close> (store,
    artifacts, workspace, counters); \<open>EngineLogic\<close>: the locales that lift what elementary effects
    keep to the whole run; \<open>EngineProps\<close>: what a run leaves alone, how often it calls the model,
    abort requests, budgets, whom its events reach.
  \<^item> \<open>Worker\<close>, \<open>WorkerProps\<close>: \<open>handleMessage\<close> with all its early returns; how a message ends, repeated
    deliveries, superseded runs.
  \<^item> \<open>Ops\<close>, \<open>OpsProps\<close>: \<open>recovery.go\<close>, \<open>consistency.go\<close>, \<open>scheduler.go\<close>; what recovery requeues, that
    the check decides consistency, that repairs converge.

  \<^bold>\<open>Concurrency and time.\<close> A method that runs under one mutex is one transition. Where the code
  makes several calls of a shared store, the model changes the store between two calls by what
  other clients do, an argument of the definitions (\<open>others\<close>, \<open>en_others\<close>, \<open>oe_others\<close>); theorems
  say which interference they allow. Readings of the clock, random bytes, the end of a context
  and the answers of model, tools and pusher are arguments, read at successive ticks.

  \<^bold>\<open>Bounds.\<close> No definition uses fuel. The engine's loop recurses on the distance to the step limit,
  the route loop on the list of candidates, the dispatch loop on the number of tenants in the
  ring, and the scheduler on the list of ticks its ticker delivers; all are total functions, and
  the number of calls a run makes is a theorem.

  \<^bold>\<open>Parameters.\<close> Gzip, SHA-256, JSON parsing and printing, the model clients, the tools, the
  pusher and the workspace implementation are parameters. The hypotheses on them are round
  trips of gzip and JSON and that tools leave the engine's objects alone, each where it is used.

  \<^bold>\<open>Not modelled.\<close> The clients of remote services (\<open>dynamo_store.go\<close>, \<open>sqs_queue.go\<close>, \<open>s3_store.go\<close>,
  \<open>openai_llm.go\<close>, \<open>aws_pusher.go\<close>) consist of requests whose meaning the services define; what
  their callers rely on is in the contracts above. \<open>pkg/workspace/local.go\<close> and \<open>fs_tools.go\<close> work
  on the files of the operating system; \<open>pkg/api\<close>, \<open>cmd\<close> and \<open>internal/config\<close> are HTTP plumbing and
  wiring; the token chunker batches by timers; logging, tracing and counters have no effect on
  the state. Infinities and NaN of \<open>float64\<close> are outside the model.
\<close>

end
